(* ===== verification/SM_Prelude.thy ===== *)
theory SM_Prelude
  imports Complex_Main "HOL-Library.AList" "HOL-Library.Multiset" "HOL-Library.State_Monad" "HOL-Library.Log_Nat"
    "HOL-Library.Char_ord" "HOL-Library.List_Lexorder" "HOL-Library.Product_Lexorder"
begin

text \<open>
  What every other theory shares: the exception classes the program raises or catches, results
  that may carry an exception, the insertion-ordered dictionary of Python with its interface as a
  locale, the sampling of generic list lemmas, and the collections of rules the component proofs
  run on (\<open>grows_intros\<close> for the monotonicity of diagnostic maps, \<open>dict_simps\<close>
  for dictionary lookups, \<open>rnd_intros\<close> for the sign of rounded values).
\<close>

named_theorems grows_intros
named_theorems dict_simps
named_theorems rnd_intros

section \<open>Exceptions\<close>

text \<open>
  The classes the sources name. \<open>NamedError c\<close> is any further ordinary exception, known
  to the code by its class name only (\<open>type(failure).__name__\<close> in readers/nvml.py).
\<close>

datatype exn =
    ValidationError | UnsupportedPlatformError | DependencyUnavailableError
  | ValueError | TypeError | OverflowError | ZeroDivisionError | IndexError | RuntimeError
  | TimeoutError | PermissionError | FileNotFoundError | OSError
  | TimeoutExpired | SubprocessError | NamedError string
  | KeyboardInterrupt | SystemExit

text \<open>
  \<open>except Exception\<close> catches everything but the two classes that inherit from
  \<open>BaseException\<close> directly.
\<close>

definition ordinary :: "exn \<Rightarrow> bool" where
  "ordinary e \<longleftrightarrow> e \<noteq> KeyboardInterrupt \<and> e \<noteq> SystemExit"

text \<open>\<open>except OSError\<close> also catches the subclasses of \<open>OSError\<close>.\<close>

fun is_os_error :: "exn \<Rightarrow> bool" where
  "is_os_error OSError = True"
| "is_os_error PermissionError = True"
| "is_os_error FileNotFoundError = True"
| "is_os_error TimeoutError = True"
| "is_os_error _ = False"

fun is_subprocess_error :: "exn \<Rightarrow> bool" where
  "is_subprocess_error SubprocessError = True"
| "is_subprocess_error TimeoutExpired = True"
| "is_subprocess_error _ = False"

lemma os_error_ordinary [intro]: "is_os_error e \<Longrightarrow> ordinary e"
  by (cases e) (auto simp: ordinary_def)

lemma subprocess_error_ordinary [intro]: "is_subprocess_error e \<Longrightarrow> ordinary e"
  by (cases e) (auto simp: ordinary_def)

section \<open>Results that may carry an exception\<close>

type_synonym 'a result = "exn + 'a"

fun ebind :: "'a result \<Rightarrow> ('a \<Rightarrow> 'b result) \<Rightarrow> 'b result" where
  "ebind (Inl e) f = Inl e"
| "ebind (Inr x) f = f x"

fun emap :: "('a \<Rightarrow> 'b) \<Rightarrow> 'a result \<Rightarrow> 'b result" where
  "emap f (Inl e) = Inl e"
| "emap f (Inr x) = Inr (f x)"

lemma ebind_Inr_iff: "ebind m f = Inr y \<longleftrightarrow> (\<exists>x. m = Inr x \<and> f x = Inr y)"
  by (cases m) auto

lemma ebind_Inl_iff: "ebind m f = Inl e \<longleftrightarrow> m = Inl e \<or> (\<exists>x. m = Inr x \<and> f x = Inl e)"
  by (cases m) auto

lemma emap_Inr_iff: "emap f m = Inr y \<longleftrightarrow> (\<exists>x. m = Inr x \<and> y = f x)"
  by (cases m) auto

lemma ebind_assoc: "ebind (ebind m f) g = ebind m (\<lambda>x. ebind (f x) g)"
  by (cases m) auto

text \<open>Every element of a list in turn, stopping at the first exception.\<close>

fun etraverse :: "('a \<Rightarrow> 'b result) \<Rightarrow> 'a list \<Rightarrow> 'b list result" where
  "etraverse f [] = Inr []"
| "etraverse f (x # xs) = ebind (f x) (\<lambda>y. emap ((#) y) (etraverse f xs))"

lemma etraverse_Inr_iff:
  "etraverse f xs = Inr ys \<longleftrightarrow> list_all2 (\<lambda>x y. f x = Inr y) xs ys"
  by (induction xs arbitrary: ys)
    (auto simp: ebind_Inr_iff emap_Inr_iff list_all2_Cons1)

section \<open>Lists\<close>

lemma find_Some_in: "find P xs = Some x \<Longrightarrow> x \<in> set xs \<and> P x"
  by (induction xs) (auto split: if_splits)

lemma find_None_all: "find P xs = None \<longleftrightarrow> (\<forall>x \<in> set xs. \<not> P x)"
  by (induction xs) auto

lemma foldl_invariant:
  assumes "I a" and "\<And>b x. I b \<Longrightarrow> x \<in> set xs \<Longrightarrow> I (f b x)"
  shows "I (foldl f a xs)"
  using assms by (induction xs arbitrary: a) auto

text \<open>Consecutive pairs, \<open>itertools.pairwise\<close>.\<close>

fun pairwise :: "'a list \<Rightarrow> ('a \<times> 'a) list" where
  "pairwise (x # y # zs) = (x, y) # pairwise (y # zs)"
| "pairwise _ = []"

lemma length_pairwise [simp]: "length (pairwise xs) = length xs - 1"
  by (induction xs rule: pairwise.induct) auto

lemma pairwise_in_set: "(x, y) \<in> set (pairwise xs) \<Longrightarrow> x \<in> set xs \<and> y \<in> set xs"
  by (induction xs rule: pairwise.induct) auto

lemma pairwise_sorted_wrt:
  "sorted_wrt R xs \<Longrightarrow> (x, y) \<in> set (pairwise xs) \<Longrightarrow> R x y"
  by (induction xs rule: pairwise.induct) auto

text \<open>\<open>enumerate\<close> with its start value.\<close>

definition enum_from :: "nat \<Rightarrow> 'a list \<Rightarrow> (nat \<times> 'a) list" where
  "enum_from n xs = zip [n..<n + length xs] xs"

lemma enum_from_Nil [simp]: "enum_from n [] = []"
  by (simp add: enum_from_def)

lemma enum_from_Cons [simp]: "enum_from n (x # xs) = (n, x) # enum_from (Suc n) xs"
  by (simp add: enum_from_def upt_conv_Cons del: upt_Suc)

lemma map_snd_enum_from [simp]: "map snd (enum_from n xs) = xs"
  by (induction xs arbitrary: n) auto

section \<open>Dictionaries\<close>

text \<open>
  A Python dictionary keeps the insertion order of its keys, and assigning to a key that is
  present keeps its position. An association list with \<open>AList.update\<close> is exactly that.
\<close>

type_synonym ('k, 'v) dict = "('k \<times> 'v) list"

definition dict_get :: "('k, 'v) dict \<Rightarrow> 'k \<Rightarrow> 'v option" where
  "dict_get d k = map_of d k"

definition dict_set :: "'k \<Rightarrow> 'v \<Rightarrow> ('k, 'v) dict \<Rightarrow> ('k, 'v) dict" where
  "dict_set k v d = AList.update k v d"

definition dict_setdefault :: "'k \<Rightarrow> 'v \<Rightarrow> ('k, 'v) dict \<Rightarrow> ('k, 'v) dict" where
  "dict_setdefault k v d = (if dict_get d k = None then dict_set k v d else d)"

definition dict_update :: "('k, 'v) dict \<Rightarrow> ('k, 'v) dict \<Rightarrow> ('k, 'v) dict" where
  "dict_update d d' = foldl (\<lambda>m (k, v). dict_set k v m) d d'"

definition dict_keys :: "('k, 'v) dict \<Rightarrow> 'k set" where
  "dict_keys d = fst ` set d"

definition dict_ok :: "('k, 'v) dict \<Rightarrow> bool" where
  "dict_ok d \<longleftrightarrow> distinct (map fst d)"

text \<open>\<open>dict(sorted(d.items()))\<close>: keys are distinct, so pairs are ordered by key.\<close>

definition dict_sorted :: "('k :: linorder, 'v) dict \<Rightarrow> ('k, 'v) dict" where
  "dict_sorted d = sort_key fst d"

text \<open>
  The interface the readers and the collector use of a dictionary, with the laws of lookup after
  assignment.
\<close>

locale mapping_store =
  fixes get :: "'d \<Rightarrow> 'k \<Rightarrow> 'v option"
    and put :: "'k \<Rightarrow> 'v \<Rightarrow> 'd \<Rightarrow> 'd"
    and nil :: "'d"
    and ok :: "'d \<Rightarrow> bool"
  assumes get_nil: "get nil k = None"
    and get_put: "ok d \<Longrightarrow> get (put k v d) k' = (if k' = k then Some v else get d k')"
    and ok_nil: "ok nil"
    and ok_put: "ok d \<Longrightarrow> ok (put k v d)"
begin

definition put_new :: "'k \<Rightarrow> 'v \<Rightarrow> 'd \<Rightarrow> 'd" where
  "put_new k v d = (if get d k = None then put k v d else d)"

lemma ok_put_new: "ok d \<Longrightarrow> ok (put_new k v d)"
  by (simp add: put_new_def ok_put)

lemma get_put_new:
  "ok d \<Longrightarrow> get (put_new k v d) k' =
     (if k' = k \<and> get d k = None then Some v else get d k')"
  by (auto simp: put_new_def get_put)

lemma put_keeps_keys: "ok d \<Longrightarrow> get d k' \<noteq> None \<Longrightarrow> get (put k v d) k' \<noteq> None"
  by (simp add: get_put)

lemma put_new_keeps_values: "ok d \<Longrightarrow> get d k' = Some w \<Longrightarrow> get (put_new k v d) k' = Some w"
  by (auto simp: get_put_new)

lemma ok_puts: "ok d \<Longrightarrow> ok (foldl (\<lambda>m (k, v). put k v m) d kvs)"
  by (rule foldl_invariant) (auto simp: ok_put)

lemma get_puts:
  "ok d \<Longrightarrow> get (foldl (\<lambda>m (k, v). put k v m) d kvs) k =
     (case map_of (rev kvs) k of Some v \<Rightarrow> Some v | None \<Rightarrow> get d k)"
proof (induction kvs arbitrary: d)
  case Nil
  then show ?case by simp
next
  case (Cons kv kvs)
  obtain k' v' where kv: "kv = (k', v')" by (cases kv)
  from Cons.prems have "ok (put k' v' d)" by (rule ok_put)
  with Cons.IH [of "put k' v' d"] Cons.prems kv show ?case
    by (auto simp: get_put map_add_def split: option.splits)
qed

end

interpretation pydict: mapping_store dict_get dict_set "[]" "\<lambda>_. True"
  by unfold_locales (auto simp: dict_get_def dict_set_def update_conv')

lemma dict_setdefault_eq: "dict_setdefault = pydict.put_new"
  by (intro ext) (simp add: dict_setdefault_def pydict.put_new_def)

lemmas dict_get_set [dict_simps] = pydict.get_put [OF TrueI]
lemmas dict_get_setdefault [dict_simps] =
  pydict.get_put_new [OF TrueI, folded dict_setdefault_eq]

lemma dict_get_nil [simp, dict_simps]: "dict_get [] k = None"
  by (rule pydict.get_nil)

lemma dict_get_update [dict_simps]:
  "dict_get (dict_update d d') k =
     (case map_of (rev d') k of Some v \<Rightarrow> Some v | None \<Rightarrow> dict_get d k)"
  unfolding dict_update_def by (rule pydict.get_puts) simp

lemma dict_get_keys: "dict_get d k \<noteq> None \<longleftrightarrow> k \<in> dict_keys d"
  by (force simp: dict_get_def dict_keys_def map_of_eq_None_iff)

lemma dict_keys_set [simp]: "dict_keys (dict_set k v d) = insert k (dict_keys d)"
  by (simp add: dict_keys_def dict_set_def dom_update)

lemma dict_keys_setdefault [simp]: "dict_keys (dict_setdefault k v d) = insert k (dict_keys d)"
  using dict_get_keys [of d k] by (auto simp: dict_setdefault_def)

lemma dict_ok_Nil [simp]: "dict_ok []"
  by (simp add: dict_ok_def)

lemma dict_ok_set [simp]: "dict_ok d \<Longrightarrow> dict_ok (dict_set k v d)"
  by (simp add: dict_ok_def dict_set_def distinct_update)

lemma dict_ok_setdefault [simp]: "dict_ok d \<Longrightarrow> dict_ok (dict_setdefault k v d)"
  by (simp add: dict_setdefault_def)

lemma dict_ok_update [simp]: "dict_ok d \<Longrightarrow> dict_ok (dict_update d d')"
  unfolding dict_update_def by (rule foldl_invariant) auto

lemma dict_keys_get: "k \<in> dict_keys d \<longleftrightarrow> dict_get d k \<noteq> None"
  using dict_get_keys [of d k] by simp

lemma dict_keys_update [simp]: "dict_keys (dict_update d d') = dict_keys d \<union> dict_keys d'"
proof (rule set_eqI)
  fix k
  have "map_of (rev d') k \<noteq> None \<longleftrightarrow> k \<in> dict_keys d'"
    by (simp add: map_of_eq_None_iff dict_keys_def)
  then show "k \<in> dict_keys (dict_update d d') \<longleftrightarrow> k \<in> dict_keys d \<union> dict_keys d'"
    by (auto simp: dict_keys_get dict_get_update split: option.splits)
qed

lemma dict_keys_sorted [simp]: "dict_keys (dict_sorted d) = dict_keys d"
  by (simp add: dict_keys_def dict_sorted_def)

lemma dict_get_sorted [simp]: "dict_ok d \<Longrightarrow> dict_get (dict_sorted d) k = dict_get d k"
proof -
  assume d: "dict_ok d"
  have "distinct (map fst (dict_sorted d))"
  proof -
    have "mset (map fst (dict_sorted d)) = mset (map fst d)"
      by (simp add: dict_sorted_def)
    then have "distinct (map fst (dict_sorted d)) \<longleftrightarrow> distinct (map fst d)"
      by (rule mset_eq_imp_distinct_iff)
    with d show ?thesis by (simp add: dict_ok_def)
  qed
  with d have "map_of (dict_sorted d) = map_of d"
    by (subst map_of_inject_set) (simp_all add: dict_ok_def dict_sorted_def)
  then show ?thesis by (simp add: dict_get_def)
qed

text \<open>Reading a sorted dictionary in order is reading the keys in order.\<close>

lemma dict_sorted_keys:
  fixes d :: "('k :: linorder, 'v) dict"
  assumes "dict_ok d"
  shows "map fst (dict_sorted d) = sorted_list_of_set (dict_keys d)"
proof -
  have "sorted (map fst (dict_sorted d))" by (simp add: dict_sorted_def)
  moreover have "distinct (map fst (dict_sorted d))"
  proof -
    have "mset (map fst (dict_sorted d)) = mset (map fst d)" by (simp add: dict_sorted_def)
    from mset_eq_imp_distinct_iff [OF this] assms show ?thesis by (simp add: dict_ok_def)
  qed
  moreover have "set (map fst (dict_sorted d)) = dict_keys d" by (simp add: dict_sorted_def dict_keys_def)
  ultimately show ?thesis by (metis sorted_list_of_set.idem_if_sorted_distinct)
qed

lemma dict_sorted_values:
  fixes d :: "('k :: linorder, 'v) dict"
  assumes "dict_ok d"
  shows "map snd (dict_sorted d) = map (\<lambda>k. the (dict_get d k)) (sorted_list_of_set (dict_keys d))"
proof -
  have "snd kv = the (dict_get d (fst kv))" if "kv \<in> set (dict_sorted d)" for kv
  proof -
    have "map_of d (fst kv) = Some (snd kv)"
      using that assms by (intro map_of_is_SomeI) (simp_all add: dict_ok_def dict_sorted_def)
    then show ?thesis by (simp add: dict_get_def)
  qed
  then have "map snd (dict_sorted d) = map (\<lambda>k. the (dict_get d k)) (map fst (dict_sorted d))"
    by simp
  then show ?thesis by (simp only: dict_sorted_keys [OF assms])
qed

section \<open>Stateful computations that may raise\<close>

text \<open>
  A method of a reader or of the collector changes its state and returns a value or raises; the
  changes made before an exception stay.
\<close>

type_synonym ('s, 'a) comp = "'s \<Rightarrow> 'a result \<times> 's"

definition creturn :: "'a \<Rightarrow> ('s, 'a) comp" where
  "creturn x = (\<lambda>s. (Inr x, s))"

definition craise :: "exn \<Rightarrow> ('s, 'a) comp" where
  "craise e = (\<lambda>s. (Inl e, s))"

definition cbind :: "('s, 'a) comp \<Rightarrow> ('a \<Rightarrow> ('s, 'b) comp) \<Rightarrow> ('s, 'b) comp" where
  "cbind m f = (\<lambda>s. case m s of (Inl e, s') \<Rightarrow> (Inl e, s') | (Inr x, s') \<Rightarrow> f x s')"

definition cmodify :: "('s \<Rightarrow> 's) \<Rightarrow> ('s, unit) comp" where
  "cmodify f = (\<lambda>s. (Inr (), f s))"

definition cgets :: "('s \<Rightarrow> 'a) \<Rightarrow> ('s, 'a) comp" where
  "cgets f = (\<lambda>s. (Inr (f s), s))"

text \<open>A pure step that may raise.\<close>

definition clift :: "'a result \<Rightarrow> ('s, 'a) comp" where
  "clift r = (\<lambda>s. (r, s))"

fun ctraverse :: "('a \<Rightarrow> ('s, 'b) comp) \<Rightarrow> 'a list \<Rightarrow> ('s, 'b list) comp" where
  "ctraverse f [] = creturn []"
| "ctraverse f (x # xs) =
     cbind (f x) (\<lambda>y. cbind (ctraverse f xs) (\<lambda>ys. creturn (y # ys)))"

text \<open>Run a computation on one component of a larger state.\<close>

definition czoom :: "('s \<Rightarrow> 't) \<Rightarrow> ('t \<Rightarrow> 's \<Rightarrow> 's) \<Rightarrow> ('t, 'a) comp \<Rightarrow> ('s, 'a) comp" where
  "czoom get put m = (\<lambda>s. case m (get s) of (r, t) \<Rightarrow> (r, put t s))"

lemmas comp_defs = creturn_def craise_def cbind_def cmodify_def cgets_def clift_def czoom_def

lemma cbind_cmodify: "cbind (cmodify f) k s = k () (f s)"
  by (simp add: comp_defs)

lemma cbind_assoc: "cbind (cbind m f) g = cbind m (\<lambda>x. cbind (f x) g)"
  by (auto simp: cbind_def fun_eq_iff split: prod.splits sum.splits)

lemma cbind_Inr_iff: "cbind m f s = (Inr y, t) \<longleftrightarrow> (\<exists>x s'. m s = (Inr x, s') \<and> f x s' = (Inr y, t))"
  by (auto simp: cbind_def split: prod.splits sum.splits)

lemma cbind_Inl_iff:
  "cbind m f s = (Inl e, t) \<longleftrightarrow> m s = (Inl e, t) \<or> (\<exists>x s'. m s = (Inr x, s') \<and> f x s' = (Inl e, t))"
  by (auto simp: cbind_def split: prod.splits sum.splits)

lemma cbind_creturn [simp]: "cbind (creturn x) f = f x" "cbind m creturn = m"
  by (auto simp: comp_defs fun_eq_iff split: prod.splits sum.splits)

text \<open>
  Two judgements on computations: \<open>establishes P m Q\<close> (from a state with \<open>P\<close>, a normal
  return satisfies \<open>Q\<close>) and \<open>keeps R m\<close> (the state before and the state after, raise
  or not, are related by the preorder \<open>R\<close>).
\<close>

definition establishes :: "('s \<Rightarrow> bool) \<Rightarrow> ('s, 'a) comp \<Rightarrow> ('a \<Rightarrow> 's \<Rightarrow> bool) \<Rightarrow> bool" where
  "establishes P m Q \<longleftrightarrow> (\<forall>s. P s \<longrightarrow> (case m s of (Inr x, s') \<Rightarrow> Q x s' | _ \<Rightarrow> True))"

definition keeps :: "('s \<Rightarrow> 's \<Rightarrow> bool) \<Rightarrow> ('s, 'a) comp \<Rightarrow> bool" where
  "keeps R m \<longleftrightarrow> (\<forall>s. R s (snd (m s)))"

lemma establishes_bind:
  assumes "establishes P m Q" and "\<And>x. establishes (Q x) (f x) S"
  shows "establishes P (cbind m f) S"
  unfolding establishes_def
proof (intro allI impI)
  fix s
  assume P: "P s"
  obtain r s1 where m: "m s = (r, s1)" by (cases "m s")
  show "case cbind m f s of (Inr x, s') \<Rightarrow> S x s' | _ \<Rightarrow> True"
  proof (cases r)
    case (Inr x)
    with P m assms(1) have "Q x s1" by (auto simp: establishes_def)
    with assms(2) [of x] have "case f x s1 of (Inr y, s') \<Rightarrow> S y s' | _ \<Rightarrow> True"
      by (simp add: establishes_def)
    with m Inr show ?thesis by (simp add: cbind_def)
  qed (simp add: m cbind_def)
qed

lemma establishes_return: "(\<And>s. P s \<Longrightarrow> Q x s) \<Longrightarrow> establishes P (creturn x) Q"
  by (simp add: establishes_def creturn_def)

lemma establishes_weaken:
  assumes "establishes P m Q" and "\<And>s. P' s \<Longrightarrow> P s" and "\<And>x s. Q x s \<Longrightarrow> Q' x s"
  shows "establishes P' m Q'"
  unfolding establishes_def
proof (intro allI impI)
  fix s
  assume "P' s"
  with assms(1,2) have "case m s of (Inr x, s') \<Rightarrow> Q x s' | _ \<Rightarrow> True"
    by (auto simp: establishes_def)
  with assms(3) show "case m s of (Inr x, s') \<Rightarrow> Q' x s' | _ \<Rightarrow> True"
    by (auto split: prod.splits sum.splits)
qed

lemma establishesD: "establishes P m Q \<Longrightarrow> P s \<Longrightarrow> m s = (Inr x, s') \<Longrightarrow> Q x s'"
  by (auto simp: establishes_def dest: spec [of _ s])

lemma keeps_bind [grows_intros]:
  assumes "transp R" and "keeps R m" and "\<And>x. keeps R (f x)"
  shows "keeps R (cbind m f)"
  unfolding keeps_def
proof
  fix s
  obtain r s1 where m: "m s = (r, s1)" by (cases "m s")
  then have 1: "R s s1" using assms(2) by (auto simp: keeps_def dest: spec [of _ s])
  show "R s (snd (cbind m f s))"
  proof (cases r)
    case (Inr x)
    have "R s1 (snd (f x s1))" using assms(3) by (simp add: keeps_def)
    with 1 assms(1) have "R s (snd (f x s1))" by (blast dest: transpD)
    with m Inr show ?thesis by (simp add: cbind_def)
  qed (simp add: m 1 cbind_def)
qed

lemma keeps_pure [grows_intros]:
  "reflp R \<Longrightarrow> keeps R (creturn x)" "reflp R \<Longrightarrow> keeps R (craise e)"
  "reflp R \<Longrightarrow> keeps R (clift r)" "reflp R \<Longrightarrow> keeps R (cgets g)"
  by (auto simp: keeps_def comp_defs reflp_def)

lemma keeps_traverse [grows_intros]:
  "transp R \<Longrightarrow> reflp R \<Longrightarrow> (\<And>x. keeps R (f x)) \<Longrightarrow> keeps R (ctraverse f xs)"
  by (induction xs) (auto intro!: grows_intros)

lemma keepsD: "keeps R m \<Longrightarrow> m s = (r, s') \<Longrightarrow> R s s'"
  by (auto simp: keeps_def dest: spec [of _ s])

end
