(* ===== verification/Py_Float.thy ===== *)
theory Py_Float
  imports SM_Prelude
begin

text \<open>
  Python's numbers: unbounded \<open>int\<close> and IEEE-754 binary64 \<open>float\<close>. A finite
  float is the rational it stands for, every float operation is the exact rational result followed
  by \<open>rnd64\<close> (round to nearest, ties to even, overflow to infinity, gradual underflow).
  The two signed zeros are one value: nothing in the program tells them apart.
\<close>

datatype pyfloat = Fin rat | PosInf | NegInf | NaN

section \<open>Rounding\<close>

definition pow2 :: "int \<Rightarrow> rat" where
  "pow2 e = (if 0 \<le> e then 2 ^ nat e else 1 / 2 ^ nat (- e))"

text \<open>The exponent of the leading binary digit of a positive rational.\<close>

definition ilog2 :: "rat \<Rightarrow> int" where
  "ilog2 x = (case quotient_of x of (p, q) \<Rightarrow>
     let e = bitlen p - bitlen q in if pow2 e \<le> x then e else e - 1)"

definition half_even :: "rat \<Rightarrow> int" where
  "half_even x =
     (let f = \<lfloor>x\<rfloor>; r = x - of_int f
      in if r < 1 / 2 \<or> (r = 1 / 2 \<and> even f) then f else f + 1)"

text \<open>
  A double has 53 significant bits and least exponent \<open>-1074\<close>; a significand of
  \<open>2 ^ 53\<close> at exponent 971 is the first magnitude that overflows.
\<close>

definition rnd64 :: "rat \<Rightarrow> pyfloat" where
  "rnd64 x =
     (if x = 0 then Fin 0
      else let e = max (ilog2 \<bar>x\<bar> - 52) (- 1074); m = half_even (x / pow2 e)
           in if 971 < e \<or> (e = 971 \<and> 9007199254740992 \<le> \<bar>m\<bar>)
              then (if 0 < x then PosInf else NegInf)
              else Fin (of_int m * pow2 e))"

lemma pow2_pos [simp]: "0 < pow2 e"
  by (simp add: pow2_def)

lemma pow2_nonzero [simp]: "pow2 e \<noteq> 0"
  by (metis less_irrefl pow2_pos)

lemma pow2_add: "pow2 (a + b) = pow2 a * pow2 b"
proof -
  have "pow2 e = 2 powi e" for e
    by (auto simp: pow2_def power_int_def field_simps)
  then show ?thesis by (simp add: power_int_add)
qed

lemma pow2_ge_1: "1 \<le> pow2 d \<longleftrightarrow> 0 \<le> d"
proof (cases "0 \<le> d")
  case False
  then have "nat (- d) \<noteq> 0" by simp
  then have "1 < (2 :: rat) ^ nat (- d)" by (intro one_less_power) auto
  then have "\<not> 2 ^ nat (- d) \<le> (1 :: rat)" by (simp only: not_le)
  with False show ?thesis by (simp add: pow2_def field_simps)
qed (simp add: pow2_def)

lemma pow2_le_iff [simp]: "pow2 a \<le> pow2 b \<longleftrightarrow> a \<le> b"
proof -
  have "pow2 b = pow2 (b - a) * pow2 a" by (simp add: pow2_add [symmetric])
  then have "pow2 a \<le> pow2 b \<longleftrightarrow> 1 \<le> pow2 (b - a)"
    using mult_le_cancel_right_pos [of "pow2 a" 1 "pow2 (b - a)"] by simp
  then show ?thesis by (simp add: pow2_ge_1)
qed

lemma pow2_less_iff [simp]: "pow2 a < pow2 b \<longleftrightarrow> a < b"
  by (simp add: not_le [symmetric])

lemma pow2_of_int: "0 \<le> e \<Longrightarrow> pow2 e = of_int (2 ^ nat e)"
  by (simp add: pow2_def)

lemma pow2_0 [simp]: "pow2 0 = 1"
  by (simp add: pow2_def)

lemma bitlen_bounds_rat:
  assumes "0 < (p :: int)"
  shows "pow2 (bitlen p - 1) \<le> of_int p" and "of_int p < pow2 (bitlen p)"
proof -
  have "2 ^ nat (bitlen p - 1) \<le> p \<and> p < 2 ^ nat (bitlen p)"
    using bitlen_bounds [OF assms] .
  moreover have "0 \<le> bitlen p - 1" using assms bitlen_le_iff_power [of p 0] by (simp add: bitlen_nonneg)
  ultimately show "pow2 (bitlen p - 1) \<le> of_int p" and "of_int p < pow2 (bitlen p)"
    using bitlen_nonneg [of p] by (simp_all add: pow2_of_int del: of_int_power)
qed

lemma ilog2_bounds:
  assumes "0 < x"
  shows "pow2 (ilog2 x) \<le> x" and "x < pow2 (ilog2 x + 1)"
proof -
  obtain p q where pq: "quotient_of x = (p, q)" by (cases "quotient_of x")
  have q: "0 < q" using pq by (rule quotient_of_denom_pos)
  have x: "x = of_int p / of_int q" using pq by (rule quotient_of_div)
  with assms q have p: "0 < p" by (simp add: zero_less_divide_iff)
  let ?e = "bitlen p - bitlen q"
  note bp = bitlen_bounds_rat [OF p] and bq = bitlen_bounds_rat [OF q]
  have rq: "(0 :: rat) < of_int q" using q by simp
  have "x < pow2 (bitlen p) / pow2 (bitlen q - 1)"
    unfolding x using bp(2) bq(1) rq p by (intro frac_less) (auto intro: less_imp_le)
  also have "\<dots> = pow2 (?e + 1)"
    using pow2_add [of "?e + 1" "bitlen q - 1"] by (simp add: field_simps)
  finally have hi: "x < pow2 (?e + 1)" .
  have "pow2 (bitlen p - 1) / pow2 (bitlen q) \<le> x"
    unfolding x using bp(1) bq(2) rq p by (intro frac_le) (auto intro: less_imp_le)
  moreover have "pow2 (bitlen p - 1) / pow2 (bitlen q) = pow2 (?e - 1)"
    using pow2_add [of "?e - 1" "bitlen q"] by (simp add: field_simps)
  ultimately have lo: "pow2 (?e - 1) \<le> x" by simp
  show "pow2 (ilog2 x) \<le> x" and "x < pow2 (ilog2 x + 1)"
    using hi lo by (auto simp: ilog2_def pq Let_def)
qed

lemma half_even_of_int [simp]: "half_even (of_int n) = n"
  by (simp add: half_even_def)

lemma half_even_dist: "\<bar>of_int (half_even x) - x\<bar> \<le> 1 / 2"
proof -
  have "of_int \<lfloor>x\<rfloor> \<le> x" "x < of_int \<lfloor>x\<rfloor> + 1" by linarith+
  then show ?thesis by (auto simp: half_even_def Let_def abs_le_iff)
qed

lemma half_even_mono:
  assumes "x \<le> y"
  shows "half_even x \<le> half_even y"
proof (rule ccontr)
  assume "\<not> half_even x \<le> half_even y"
  then have less: "half_even y + 1 \<le> half_even x" by simp
  then have "of_int (half_even y) + 1 \<le> (of_int (half_even x) :: rat)"
    by (metis of_int_1 of_int_add of_int_le_iff)
  with half_even_dist [of x] half_even_dist [of y] assms have "x = y" by linarith
  with less show False by simp
qed

lemma half_even_nonneg: "0 \<le> x \<Longrightarrow> 0 \<le> half_even x"
  using half_even_mono [of "of_int 0" x] half_even_of_int [of 0] by simp

lemma half_even_nonpos: "x \<le> 0 \<Longrightarrow> half_even x \<le> 0"
  using half_even_mono [of x "of_int 0"] half_even_of_int [of 0] by simp

section \<open>What rounding keeps\<close>

fun flt_nonneg :: "pyfloat \<Rightarrow> bool" where
  "flt_nonneg (Fin r) \<longleftrightarrow> 0 \<le> r"
| "flt_nonneg PosInf \<longleftrightarrow> True"
| "flt_nonneg _ \<longleftrightarrow> False"

lemma rnd64_0 [simp]: "rnd64 0 = Fin 0"
  by (simp add: rnd64_def)

lemma rnd64_nonneg [rnd_intros]: "0 \<le> x \<Longrightarrow> flt_nonneg (rnd64 x)"
  by (auto simp: rnd64_def Let_def less_imp_le intro!: half_even_nonneg mult_nonneg_nonneg
      divide_nonneg_pos)

lemma rnd64_not_nan [simp]: "rnd64 x \<noteq> NaN"
  by (simp add: rnd64_def Let_def)

lemma rnd64_not_neginf: "0 \<le> x \<Longrightarrow> rnd64 x \<noteq> NegInf"
  using rnd64_nonneg [of x] by (cases "rnd64 x") auto

text \<open>
  A number with at most 53 significant bits in the exponent range is its own rounding; in
  particular every integer up to \<open>2 ^ 53\<close>.
\<close>

lemma rnd64_exact:
  assumes x: "x = of_int m * pow2 e" and m: "\<bar>m\<bar> < 2 ^ 53" and e: "- 1074 \<le> e" "e \<le> 971"
  shows "rnd64 x = Fin x"
proof (cases "x = 0")
  case False
  define e' where "e' = max (ilog2 \<bar>x\<bar> - 52) (- 1074)"
  have "\<bar>x\<bar> = of_int \<bar>m\<bar> * pow2 e"
    by (simp add: x abs_mult less_imp_le)
  also have "\<dots> < pow2 53 * pow2 e"
  proof -
    have "(of_int \<bar>m\<bar> :: rat) < of_int (2 ^ 53)" using m of_int_less_iff by blast
    then have "of_int \<bar>m\<bar> < pow2 53" by (simp add: pow2_def)
    then show ?thesis by (rule mult_strict_right_mono) simp
  qed
  finally have "\<bar>x\<bar> < pow2 (53 + e)" by (simp add: pow2_add)
  moreover have "pow2 (ilog2 \<bar>x\<bar>) \<le> \<bar>x\<bar>" using False by (intro ilog2_bounds(1)) simp
  ultimately have "pow2 (ilog2 \<bar>x\<bar>) < pow2 (53 + e)" by (rule le_less_trans [rotated])
  then have le: "e' \<le> e" using e by (simp add: e'_def)
  have "x / pow2 e' = of_int m * pow2 (e - e')"
    using pow2_add [of "e - e'" e'] by (simp add: x field_simps)
  also have "\<dots> = of_int (m * 2 ^ nat (e - e'))"
    using le by (simp add: pow2_of_int)
  finally have q: "x / pow2 e' = of_int (m * 2 ^ nat (e - e'))" .
  then have h: "half_even (x / pow2 e') = m * 2 ^ nat (e - e')" by (simp only: half_even_of_int)
  have val_eq: "of_int (m * 2 ^ nat (e - e')) * pow2 e' = x"
    using q by (simp add: field_simps)
  have "\<not> (971 < e' \<or> e' = 971 \<and> 9007199254740992 \<le> \<bar>m * 2 ^ nat (e - e')\<bar>)"
    using le e m by auto
  with False val_eq h show ?thesis by (simp add: rnd64_def Let_def e'_def [symmetric] del: of_int_mult)
qed simp

lemma rnd64_of_int: "\<bar>n\<bar> < 2 ^ 53 \<Longrightarrow> rnd64 (of_int n) = Fin (of_int n)"
  by (rule rnd64_exact [where m = n and e = 0]) auto

text \<open>A rounded value has a 53-bit significand, so rounding it again changes nothing.\<close>

lemma rnd64_form:
  assumes "rnd64 x = Fin r"
  shows "\<exists>m e. r = of_int m * pow2 e \<and> \<bar>m\<bar> < 2 ^ 53 \<and> - 1074 \<le> e \<and> e \<le> 971"
proof (cases "x = 0")
  case True
  with assms have "r = of_int 0 * pow2 0 \<and> \<bar>0 :: int\<bar> < 2 ^ 53 \<and> - 1074 \<le> (0 :: int) \<and> (0 :: int) \<le> 971"
    by simp
  then show ?thesis by blast
next
  case False
  define e where "e = max (ilog2 \<bar>x\<bar> - 52) (- 1074)"
  define m where "m = half_even (x / pow2 e)"
  have r: "r = of_int m * pow2 e" and no: "\<not> (971 < e \<or> e = 971 \<and> 9007199254740992 \<le> \<bar>m\<bar>)"
    using assms False by (auto simp: rnd64_def Let_def e_def [symmetric] m_def [symmetric] split: if_splits)
  have "\<bar>x\<bar> < pow2 (ilog2 \<bar>x\<bar> + 1)" using False by (intro ilog2_bounds(2)) simp
  also have "\<dots> \<le> pow2 (53 + e)" by (simp add: e_def)
  finally have "\<bar>x\<bar> < pow2 53 * pow2 e" by (simp add: pow2_add)
  then have "\<bar>x / pow2 e\<bar> < pow2 53" by (simp add: abs_divide pos_divide_less_eq abs_of_pos)
  then have "\<bar>x / pow2 e\<bar> < of_int (2 ^ 53)" by (simp add: pow2_def)
  then have b: "of_int (- (2 ^ 53)) \<le> x / pow2 e" "x / pow2 e \<le> of_int (2 ^ 53)"
    by (simp_all only: of_int_minus abs_less_iff) linarith+
  then have m: "\<bar>m\<bar> \<le> 2 ^ 53"
    using half_even_mono [OF b(1)] half_even_mono [OF b(2)]
    unfolding m_def by (simp only: half_even_of_int abs_le_iff) simp
  show ?thesis
  proof (cases "\<bar>m\<bar> = 2 ^ 53")
    case True
    define k :: int where "k = (if 0 \<le> m then 2 ^ 52 else - (2 ^ 52))"
    have "m = k * 2" using True by (auto simp: k_def)
    moreover have "pow2 (e + 1) = 2 * pow2 e" using pow2_add [of e 1] by (simp add: pow2_def)
    ultimately have "r = of_int k * pow2 (e + 1)" using r by simp
    moreover have "\<bar>k\<bar> < 2 ^ 53" "- 1074 \<le> e + 1" by (auto simp: k_def e_def)
    moreover have "e + 1 \<le> 971" using no True by auto
    ultimately show ?thesis by blast
  next
    case False
    with m r no show ?thesis by (intro exI [of _ m] exI [of _ e]) (auto simp: e_def)
  qed
qed

lemma rnd64_idem: "rnd64 x = Fin r \<Longrightarrow> rnd64 r = Fin r"
  using rnd64_form [of x r] rnd64_exact by blast

text \<open>The relative error of a result in the normal range is at most half a unit in the last place.\<close>

lemma rnd64_error:
  assumes r: "rnd64 x = Fin r" and normal: "pow2 (- 1022) \<le> \<bar>x\<bar>"
  shows "\<bar>r - x\<bar> \<le> \<bar>x\<bar> / 2 ^ 53"
proof -
  have pos: "0 < \<bar>x\<bar>" using normal pow2_pos [of "- 1022"] by linarith
  then have x0: "x \<noteq> 0" by simp
  let ?l = "ilog2 \<bar>x\<bar>"
  note b = ilog2_bounds [OF pos]
  have "pow2 (- 1022) < pow2 (?l + 1)" using normal b(2) by linarith
  then have e: "max (?l - 52) (- 1074) = ?l - 52" by simp
  have "r = of_int (half_even (x / pow2 (?l - 52))) * pow2 (?l - 52)"
    using r x0 by (auto simp: rnd64_def Let_def e split: if_splits)
  then have "\<bar>r - x\<bar> = \<bar>of_int (half_even (x / pow2 (?l - 52))) - x / pow2 (?l - 52)\<bar> * pow2 (?l - 52)"
    using abs_mult [of "of_int (half_even (x / pow2 (?l - 52))) - x / pow2 (?l - 52)" "pow2 (?l - 52)"]
    by (simp add: less_imp_le left_diff_distrib)
  also have "\<dots> \<le> 1 / 2 * pow2 (?l - 52)"
    by (intro mult_right_mono half_even_dist) (simp add: less_imp_le)
  also have "\<dots> = pow2 ?l / 2 ^ 53"
    using pow2_add [of "?l - 52" 52] by (simp add: pow2_def)
  also have "\<dots> \<le> \<bar>x\<bar> / 2 ^ 53" using b(1) by (simp add: divide_right_mono)
  finally show ?thesis .
qed


section \<open>Comparison\<close>

text \<open>Every comparison with a NaN is false.\<close>

fun flt_le :: "pyfloat \<Rightarrow> pyfloat \<Rightarrow> bool" where
  "flt_le NaN _ = False"
| "flt_le _ NaN = False"
| "flt_le NegInf _ = True"
| "flt_le _ PosInf = True"
| "flt_le (Fin a) (Fin b) = (a \<le> b)"
| "flt_le _ _ = False"

definition flt_less :: "pyfloat \<Rightarrow> pyfloat \<Rightarrow> bool" where
  "flt_less a b \<longleftrightarrow> flt_le a b \<and> \<not> flt_le b a"

lemma flt_less_simps [simp]:
  "flt_less (Fin a) (Fin b) = (a < b)" "flt_less NaN x = False" "flt_less x NaN = False"
  "flt_less (Fin a) PosInf" "flt_less NegInf (Fin a)" "flt_less NegInf PosInf"
  "\<not> flt_less PosInf x" "\<not> flt_less x NegInf"
  by (cases x; auto simp: flt_less_def)+

lemma flt_le_refl [simp]: "flt_le x x \<longleftrightarrow> x \<noteq> NaN"
  by (cases x) auto

lemma flt_le_trans: "flt_le x y \<Longrightarrow> flt_le y z \<Longrightarrow> flt_le x z"
  by (cases x; cases y; cases z) auto

lemma flt_le_total: "x \<noteq> NaN \<Longrightarrow> y \<noteq> NaN \<Longrightarrow> flt_le x y \<or> flt_le y x"
  by (cases x; cases y) auto

lemma flt_not_less: "x \<noteq> NaN \<Longrightarrow> y \<noteq> NaN \<Longrightarrow> \<not> flt_less x y \<longleftrightarrow> flt_le y x"
  using flt_le_total [of x y] by (auto simp: flt_less_def)

section \<open>Float arithmetic\<close>

fun fneg :: "pyfloat \<Rightarrow> pyfloat" where
  "fneg (Fin a) = Fin (- a)"
| "fneg PosInf = NegInf"
| "fneg NegInf = PosInf"
| "fneg NaN = NaN"

fun fabs :: "pyfloat \<Rightarrow> pyfloat" where
  "fabs (Fin a) = Fin \<bar>a\<bar>"
| "fabs NaN = NaN"
| "fabs _ = PosInf"

fun fadd :: "pyfloat \<Rightarrow> pyfloat \<Rightarrow> pyfloat" where
  "fadd (Fin a) (Fin b) = rnd64 (a + b)"
| "fadd NaN _ = NaN"
| "fadd _ NaN = NaN"
| "fadd PosInf NegInf = NaN"
| "fadd NegInf PosInf = NaN"
| "fadd PosInf _ = PosInf"
| "fadd _ PosInf = PosInf"
| "fadd NegInf _ = NegInf"
| "fadd _ NegInf = NegInf"

definition fsub :: "pyfloat \<Rightarrow> pyfloat \<Rightarrow> pyfloat" where
  "fsub a b = fadd a (fneg b)"

text \<open>An infinite product or quotient of the given sign; zero times infinity has no value.\<close>

definition inf_of_sign :: "rat \<Rightarrow> pyfloat" where
  "inf_of_sign s = (if s = 0 then NaN else if 0 < s then PosInf else NegInf)"

fun fsign :: "pyfloat \<Rightarrow> rat" where
  "fsign (Fin a) = sgn a"
| "fsign PosInf = 1"
| "fsign NegInf = - 1"
| "fsign NaN = 0"

fun fmul :: "pyfloat \<Rightarrow> pyfloat \<Rightarrow> pyfloat" where
  "fmul (Fin a) (Fin b) = rnd64 (a * b)"
| "fmul NaN _ = NaN"
| "fmul _ NaN = NaN"
| "fmul a b = inf_of_sign (fsign a * fsign b)"

text \<open>Division by a zero float raises; the infinities divide as in IEEE-754.\<close>

fun fdiv :: "pyfloat \<Rightarrow> pyfloat \<Rightarrow> pyfloat result" where
  "fdiv a (Fin b) =
     (if b = 0 then Inl ZeroDivisionError
      else case a of Fin a' \<Rightarrow> Inr (rnd64 (a' / b))
                   | NaN \<Rightarrow> Inr NaN
                   | _ \<Rightarrow> Inr (inf_of_sign (fsign a * sgn b)))"
| "fdiv _ NaN = Inr NaN"
| "fdiv (Fin _) _ = Inr (Fin 0)"
| "fdiv _ _ = Inr NaN"

section \<open>Numbers: int or float\<close>

datatype pynum = PInt int | PFlt pyfloat

text \<open>The exact value, used by comparisons: Python compares an int with a float exactly.\<close>

fun num_val :: "pynum \<Rightarrow> pyfloat" where
  "num_val (PInt n) = Fin (of_int n)"
| "num_val (PFlt f) = f"

definition num_le :: "pynum \<Rightarrow> pynum \<Rightarrow> bool" where
  "num_le a b = flt_le (num_val a) (num_val b)"

definition num_less :: "pynum \<Rightarrow> pynum \<Rightarrow> bool" where
  "num_less a b = flt_less (num_val a) (num_val b)"

definition num_is_nan :: "pynum \<Rightarrow> bool" where
  "num_is_nan a \<longleftrightarrow> a = PFlt NaN"

lemma num_val_nan [simp]: "num_val a = NaN \<longleftrightarrow> num_is_nan a"
  by (cases a) (auto simp: num_is_nan_def)

text \<open>Converting an int that is too large for a double raises \<open>OverflowError\<close>.\<close>

definition float_of_int :: "int \<Rightarrow> pyfloat result" where
  "float_of_int n = (case rnd64 (of_int n) of Fin r \<Rightarrow> Inr (Fin r) | _ \<Rightarrow> Inl OverflowError)"

lemma float_of_int_Inr: "float_of_int n = Inr f \<longleftrightarrow> rnd64 (of_int n) = f \<and> (\<exists>a. f = Fin a)"
  unfolding float_of_int_def by (cases "rnd64 (of_int n)") auto

fun to_float :: "pynum \<Rightarrow> pyfloat result" where
  "to_float (PInt n) = float_of_int n"
| "to_float (PFlt f) = Inr f"

text \<open>\<open>math.isfinite\<close> converts its argument first, so a huge int raises.\<close>

fun num_isfinite :: "pynum \<Rightarrow> bool result" where
  "num_isfinite (PInt n) = emap (\<lambda>_. True) (float_of_int n)"
| "num_isfinite (PFlt f) = Inr (case f of Fin _ \<Rightarrow> True | _ \<Rightarrow> False)"

definition float_op :: "(pyfloat \<Rightarrow> pyfloat \<Rightarrow> pyfloat result) \<Rightarrow> pynum \<Rightarrow> pynum \<Rightarrow> pynum result" where
  "float_op f a b = ebind (to_float a) (\<lambda>x. ebind (to_float b) (\<lambda>y. emap PFlt (f x y)))"

fun num_add :: "pynum \<Rightarrow> pynum \<Rightarrow> pynum result" where
  "num_add (PInt a) (PInt b) = Inr (PInt (a + b))"
| "num_add a b = float_op (\<lambda>x y. Inr (fadd x y)) a b"

fun num_mul :: "pynum \<Rightarrow> pynum \<Rightarrow> pynum result" where
  "num_mul (PInt a) (PInt b) = Inr (PInt (a * b))"
| "num_mul a b = float_op (\<lambda>x y. Inr (fmul x y)) a b"

text \<open>True division of two ints rounds the exact quotient once.\<close>

fun num_div :: "pynum \<Rightarrow> pynum \<Rightarrow> pynum result" where
  "num_div (PInt a) (PInt b) =
     (if b = 0 then Inl ZeroDivisionError
      else case rnd64 (of_int a / of_int b) of Fin r \<Rightarrow> Inr (PFlt (Fin r)) | _ \<Rightarrow> Inl OverflowError)"
| "num_div a b = float_op fdiv a b"

text \<open>\<open>int(f)\<close> truncates, \<open>math.floor(f)\<close> rounds down; neither has a value for inf or nan.\<close>

fun int_of_float :: "pyfloat \<Rightarrow> int result" where
  "int_of_float (Fin r) = Inr (if 0 \<le> r then \<lfloor>r\<rfloor> else \<lceil>r\<rceil>)"
| "int_of_float NaN = Inl ValueError"
| "int_of_float _ = Inl OverflowError"

fun floor_float :: "pyfloat \<Rightarrow> int result" where
  "floor_float (Fin r) = Inr \<lfloor>r\<rfloor>"
| "floor_float NaN = Inl ValueError"
| "floor_float _ = Inl OverflowError"

text \<open>Truncating a double gives an int that converts back to a double.\<close>

lemma rnd64_truncated:
  assumes "rnd64 x = Fin r" and "int_of_float (Fin r) = Inr n"
  shows "\<exists>a. rnd64 (of_int n) = Fin a"
proof -
  obtain m e where r: "r = of_int m * pow2 e" "\<bar>m\<bar> < 2 ^ 53" "- 1074 \<le> e" "e \<le> 971"
    using rnd64_form [OF assms(1)] by blast
  show ?thesis
  proof (cases "0 \<le> e")
    case True
    then have i: "r = of_int (m * 2 ^ nat e)" using r(1) by (simp add: pow2_of_int)
    then have "n = m * 2 ^ nat e" using assms(2) by (simp split: if_splits del: of_int_mult of_int_power)
    with i rnd64_idem [OF assms(1)] show ?thesis by auto
  next
    case False
    then have "pow2 e \<le> 1" using pow2_le_iff [of e 0] by simp
    then have "\<bar>r\<bar> \<le> of_int \<bar>m\<bar>" using mult_left_mono [of "pow2 e" 1 "\<bar>of_int m\<bar>"]
      by (simp add: r(1) abs_mult less_imp_le)
    then have "\<bar>n\<bar> \<le> \<bar>m\<bar>" using assms(2) by (auto split: if_splits) linarith+
    with r(2) have "\<bar>n\<bar> < 2 ^ 53" by linarith
    then show ?thesis using rnd64_of_int by blast
  qed
qed

text \<open>\<open>max\<close> and \<open>min\<close> keep the first of equal arguments.\<close>

definition num_max :: "pynum \<Rightarrow> pynum \<Rightarrow> pynum" where
  "num_max a b = (if num_less a b then b else a)"

definition num_min :: "pynum \<Rightarrow> pynum \<Rightarrow> pynum" where
  "num_min a b = (if num_less b a then b else a)"

definition num_max_list :: "pynum \<Rightarrow> pynum list \<Rightarrow> pynum" where
  "num_max_list x xs = foldl num_max x xs"

section \<open>The built-in sum\<close>

text \<open>
  \<open>sum\<close> adds ints exactly until it meets a float; from then on it adds floats with a running
  compensation (Neumaier's variant, as CPython does since 3.12, the least version the package
  accepts), and applies a finite compensation once at the end.
\<close>

definition apply_compensation :: "pyfloat \<Rightarrow> pyfloat \<Rightarrow> pyfloat" where
  "apply_compensation f c = (case c of Fin r \<Rightarrow> if r = 0 then f else fadd f c | _ \<Rightarrow> f)"

fun sum_float :: "pyfloat \<Rightarrow> pyfloat \<Rightarrow> pynum list \<Rightarrow> pynum result" where
  "sum_float f c [] = Inr (PFlt (apply_compensation f c))"
| "sum_float f c (PFlt x # xs) =
     (let t = fadd f x
      in sum_float t
           (if flt_le (fabs x) (fabs f) then fadd c (fadd (fsub f t) x)
            else fadd c (fadd (fsub x t) f)) xs)"
| "sum_float f c (PInt n # xs) =
     ebind (float_of_int n) (\<lambda>x. sum_float (fadd f x) c xs)"

fun sum_int :: "int \<Rightarrow> pynum list \<Rightarrow> pynum result" where
  "sum_int a [] = Inr (PInt a)"
| "sum_int a (PInt n # xs) = sum_int (a + n) xs"
| "sum_int a (PFlt x # xs) =
     ebind (float_of_int a) (\<lambda>f. sum_float (fadd f x) (Fin 0) xs)"

definition py_sum :: "pynum list \<Rightarrow> pynum result" where
  "py_sum xs = sum_int 0 xs"

lemma sum_int_ints: "sum_int a (map PInt ns) = Inr (PInt (a + sum_list ns))"
  by (induction ns arbitrary: a) auto

lemma py_sum_ints: "py_sum (map PInt ns) = Inr (PInt (sum_list ns))"
  by (simp add: py_sum_def sum_int_ints)

lemma float_of_int_small: "\<bar>n\<bar> < 2 ^ 53 \<Longrightarrow> float_of_int n = Inr (Fin (of_int n))"
  by (simp add: float_of_int_def rnd64_of_int)

text \<open>
  On a common binary grid (multiples of \<open>2 ^ e\<close> whose absolute sum stays below
  \<open>2 ^ 53\<close> steps) no addition rounds, the compensation stays zero and the sum is exact.
\<close>

definition on_grid :: "int \<Rightarrow> int \<Rightarrow> pyfloat" where
  "on_grid e k = Fin (of_int k * pow2 e)"

definition grid_exp :: "int \<Rightarrow> bool" where
  "grid_exp e \<longleftrightarrow> - 1074 \<le> e \<and> e \<le> 971"

lemma rnd64_grid:
  "grid_exp e \<Longrightarrow> \<bar>k\<bar> < 2 ^ 53 \<Longrightarrow> rnd64 (of_int k * pow2 e) = on_grid e k"
  unfolding on_grid_def grid_exp_def by (rule rnd64_exact) auto

lemma fadd_grid:
  "grid_exp e \<Longrightarrow> \<bar>j + k\<bar> < 2 ^ 53 \<Longrightarrow> fadd (on_grid e j) (on_grid e k) = on_grid e (j + k)"
  using rnd64_grid [of e "j + k"] by (simp add: on_grid_def distrib_right)

lemma fsub_grid:
  "grid_exp e \<Longrightarrow> \<bar>j - k\<bar> < 2 ^ 53 \<Longrightarrow> fsub (on_grid e j) (on_grid e k) = on_grid e (j - k)"
  using rnd64_grid [of e "j - k"] by (simp add: on_grid_def fsub_def left_diff_distrib)

lemma on_grid_0 [simp]: "on_grid e 0 = Fin 0"
  by (simp add: on_grid_def)

lemma sum_float_grid:
  assumes e: "grid_exp e" and "\<bar>k\<bar> + sum_list (map abs ks) < 2 ^ 53"
  shows "sum_float (on_grid e k) (Fin 0) (map (PFlt \<circ> on_grid e) ks)
           = Inr (PFlt (on_grid e (k + sum_list ks)))"
  using assms(2)
proof (induction ks arbitrary: k)
  case Nil
  then show ?case by (simp add: apply_compensation_def)
next
  case (Cons x ks)
  have nn: "0 \<le> sum_list (map abs ks)" by (intro sum_list_nonneg) auto
  have small: "\<bar>k + x\<bar> + sum_list (map abs ks) < 2 ^ 53" "\<bar>k + x\<bar> < 2 ^ 53" "\<bar>x\<bar> < 2 ^ 53" "\<bar>k\<bar> < 2 ^ 53"
    using Cons.prems nn by auto
  have t: "fadd (on_grid e k) (on_grid e x) = on_grid e (k + x)"
    by (rule fadd_grid [OF e small(2)])
  have d: "fadd (fsub (on_grid e k) (on_grid e (k + x))) (on_grid e x) = Fin 0"
    "fadd (fsub (on_grid e x) (on_grid e (k + x))) (on_grid e k) = Fin 0"
    using small by (simp_all add: fsub_grid e fadd_grid)
  show ?case
    using Cons.IH [OF small(1)] by (simp add: t d Let_def algebra_simps)
qed

lemma py_sum_grid:
  assumes e: "grid_exp e" and ks: "ks \<noteq> []" "sum_list (map abs ks) < 2 ^ 53"
  shows "py_sum (map (PFlt \<circ> on_grid e) ks) = Inr (PFlt (on_grid e (sum_list ks)))"
proof -
  obtain k ks' where k: "ks = k # ks'" using ks(1) by (cases ks) auto
  have "0 \<le> sum_list (map abs ks')" by (intro sum_list_nonneg) auto
  then have "\<bar>k\<bar> < 2 ^ 53" using ks(2) k by simp
  then have "fadd (Fin 0) (on_grid e k) = on_grid e k"
    using fadd_grid [OF e, of 0 k] by simp
  with sum_float_grid [OF e, of k ks'] ks(2) k float_of_int_small [of 0] show ?thesis
    by (simp add: py_sum_def)
qed

text \<open>A list of floats always has a sum: only an int can fail to convert.\<close>

lemma sum_float_total: "\<exists>v. sum_float f c (map PFlt xs) = Inr (PFlt v)"
  by (induction xs arbitrary: f c) (auto simp: Let_def)

lemma py_sum_floats: "xs \<noteq> [] \<Longrightarrow> \<exists>v. py_sum (map PFlt xs) = Inr (PFlt v)"
  using float_of_int_small [of 0] by (cases xs) (auto simp: py_sum_def sum_float_total)

section \<open>Extrema\<close>

lemma num_max_in: "num_max a b = a \<or> num_max a b = b"
  by (simp add: num_max_def)

lemma num_max_list_in: "num_max_list x xs \<in> insert x (set xs)"
proof (induction xs arbitrary: x)
  case (Cons y ys)
  have "num_max_list x (y # ys) = num_max_list (num_max x y) ys"
    by (simp add: num_max_list_def)
  with Cons.IH [of "num_max x y"] num_max_in [of x y] show ?case by auto
qed (simp add: num_max_list_def)

lemma num_le_refl: "num_le a a \<longleftrightarrow> \<not> num_is_nan a"
  by (simp add: num_le_def)

lemma num_le_trans: "num_le a b \<Longrightarrow> num_le b c \<Longrightarrow> num_le a c"
  unfolding num_le_def by (rule flt_le_trans)

lemma num_not_less: "\<not> num_is_nan a \<Longrightarrow> \<not> num_is_nan b \<Longrightarrow> \<not> num_less a b \<longleftrightarrow> num_le b a"
  by (simp add: num_less_def num_le_def flt_not_less)

lemma num_less_le: "num_less a b \<Longrightarrow> num_le a b"
  by (simp add: num_less_def num_le_def flt_less_def)

lemma num_max_upper:
  assumes "\<not> num_is_nan a" "\<not> num_is_nan b"
  shows "num_le a (num_max a b)" "num_le b (num_max a b)"
  using assms num_not_less [of a b] by (auto simp: num_max_def num_le_refl num_less_le)

lemma num_max_list_upper:
  assumes "\<forall>y \<in> insert x (set xs). \<not> num_is_nan y" and "y \<in> insert x (set xs)"
  shows "num_le y (num_max_list x xs)"
  using assms
proof (induction xs arbitrary: x y)
  case Nil
  then show ?case by (simp add: num_max_list_def num_le_refl)
next
  case (Cons z zs)
  have step: "num_max_list x (z # zs) = num_max_list (num_max x z) zs"
    by (simp add: num_max_list_def)
  have real: "\<forall>y \<in> insert (num_max x z) (set zs). \<not> num_is_nan y"
    using Cons.prems(1) num_max_in [of x z] by auto
  have base: "num_le (num_max x z) (num_max_list (num_max x z) zs)"
    using Cons.IH [OF real] by simp
  consider "y = x" | "y = z" | "y \<in> set zs" using Cons.prems(2) by auto
  then show ?case
    unfolding step
  proof cases
    case 3
    then show "num_le y (num_max_list (num_max x z) zs)" using Cons.IH [OF real] by simp
  qed (use num_max_upper [of x z] Cons.prems(1) base in \<open>auto intro: num_le_trans\<close>)
qed

section \<open>Signs and clamps\<close>

definition num_nonneg :: "pynum \<Rightarrow> bool" where
  "num_nonneg a \<longleftrightarrow> num_le (PInt 0) a"

lemma flt_nonneg_le: "flt_nonneg f \<longleftrightarrow> flt_le (Fin 0) f"
  by (cases f) auto

lemma num_div_ints_nonneg:
  assumes "num_div (PInt a) (PInt b) = Inr v" "0 \<le> a" "0 \<le> b"
  shows "num_nonneg v"
  using assms rnd64_nonneg [of "of_int a / of_int b"]
  by (auto simp: num_nonneg_def num_le_def split: if_splits pyfloat.splits)

lemma float_of_int_nonneg: "float_of_int n = Inr f \<Longrightarrow> 0 \<le> n \<Longrightarrow> flt_nonneg f"
  using rnd64_nonneg [of "of_int n"] unfolding float_of_int_def
  by (cases "rnd64 (of_int n)") auto

lemma fdiv_nonneg: "fdiv a b = Inr v \<Longrightarrow> flt_nonneg a \<Longrightarrow> flt_less (Fin 0) b \<Longrightarrow> v \<noteq> NaN \<Longrightarrow> flt_nonneg v"
  by (cases a; cases b) (auto simp: inf_of_sign_def intro!: rnd_intros split: if_splits)

definition flt_of :: "rat \<Rightarrow> pynum" where
  "flt_of r = PFlt (rnd64 r)"

text \<open>\<open>min(hi, max(lo, x))\<close> lies between the bounds, whatever \<open>x\<close> is.\<close>

lemma clamp_range:
  assumes "num_le lo hi"
  shows "num_le lo (num_min hi (num_max lo x)) \<and> num_le (num_min hi (num_max lo x)) hi"
proof -
  have nn: "\<not> num_is_nan lo" "\<not> num_is_nan hi"
    using assms by (cases "num_val lo"; auto simp: num_le_def num_is_nan_def)+
  let ?m = "num_max lo x"
  have m: "\<not> num_is_nan ?m"
    using nn by (auto simp: num_max_def num_less_def num_is_nan_def)
  have l: "num_le lo ?m"
    using nn num_less_le [of lo x] by (auto simp: num_max_def num_le_refl)
  show ?thesis
  proof (cases "num_less ?m hi")
    case True
    then show ?thesis using l num_less_le by (simp add: num_min_def)
  next
    case False
    then show ?thesis using assms nn by (simp add: num_min_def num_le_refl)
  qed
qed

section \<open>Magnitudes that stay finite\<close>

lemma ilog2_mono: "0 < x \<Longrightarrow> x \<le> y \<Longrightarrow> ilog2 x \<le> ilog2 y"
proof (rule ccontr)
  assume x: "0 < x" "x \<le> y" and "\<not> ilog2 x \<le> ilog2 y"
  then have "pow2 (ilog2 y + 1) \<le> pow2 (ilog2 x)" by simp
  also have "\<dots> \<le> x" using ilog2_bounds [of x] x by simp
  also have "\<dots> \<le> y" by (rule x)
  finally show False using ilog2_bounds [of y] x by simp
qed

lemma half_even_abs_mono: "\<bar>x\<bar> \<le> \<bar>y\<bar> \<Longrightarrow> \<bar>half_even x\<bar> \<le> \<bar>half_even y\<bar>"
proof -
  have neg: "half_even (- z) = - half_even z" for z
  proof (cases "z = of_int \<lfloor>z\<rfloor>")
    case True
    then have "half_even (- z) = half_even (of_int (- \<lfloor>z\<rfloor>))" by simp
    with True show ?thesis by (metis half_even_of_int)
  next
    case False
    then have fl: "\<lfloor>- z\<rfloor> = - \<lfloor>z\<rfloor> - 1" by linarith
    show ?thesis by (auto simp: half_even_def Let_def fl)
  qed
  have abs: "\<bar>half_even z\<bar> = half_even \<bar>z\<bar>" for z
    using half_even_nonneg [of z] half_even_nonpos [of z] neg [of z] by (auto simp: abs_if)
  assume "\<bar>x\<bar> \<le> \<bar>y\<bar>"
  then show ?thesis unfolding abs by (rule half_even_mono)
qed

lemma rnd64_finite_mono:
  assumes "rnd64 y = Fin b" "\<bar>x\<bar> \<le> \<bar>y\<bar>"
  shows "\<exists>a. rnd64 x = Fin a"
proof (cases "x = 0")
  case False
  with assms(2) have y: "y \<noteq> 0" by auto
  define d where "d = max (ilog2 \<bar>x\<bar> - 52) (- 1074)"
  define e where "e = max (ilog2 \<bar>y\<bar> - 52) (- 1074)"
  have de: "d \<le> e"
    using ilog2_mono [of "\<bar>x\<bar>" "\<bar>y\<bar>"] assms(2) False by (auto simp: d_def e_def)
  have fin: "\<not> (971 < e \<or> (e = 971 \<and> 9007199254740992 \<le> \<bar>half_even (y / pow2 e)\<bar>))"
    using assms(1) y by (auto simp: rnd64_def e_def Let_def split: if_splits)
  have "\<bar>half_even (x / pow2 d)\<bar> \<le> \<bar>half_even (y / pow2 e)\<bar>" if "d = e"
    unfolding that by (rule half_even_abs_mono) (simp add: assms(2) divide_right_mono)
  with fin de have "\<not> (971 < d \<or> (d = 971 \<and> 9007199254740992 \<le> \<bar>half_even (x / pow2 d)\<bar>))" by auto
  then show ?thesis using False by (auto simp: rnd64_def d_def Let_def)
qed simp

lemma div_of_convertible:
  assumes "float_of_int a = Inr f" "0 < b"
  shows "\<exists>v. num_div (PInt a) (PInt b) = Inr v"
proof -
  from assms(1) obtain r where "rnd64 (of_int a) = Fin r" by (auto simp: float_of_int_Inr)
  moreover have "\<bar>of_int a / of_int b :: rat\<bar> \<le> \<bar>of_int a\<bar>"
  proof -
    have "(1 :: rat) \<le> of_int b" using assms(2) by simp
    then have "\<bar>of_int a\<bar> * (1 :: rat) \<le> \<bar>of_int a\<bar> * of_int b" by (intro mult_left_mono) auto
    with assms(2) show ?thesis by (simp add: abs_divide divide_le_eq)
  qed
  ultimately obtain q where "rnd64 (of_int a / of_int b) = Fin q" using rnd64_finite_mono by blast
  with assms(2) show ?thesis by simp
qed

section \<open>Rounding is monotone\<close>

definition significand :: "rat \<Rightarrow> int \<Rightarrow> int" where
  "significand x e = half_even (x / pow2 e)"

definition exponent_of :: "rat \<Rightarrow> int" where
  "exponent_of x = max (ilog2 \<bar>x\<bar> - 52) (- 1074)"

definition overflows :: "rat \<Rightarrow> bool" where
  "overflows x \<longleftrightarrow> (let e = exponent_of x in
     971 < e \<or> (e = 971 \<and> 9007199254740992 \<le> \<bar>significand x e\<bar>))"

lemma rnd64_cases:
  "x \<noteq> 0 \<Longrightarrow> rnd64 x =
     (if overflows x then (if 0 < x then PosInf else NegInf)
      else Fin (of_int (significand x (exponent_of x)) * pow2 (exponent_of x)))"
  unfolding rnd64_def Let_def
  by (fold exponent_of_def significand_def) (simp add: overflows_def Let_def)

lemma significand_bounds:
  assumes "0 < x"
  shows "significand x (exponent_of x) \<le> 2 ^ 53"
    and "- 1074 < exponent_of x \<Longrightarrow> 2 ^ 52 \<le> significand x (exponent_of x)"
proof -
  let ?e = "exponent_of x"
  have split: "pow2 (ilog2 x - 52) * pow2 53 = pow2 (ilog2 x + 1)" "pow2 (ilog2 x - 52) * pow2 52 = pow2 (ilog2 x)"
    by (simp_all add: add.commute flip: pow2_add)
  have "x < pow2 (ilog2 x - 52) * pow2 53" using ilog2_bounds(2) [OF assms] by (simp only: split)
  also have "\<dots> \<le> pow2 ?e * pow2 53"
    using assms by (intro mult_right_mono) (simp_all add: exponent_of_def less_imp_le)
  finally have "x / pow2 ?e \<le> of_int (2 ^ 53)" by (simp add: divide_le_eq pow2_def mult.commute)
  then show "significand x ?e \<le> 2 ^ 53"
    unfolding significand_def using half_even_mono [of "x / pow2 ?e" "of_int (2 ^ 53)"]
    by (simp only: half_even_of_int)
  assume "- 1074 < ?e"
  then have "?e = ilog2 x - 52" using assms by (simp add: exponent_of_def)
  then have "pow2 ?e * pow2 52 \<le> x" using ilog2_bounds(1) [OF assms] split(2) by simp
  then have "of_int (2 ^ 52) \<le> x / pow2 ?e" by (simp add: le_divide_eq pow2_def mult.commute)
  then show "2 ^ 52 \<le> significand x ?e"
    unfolding significand_def using half_even_mono [of "of_int (2 ^ 52)" "x / pow2 ?e"]
    by (simp only: half_even_of_int)
qed

lemma rounded_mono_pos:
  assumes "0 < x" "x \<le> y"
  shows "of_int (significand x (exponent_of x)) * pow2 (exponent_of x)
       \<le> of_int (significand y (exponent_of y)) * pow2 (exponent_of y)"
proof (cases "exponent_of x = exponent_of y")
  case True
  have "significand x (exponent_of x) \<le> significand y (exponent_of x)"
    unfolding significand_def using assms by (intro half_even_mono divide_right_mono) (simp_all add: less_imp_le)
  with True show ?thesis by (simp add: mult_right_mono less_imp_le)
next
  case False
  have "exponent_of x \<le> exponent_of y"
    using ilog2_mono [OF assms] assms by (simp add: exponent_of_def max_def)
  with False have less: "exponent_of x + 1 \<le> exponent_of y" by simp
  then have "- 1074 < exponent_of y" by (simp add: exponent_of_def)
  have "of_int (significand x (exponent_of x)) * pow2 (exponent_of x) \<le> of_int (2 ^ 53) * pow2 (exponent_of x)"
    using significand_bounds(1) [OF assms(1)] by (intro mult_right_mono) (simp_all add: less_imp_le flip: of_int_le_iff)
  also have "\<dots> = of_int (2 ^ 52) * pow2 (exponent_of x + 1)" by (simp add: pow2_add pow2_def [of 1])
  also have "\<dots> \<le> of_int (2 ^ 52) * pow2 (exponent_of y)" using less by simp
  also have "\<dots> \<le> of_int (significand y (exponent_of y)) * pow2 (exponent_of y)"
    using significand_bounds(2) [of y, OF _ \<open>- 1074 < exponent_of y\<close>] assms
    by (intro mult_right_mono) (simp_all add: less_imp_le flip: of_int_le_iff)
  finally show ?thesis .
qed

lemma overflows_mono: "0 < x \<Longrightarrow> x \<le> y \<Longrightarrow> overflows x \<Longrightarrow> overflows y"
  using rnd64_finite_mono [of y _ x] rnd64_cases [of x] rnd64_cases [of y] by (auto split: if_splits)

lemma rnd64_mono_nonneg: "0 \<le> x \<Longrightarrow> x \<le> y \<Longrightarrow> flt_le (rnd64 x) (rnd64 y)"
proof (cases "x = 0")
  case True
  assume "0 \<le> x" "x \<le> y"
  with True show ?thesis using rnd64_nonneg [of y] by (cases "rnd64 y") auto
next
  case False
  assume "0 \<le> x" "x \<le> y"
  with False have xy: "0 < x" "x \<le> y" "x \<noteq> 0" "y \<noteq> 0" by auto
  show ?thesis
    using overflows_mono [OF xy(1,2)] rounded_mono_pos [OF xy(1,2)] xy
    by (auto simp: rnd64_cases)
qed

end
