(* ===== verification/Py_Text.thy ===== *)
theory Py_Text
  imports Py_Float
begin

text \<open>
  Python text as the program uses it: white space, \<open>strip\<close>, \<open>split\<close>,
  \<open>splitlines\<close>, \<open>partition\<close>, \<open>join\<close>, \<open>int(text)\<close> and
  \<open>float(text)\<close>, with the round trips between printing and parsing. A character is a
  code point below 256.
\<close>

abbreviation code :: "char \<Rightarrow> nat" where
  "code c \<equiv> of_char c"

section \<open>Character classes\<close>

definition is_space :: "char \<Rightarrow> bool" where
  "is_space c \<longleftrightarrow>
     (let n = code c in (9 \<le> n \<and> n \<le> 13) \<or> (28 \<le> n \<and> n \<le> 32) \<or> n = 133 \<or> n = 160)"

definition is_linebreak :: "char \<Rightarrow> bool" where
  "is_linebreak c \<longleftrightarrow>
     (let n = code c in (10 \<le> n \<and> n \<le> 13) \<or> (28 \<le> n \<and> n \<le> 30) \<or> n = 133)"

definition is_digit :: "char \<Rightarrow> bool" where
  "is_digit c \<longleftrightarrow> 48 \<le> code c \<and> code c \<le> 57"

definition is_lower :: "char \<Rightarrow> bool" where
  "is_lower c \<longleftrightarrow> 97 \<le> code c \<and> code c \<le> 122"

text \<open>Letters, digits, other numeric characters and the underscore: \<open>\w\<close> of \<open>re\<close>.\<close>

definition is_word :: "char \<Rightarrow> bool" where
  "is_word c \<longleftrightarrow>
     (let n = code c in
       (48 \<le> n \<and> n \<le> 57) \<or> (65 \<le> n \<and> n \<le> 90) \<or> n = 95 \<or> (97 \<le> n \<and> n \<le> 122)
       \<or> n = 170 \<or> n = 178 \<or> n = 179 \<or> n = 181 \<or> n = 185 \<or> n = 186 \<or> (188 \<le> n \<and> n \<le> 190)
       \<or> (192 \<le> n \<and> n \<le> 214) \<or> (216 \<le> n \<and> n \<le> 246) \<or> 248 \<le> n)"

text \<open>
  Lower-casing (and case-folding) of ASCII letters. The program only compares the result with
  ASCII words, for which folding further characters makes no difference.
\<close>

definition lower_char :: "char \<Rightarrow> char" where
  "lower_char c = (if 65 \<le> code c \<and> code c \<le> 90 then char_of (code c + 32) else c)"

definition lower :: "string \<Rightarrow> string" where
  "lower s = map lower_char s"

section \<open>Stripping, splitting, joining\<close>

definition lstrip :: "string \<Rightarrow> string" where
  "lstrip s = dropWhile is_space s"

definition strip :: "string \<Rightarrow> string" where
  "strip s = rev (lstrip (rev (lstrip s)))"

text \<open>\<open>s.split()\<close>: the maximal runs of non-space characters; \<open>cur\<close> is reversed.\<close>

fun split_acc :: "string \<Rightarrow> string \<Rightarrow> string list" where
  "split_acc cur [] = (if cur = [] then [] else [rev cur])"
| "split_acc cur (c # cs) =
     (if is_space c then (if cur = [] then split_acc [] cs else rev cur # split_acc [] cs)
      else split_acc (c # cur) cs)"

definition split :: "string \<Rightarrow> string list" where
  "split s = split_acc [] s"

text \<open>\<open>s.splitlines()\<close>: a carriage return and line feed together end one line.\<close>

fun splitlines_acc :: "string \<Rightarrow> string \<Rightarrow> string list" where
  "splitlines_acc cur [] = (if cur = [] then [] else [rev cur])"
| "splitlines_acc cur [c] = (if is_linebreak c then [rev cur] else [rev (c # cur)])"
| "splitlines_acc cur (c # d # cs) =
     (if c = CHR 0x0D \<and> d = CHR 0x0A then rev cur # splitlines_acc [] cs
      else if is_linebreak c then rev cur # splitlines_acc [] (d # cs)
      else splitlines_acc (c # cur) (d # cs))"

definition splitlines :: "string \<Rightarrow> string list" where
  "splitlines s = splitlines_acc [] s"

text \<open>\<open>s.partition(sep)\<close> for a one-character separator: head, whether it was found, tail.\<close>

definition partition_at :: "char \<Rightarrow> string \<Rightarrow> string \<times> bool \<times> string" where
  "partition_at sep s =
     (let (h, t) = (takeWhile (\<lambda>c. c \<noteq> sep) s, dropWhile (\<lambda>c. c \<noteq> sep) s)
      in case t of [] \<Rightarrow> (s, False, []) | _ # rest \<Rightarrow> (h, True, rest))"

fun join :: "string \<Rightarrow> string list \<Rightarrow> string" where
  "join sep [] = []"
| "join sep [s] = s"
| "join sep (s # t # ts) = s @ sep @ join sep (t # ts)"

definition is_prefix :: "string \<Rightarrow> string \<Rightarrow> bool" where
  "is_prefix p s \<longleftrightarrow> take (length p) s = p"

definition is_suffix :: "string \<Rightarrow> string \<Rightarrow> bool" where
  "is_suffix p s \<longleftrightarrow> is_prefix (rev p) (rev s)"

text \<open>\<open>token in text\<close>\<close>

fun contains :: "string \<Rightarrow> string \<Rightarrow> bool" where
  "contains p [] = (p = [])"
| "contains p (c # cs) = (is_prefix p (c # cs) \<or> contains p cs)"

definition remove_suffix :: "string \<Rightarrow> string \<Rightarrow> string" where
  "remove_suffix p s = (if p \<noteq> [] \<and> is_suffix p s then take (length s - length p) s else s)"

section \<open>Numbers in text\<close>

text \<open>Underscores may stand between two digits only.\<close>

fun underscores_ok :: "char option \<Rightarrow> string \<Rightarrow> bool" where
  "underscores_ok prev [] = (prev \<noteq> Some (CHR ''_''))"
| "underscores_ok prev (c # cs) =
     ((if c = CHR ''_'' then (case prev of Some d \<Rightarrow> is_digit d | None \<Rightarrow> False)
       else prev = Some (CHR ''_'') \<longrightarrow> is_digit c)
      \<and> underscores_ok (Some c) cs)"

definition without_underscores :: "string \<Rightarrow> string" where
  "without_underscores s = filter (\<lambda>c. c \<noteq> CHR ''_'') s"

fun split_sign :: "string \<Rightarrow> int \<times> string" where
  "split_sign [] = (1, [])"
| "split_sign (c # cs) =
     (if c = CHR ''-'' then (- 1, cs) else if c = CHR ''+'' then (1, cs) else (1, c # cs))"

definition digit_val :: "char \<Rightarrow> int" where
  "digit_val c = int (code c) - 48"

definition digits_val :: "string \<Rightarrow> int" where
  "digits_val ds = foldl (\<lambda>a d. 10 * a + digit_val d) 0 ds"

text \<open>
  \<open>int(text)\<close>. The interpreter refuses more than 4300 digits. Every call in the program
  passes text without surrounding white space (a result of \<open>split\<close> or \<open>strip\<close>).
\<close>

definition max_str_digits :: nat where
  "max_str_digits = 4300"

definition int_of_text :: "string \<Rightarrow> int result" where
  "int_of_text s =
     (case split_sign (without_underscores s) of (sg, ds) \<Rightarrow>
        if \<not> underscores_ok None s \<or> ds = [] \<or> \<not> list_all is_digit ds
           \<or> max_str_digits < length ds
        then Inl ValueError else Inr (sg * digits_val ds))"

definition pow10 :: "int \<Rightarrow> rat" where
  "pow10 e = (if 0 \<le> e then 10 ^ nat e else 1 / 10 ^ nat (- e))"

text \<open>Digits, an optional point, an optional exponent.\<close>

definition decimal_of_text :: "string \<Rightarrow> rat option" where
  "decimal_of_text s =
     (let ip = takeWhile is_digit s; r1 = dropWhile is_digit s;
          (fp, r2) = (case r1 of [] \<Rightarrow> ([], []) | c # cs \<Rightarrow>
             if c = CHR ''.'' then (takeWhile is_digit cs, dropWhile is_digit cs) else ([], c # cs));
          m = of_int (digits_val (ip @ fp))
      in if ip @ fp = [] then None
         else case r2 of
           [] \<Rightarrow> Some (m * pow10 (- int (length fp)))
         | c # cs \<Rightarrow>
             (case split_sign cs of (sg, ds) \<Rightarrow>
                if (c = CHR ''e'' \<or> c = CHR ''E'') \<and> ds \<noteq> [] \<and> list_all is_digit ds
                then Some (m * pow10 (sg * digits_val ds - int (length fp))) else None))"

definition float_of_text :: "string \<Rightarrow> pyfloat result" where
  "float_of_text s =
     (case split_sign (without_underscores s) of (sg, t) \<Rightarrow>
        if \<not> underscores_ok None s then Inl ValueError
        else if lower t = ''inf'' \<or> lower t = ''infinity''
        then Inr (if sg = 1 then PosInf else NegInf)
        else if lower t = ''nan'' then Inr NaN
        else case decimal_of_text t of
          None \<Rightarrow> Inl ValueError
        | Some r \<Rightarrow> Inr (rnd64 (of_int sg * r)))"

text \<open>\<open>str(n)\<close>\<close>

fun show_nat :: "nat \<Rightarrow> string" where
  "show_nat n =
     (if n < 10 then [char_of (48 + n)] else show_nat (n div 10) @ [char_of (48 + n mod 10)])"

declare show_nat.simps [simp del]

definition show_int :: "int \<Rightarrow> string" where
  "show_int n = (if n < 0 then ''-'' @ show_nat (nat (- n)) else show_nat (nat n))"

section \<open>Printing and parsing integers\<close>

lemma digit_char:
  assumes "d < 10"
  shows "is_digit (char_of (48 + d))" "digit_val (char_of (48 + d)) = int d"
    "\<not> is_space (char_of (48 + d))"
proof -
  have "code (char_of (48 + d) :: char) = 48 + d" using assms by simp
  then show "is_digit (char_of (48 + d))" "digit_val (char_of (48 + d)) = int d"
    "\<not> is_space (char_of (48 + d))"
    using assms by (simp_all add: is_digit_def digit_val_def is_space_def)
qed

lemma digits_val_snoc: "digits_val (ds @ [d]) = 10 * digits_val ds + digit_val d"
  by (simp add: digits_val_def)

lemma show_nat_digits: "list_all is_digit (show_nat n) \<and> digits_val (show_nat n) = int n"
proof (induction n rule: show_nat.induct)
  case (1 n)
  show ?case
  proof (cases "n < 10")
    case True
    then show ?thesis
      using digit_char [of n] by (simp add: show_nat.simps [of n] digits_val_def)
  next
    case False
    with 1 digit_char [of "n mod 10"] show ?thesis
      by (simp add: show_nat.simps [of n] digits_val_snoc flip: of_nat_add of_nat_mult)
        (metis of_nat_add of_nat_mult of_nat_numeral mult_div_mod_eq)
  qed
qed

lemma show_nat_nonempty [simp]: "show_nat n \<noteq> []"
  by (subst show_nat.simps) simp

lemma max_str_digits_pos: "0 < max_str_digits"
  by (simp add: max_str_digits_def)

lemma show_nat_length: "n < 10 ^ Suc k \<Longrightarrow> length (show_nat n) \<le> Suc k"
proof (induction k arbitrary: n)
  case 0
  then show ?case by (simp add: show_nat.simps [of n])
next
  case (Suc k)
  show ?case
  proof (cases "n < 10")
    case False
    with Suc.prems have "n div 10 < 10 ^ Suc k" by auto
    with Suc.IH False show ?thesis by (simp add: show_nat.simps [of n])
  qed (simp add: show_nat.simps [of n])
qed

lemma not_digit_special: "\<not> is_digit (CHR ''_'')" "\<not> is_digit (CHR ''-'')" "\<not> is_digit (CHR ''+'')"
  by (simp_all add: is_digit_def)

lemma digits_no_underscore:
  assumes "list_all is_digit ds"
  shows "without_underscores ds = ds" "underscores_ok p ds \<longleftrightarrow> ds \<noteq> [] \<or> p \<noteq> Some (CHR ''_'')"
proof -
  show "without_underscores ds = ds"
    using assms not_digit_special(1)
    by (induction ds) (auto simp: without_underscores_def)
  show "underscores_ok p ds \<longleftrightarrow> ds \<noteq> [] \<or> p \<noteq> Some (CHR ''_'')"
    using assms
  proof (induction ds arbitrary: p)
    case (Cons d ds)
    then have "d \<noteq> CHR ''_''" using not_digit_special(1) by auto
    with Cons show ?case by auto
  qed simp
qed

lemma split_sign_digits: "list_all is_digit ds \<Longrightarrow> split_sign ds = (1, ds)"
  using not_digit_special by (cases ds) auto

lemma show_nat_hd: "\<exists>d ds. show_nat n = d # ds \<and> is_digit d"
  using show_nat_digits [of n] show_nat_nonempty [of n] by (cases "show_nat n") auto

lemma show_nat_max_length: "n < 10 ^ max_str_digits \<Longrightarrow> length (show_nat n) \<le> max_str_digits"
  using show_nat_length [of n "max_str_digits - 1"] max_str_digits_pos by simp

lemma int_of_text_show_nat:
  assumes "n < 10 ^ max_str_digits"
  shows "int_of_text (show_nat n) = Inr (int n)"
  using show_nat_digits [of n] show_nat_max_length [OF assms]
  by (auto simp: int_of_text_def digits_no_underscore split_sign_digits not_less)

lemma int_of_text_show_int:
  assumes "nat \<bar>n\<bar> < 10 ^ max_str_digits"
  shows "int_of_text (show_int n) = Inr n"
proof (cases "n < 0")
  case False
  with assms show ?thesis
    using int_of_text_show_nat [of "nat n"] by (simp add: show_int_def)
next
  case True
  let ?ds = "show_nat (nat (- n))"
  have d: "list_all is_digit ?ds" "digits_val ?ds = - n"
    using show_nat_digits [of "nat (- n)"] True by auto
  have len: "length ?ds \<le> max_str_digits"
    using show_nat_max_length assms True by simp
  obtain c cs where cs: "?ds = c # cs" "is_digit c" using show_nat_hd by blast
  have "underscores_ok None (CHR ''-'' # ?ds)"
    using d(1) by (simp add: digits_no_underscore)
  moreover have "without_underscores (CHR ''-'' # ?ds) = CHR ''-'' # ?ds"
    using digits_no_underscore(1) [OF d(1)] by (simp add: without_underscores_def)
  ultimately show ?thesis
    using d len True by (simp add: int_of_text_def show_int_def not_less)
qed

text \<open>An accepted integer never has more digits than the interpreter allows.\<close>

lemma digits_val_bounds:
  "list_all is_digit ds \<Longrightarrow> 0 \<le> digits_val ds \<and> digits_val ds < 10 ^ length ds"
proof (induction ds rule: rev_induct)
  case (snoc d ds)
  then have "0 \<le> digit_val d" "digit_val d < 10" by (auto simp: digit_val_def is_digit_def)
  with snoc show ?case by (simp add: digits_val_snoc)
qed (simp add: digits_val_def)

lemma int_of_text_bound:
  assumes "int_of_text s = Inr n"
  shows "\<bar>n\<bar> < 10 ^ max_str_digits"
proof -
  obtain sg ds where sd: "split_sign (without_underscores s) = (sg, ds)"
    by (cases "split_sign (without_underscores s)")
  have sg: "\<bar>sg\<bar> = 1"
    using sd by (cases "without_underscores s") (auto split: if_splits)
  have ds: "list_all is_digit ds" "length ds \<le> max_str_digits" "n = sg * digits_val ds"
    using assms sd by (auto simp: int_of_text_def split: if_splits)
  have "\<bar>n\<bar> = digits_val ds"
    using digits_val_bounds [OF ds(1)] ds(3) sg by (simp add: abs_mult)
  also have "\<dots> < 10 ^ length ds" using digits_val_bounds [OF ds(1)] by simp
  also have "\<dots> \<le> 10 ^ max_str_digits" using ds(2) by (intro power_increasing) auto
  finally show ?thesis .
qed

lemma int_of_text_error: "int_of_text s = Inl e \<Longrightarrow> e = ValueError"
  by (auto simp: int_of_text_def split: prod.splits if_splits)

lemma float_of_text_error: "float_of_text s = Inl e \<Longrightarrow> e = ValueError"
  by (auto simp: float_of_text_def split: prod.splits if_splits option.splits)

section \<open>Splitting and joining\<close>

definition plain_word :: "string \<Rightarrow> bool" where
  "plain_word w \<longleftrightarrow> w \<noteq> [] \<and> list_all (\<lambda>c. \<not> is_space c) w"

lemma split_acc_words: "list_all (\<lambda>c. \<not> is_space c) cur \<Longrightarrow> list_all plain_word (split_acc cur s)"
proof (induction cur s rule: split_acc.induct)
  case (1 cur)
  then show ?case by (simp add: plain_word_def)
next
  case (2 cur c cs)
  then show ?case by (cases "is_space c"; cases "cur = []") (simp_all add: plain_word_def)
qed

lemma split_words: "list_all plain_word (split s)"
  by (simp add: split_def split_acc_words)

lemma split_acc_run:
  "list_all (\<lambda>c. \<not> is_space c) w \<Longrightarrow> split_acc cur (w @ rest) = split_acc (rev w @ cur) rest"
  by (induction w arbitrary: cur) auto

lemma is_space_blank [simp]: "is_space (CHR '' '')"
  by (simp add: is_space_def)

lemma split_join:
  assumes "list_all plain_word ws"
  shows "split (join '' '' ws) = ws"
  using assms
proof (induction "'' ''" ws rule: join.induct)
  case (2 w)
  then show ?case
    using split_acc_run [of w "[]" "[]"] by (auto simp: split_def plain_word_def)
next
  case (3 w v ws)
  have "split (w @ '' '' @ join '' '' (v # ws)) = w # split (join '' '' (v # ws))"
    using 3 split_acc_run [of w "[]" "'' '' @ join '' '' (v # ws)"]
    by (auto simp: split_def plain_word_def)
  with 3 show ?case by simp
qed (simp add: split_def)

lemma split_leading_space: "is_space c \<Longrightarrow> split (c # s) = split s"
  by (simp add: split_def)

lemma show_int_plain: "plain_word (show_int n)"
proof -
  have sp: "\<not> is_space c" if "is_digit c" for c
    using that by (auto simp: is_digit_def is_space_def)
  have "list_all (\<lambda>c. \<not> is_space c) (show_nat m)" for m
    using show_nat_digits [of m] sp by (auto simp: list_all_iff)
  moreover have "\<not> is_space (CHR ''-'')" by (simp add: is_space_def)
  ultimately show ?thesis by (simp add: plain_word_def show_int_def)
qed

lemma strip_idem_plain: "plain_word w \<Longrightarrow> strip w = w"
  unfolding strip_def lstrip_def plain_word_def
  by (metis (no_types, lifting) dropWhile_eq_self_iff hd_in_set list_all_iff rev_is_Nil_conv
      rev_rev_ident set_rev)

definition plain_line :: "string \<Rightarrow> bool" where
  "plain_line l \<longleftrightarrow> list_all (\<lambda>c. \<not> is_linebreak c) l"

abbreviation newline :: char where
  "newline \<equiv> CHR 0x0A"

lemma is_linebreak_newline [simp]: "is_linebreak newline" "is_linebreak (CHR 0x0D)"
  by (simp_all add: is_linebreak_def)

lemma splitlines_acc_run:
  assumes "plain_line l" and "l \<noteq> [] \<Longrightarrow> rest \<noteq> []"
  shows "splitlines_acc cur (l @ rest) = splitlines_acc (rev l @ cur) rest"
  using assms
proof (induction l arbitrary: cur)
  case (Cons c l)
  then obtain d ds where d: "l @ rest = d # ds" by (cases "l @ rest") auto
  from Cons.prems have c: "\<not> is_linebreak c" "c \<noteq> CHR 0x0D" "plain_line l"
    by (auto simp: plain_line_def)
  have "splitlines_acc cur (c # l @ rest) = splitlines_acc (c # cur) (l @ rest)"
    using c d by simp
  with Cons c show ?case by simp
qed simp

text \<open>Text whose lines each end in a newline splits back into those lines.\<close>

definition unlines :: "string list \<Rightarrow> string" where
  "unlines ls = concat (map (\<lambda>l. l @ [newline]) ls)"

lemma splitlines_newline: "splitlines_acc cur (newline # rest) = rev cur # splitlines_acc [] rest"
  by (cases rest) auto

lemma splitlines_unlines: "list_all plain_line ls \<Longrightarrow> splitlines (unlines ls) = ls"
proof (induction ls)
  case Nil
  then show ?case by (simp add: splitlines_def unlines_def)
next
  case (Cons l ls)
  then show ?case
    using splitlines_acc_run [of l "newline # unlines ls" "[]"]
    by (simp add: splitlines_def unlines_def splitlines_newline)
qed

lemma partition_at_found:
  assumes "sep \<notin> set h"
  shows "partition_at sep (h @ sep # t) = (h, True, t)"
proof -
  have "takeWhile (\<lambda>c. c \<noteq> sep) (h @ sep # t) = h" "dropWhile (\<lambda>c. c \<noteq> sep) (h @ sep # t) = sep # t"
    using assms by (induction h) auto
  then show ?thesis by (simp add: partition_at_def)
qed

end
