(* ===== verification/Telemetry_Types.thy ===== *)
theory Telemetry_Types
  imports Py_Text
begin

text \<open>
  The observations of src/sweatmeter/types.py and the failure isolation of
  src/sweatmeter/safe.py. A measurement is a number or the sentinel \<open>UNSUPPORTED\<close>;
  \<open>obj\<close> is a value whose type the code inspects at run time (what an arbitrary reader or
  binding returned). Records are polymorphic in the type of their fields where the collector
  receives unchecked values in the same dataclass.
\<close>

section \<open>Measurements and dynamic values\<close>

datatype measurement = Unsupported | Num pynum

abbreviation is_supported :: "measurement \<Rightarrow> bool" where
  "is_supported m \<equiv> m \<noteq> Unsupported"

datatype reported_text = NoText | Text string

text \<open>
  A bytes object is represented by the text it decodes to (or the exception decoding raises), a
  sequence by its elements, and every other object by \<open>OOther\<close>.
\<close>

datatype obj =
    OUnsupported | ONone | OBool bool | ONum pynum | OStr string | OBytes "string result"
  | OSeq "obj list" | OOther

fun obj_of_measurement :: "measurement \<Rightarrow> obj" where
  "obj_of_measurement Unsupported = OUnsupported"
| "obj_of_measurement (Num n) = ONum n"

section \<open>Readings\<close>

record 'm memory_reading =
  mr_total_bytes :: 'm
  mr_available_bytes :: 'm
  mr_used_bytes :: 'm

record 'm disk_throughput =
  dt_read_bytes_per_sec :: 'm
  dt_write_bytes_per_sec :: 'm

definition MemoryReading :: "measurement memory_reading" where
  "MemoryReading = \<lparr>mr_total_bytes = Unsupported, mr_available_bytes = Unsupported,
     mr_used_bytes = Unsupported\<rparr>"

definition DiskThroughput :: "measurement disk_throughput" where
  "DiskThroughput = \<lparr>dt_read_bytes_per_sec = Unsupported, dt_write_bytes_per_sec = Unsupported\<rparr>"

record ('i, 'u, 'm, 't, 'b) gpu_fields =
  gs_index :: 'i
  gs_uuid :: 'u
  gs_utilization_percent :: 'm
  gs_memory_utilization_percent :: 'm
  gs_vram_used_bytes :: 'm
  gs_vram_total_bytes :: 'm
  gs_temperature_c :: 'm
  gs_memory_temperature_c :: 'm
  gs_power_watts :: 'm
  gs_power_limit_watts :: 'm
  gs_fan_percent :: 'm
  gs_core_clock_mhz :: 'm
  gs_memory_clock_mhz :: 'm
  gs_throttle_reasons :: 't
  gs_throttle_reasons_available :: 'b

type_synonym gpu_sample = "(int, string option, measurement, string list, bool) gpu_fields"

text \<open>The eleven measured fields of a sample, in the order the collector lists them.\<close>

datatype gpu_field =
    Utilization | MemoryUtilization | VramUsed | VramTotal | Temperature | MemoryTemperature
  | Power | PowerLimit | Fan | CoreClock | MemoryClock

definition gpu_field_list :: "gpu_field list" where
  "gpu_field_list = [Utilization, MemoryUtilization, VramUsed, VramTotal, Temperature,
     MemoryTemperature, Power, PowerLimit, Fan, CoreClock, MemoryClock]"

fun field_name :: "gpu_field \<Rightarrow> string" where
  "field_name Utilization = ''utilization_percent''"
| "field_name MemoryUtilization = ''memory_utilization_percent''"
| "field_name VramUsed = ''vram_used_bytes''"
| "field_name VramTotal = ''vram_total_bytes''"
| "field_name Temperature = ''temperature_c''"
| "field_name MemoryTemperature = ''memory_temperature_c''"
| "field_name Power = ''power_watts''"
| "field_name PowerLimit = ''power_limit_watts''"
| "field_name Fan = ''fan_percent''"
| "field_name CoreClock = ''core_clock_mhz''"
| "field_name MemoryClock = ''memory_clock_mhz''"

text \<open>\<open>getattr(sample, field)\<close>\<close>

fun gpu_get :: "gpu_field \<Rightarrow> ('i, 'u, 'm, 't, 'b) gpu_fields \<Rightarrow> 'm" where
  "gpu_get Utilization g = gs_utilization_percent g"
| "gpu_get MemoryUtilization g = gs_memory_utilization_percent g"
| "gpu_get VramUsed g = gs_vram_used_bytes g"
| "gpu_get VramTotal g = gs_vram_total_bytes g"
| "gpu_get Temperature g = gs_temperature_c g"
| "gpu_get MemoryTemperature g = gs_memory_temperature_c g"
| "gpu_get Power g = gs_power_watts g"
| "gpu_get PowerLimit g = gs_power_limit_watts g"
| "gpu_get Fan g = gs_fan_percent g"
| "gpu_get CoreClock g = gs_core_clock_mhz g"
| "gpu_get MemoryClock g = gs_memory_clock_mhz g"

lemma gpu_field_list_all: "set gpu_field_list = UNIV" "distinct gpu_field_list"
proof -
  have "f \<in> set gpu_field_list" for f
    by (cases f) (auto simp: gpu_field_list_def)
  then show "set gpu_field_list = UNIV" by auto
qed (simp add: gpu_field_list_def)

lemma field_name_inj: "field_name f = field_name g \<longleftrightarrow> f = g"
  by (cases f; cases g) auto

section \<open>Profiles\<close>

text \<open>
  \<open>StorageDevice\<close>, \<open>GpuProfile\<close> and \<open>GpuVendor\<close> belong to the package
  baseaicore; the records hold the fields the sources pass to their constructors.
\<close>

record storage_device =
  sd_name :: string
  sd_size_bytes :: measurement
  sd_model :: "string option"
  sd_rotational :: "bool option"

datatype gpu_vendor = VendorNvidia | VendorUnknown | VendorOther string

record gpu_profile =
  gp_index :: int
  gp_name :: "string option"
  gp_uuid :: "string option"
  gp_vram_total_bytes :: measurement
  gp_driver_version :: "string option"
  gp_cuda_version :: "string option"
  gp_compute_capability :: "string option"
  gp_vendor :: gpu_vendor

record ('t, 'm, 's) host_facts =
  hf_hostname :: 't
  hf_os_name :: 't
  hf_os_version :: 't
  hf_kernel :: 't
  hf_architecture :: 't
  hf_cpu_model :: 't
  hf_physical_cores :: 'm
  hf_logical_cores :: 'm
  hf_ram_bytes :: 'm
  hf_storage :: 's
  hf_python_version :: 't

definition HostFacts :: "(reported_text, measurement, storage_device list) host_facts" where
  "HostFacts = \<lparr>hf_hostname = NoText, hf_os_name = NoText, hf_os_version = NoText,
     hf_kernel = NoText, hf_architecture = NoText, hf_cpu_model = NoText,
     hf_physical_cores = Unsupported, hf_logical_cores = Unsupported, hf_ram_bytes = Unsupported,
     hf_storage = [], hf_python_version = NoText\<rparr>"

section \<open>Snapshots\<close>

text \<open>
  A datetime is its wall-clock microseconds and its \<open>tzinfo\<close>: none, or what its
  \<open>utcoffset\<close> answers (an exception, None, or an offset in microseconds).
\<close>

record datetime =
  wall_us :: int
  tz_offset :: "int option result option"

definition aware :: "datetime \<Rightarrow> bool" where
  "aware t \<longleftrightarrow> (\<exists>off. tz_offset t = Some (Inr (Some off)))"

text \<open>The absolute instant; aware datetimes compare and subtract by it.\<close>

definition instant_us :: "datetime \<Rightarrow> int" where
  "instant_us t =
     (case tz_offset t of Some (Inr (Some off)) \<Rightarrow> wall_us t - off | _ \<Rightarrow> wall_us t)"

definition utc_instant :: "int \<Rightarrow> datetime" where
  "utc_instant us = \<lparr>wall_us = us, tz_offset = Some (Inr (Some 0))\<rparr>"

text \<open>\<open>(b - a).total_seconds()\<close>: the microseconds divided by a million, rounded once.\<close>

definition total_seconds :: "datetime \<Rightarrow> datetime \<Rightarrow> pyfloat" where
  "total_seconds a b = rnd64 (of_int (instant_us b - instant_us a) / 1000000)"

type_synonym reasons = "(string, string) dict"

record snapshot =
  ts_timestamp :: datetime
  ts_cpu_percent :: measurement
  ts_load_average_1m :: measurement
  ts_ram_used_bytes :: measurement
  ts_ram_available_bytes :: measurement
  ts_ram_total_bytes :: measurement
  ts_cpu_temperature_c :: measurement
  ts_disk_read_bytes_per_sec :: measurement
  ts_disk_write_bytes_per_sec :: measurement
  ts_process_rss_bytes :: measurement
  ts_gpus :: "gpu_sample list"
  ts_reasons :: "(string \<times> string) list"

text \<open>\<open>TelemetrySnapshot.__post_init__\<close>: reject a timestamp without an absolute instant.\<close>

definition make_snapshot :: "snapshot \<Rightarrow> snapshot result" where
  "make_snapshot s =
     (case tz_offset (ts_timestamp s) of
        None \<Rightarrow> Inl ValidationError
      | Some (Inl e) \<Rightarrow> Inl e
      | Some (Inr None) \<Rightarrow> Inl ValidationError
      | Some (Inr (Some _)) \<Rightarrow> Inr s)"

definition snapshot_unavailable_reasons :: "snapshot \<Rightarrow> reasons" where
  "snapshot_unavailable_reasons s = dict_update [] (ts_reasons s)"

lemma make_snapshot_Inr: "make_snapshot s = Inr s' \<longleftrightarrow> aware (ts_timestamp s) \<and> s' = s"
  by (auto simp: make_snapshot_def aware_def split: option.splits sum.splits)

section \<open>Failure isolation\<close>

text \<open>
  \<open>_safe_call\<close> and \<open>_safe\<close>: an ordinary exception becomes the default (kept beside
  the value by \<open>_safe_call\<close>), the two others pass through. The debug record is not modelled.
\<close>

definition safe_call :: "('s, 'a) comp \<Rightarrow> 'a \<Rightarrow> ('s, 'a \<times> exn option) comp" where
  "safe_call fn d = (\<lambda>s.
     case fn s of
       (Inr v, s') \<Rightarrow> (Inr (v, None), s')
     | (Inl e, s') \<Rightarrow> if ordinary e then (Inr (d, Some e), s') else (Inl e, s'))"

definition safe :: "('s, 'a) comp \<Rightarrow> 'a \<Rightarrow> ('s, 'a) comp" where
  "safe fn d = cbind (safe_call fn d) (\<lambda>(value, _). creturn value)"

text \<open>The same on a result without state.\<close>

definition safe_result :: "'a result \<Rightarrow> 'a \<Rightarrow> 'a result" where
  "safe_result r d = (case r of Inl e \<Rightarrow> if ordinary e then Inr d else Inl e | Inr v \<Rightarrow> Inr v)"

lemma safe_eq:
  "safe fn d s = (case fn s of (r, s') \<Rightarrow> (safe_result r d, s'))"
  by (auto simp: safe_def safe_call_def safe_result_def cbind_def creturn_def
      split: prod.splits sum.splits)

text \<open>A computation that raises nothing but \<open>KeyboardInterrupt\<close> and \<open>SystemExit\<close>.\<close>

definition contained :: "('s, 'a) comp \<Rightarrow> bool" where
  "contained m \<longleftrightarrow> (\<forall>s e s'. m s = (Inl e, s') \<longrightarrow> \<not> ordinary e)"

lemma safe_result_ordinary: "safe_result r d = Inl e \<Longrightarrow> \<not> ordinary e"
  by (auto simp: safe_result_def split: sum.splits if_splits)

lemma contained_safe: "contained (safe fn d)"
  by (auto simp: contained_def safe_eq safe_result_ordinary split: prod.splits)

lemma contained_safe_call: "contained (safe_call fn d)"
  by (auto simp: contained_def safe_call_def split: prod.splits sum.splits if_splits)

lemma contained_bind: "contained m \<Longrightarrow> (\<And>x. contained (f x)) \<Longrightarrow> contained (cbind m f)"
  by (auto simp: contained_def cbind_def split: prod.splits sum.splits)

lemma contained_pure: "contained (creturn x)" "contained (cmodify f)" "contained (cgets g)"
  by (simp_all add: contained_def comp_defs)

lemmas contained_intros = contained_bind contained_safe contained_safe_call contained_pure

lemma keeps_safe: "keeps R m \<Longrightarrow> keeps R (safe m d)"
  by (auto simp: keeps_def safe_eq split: prod.splits) (metis snd_conv)

end
