(* ===== verification/Gpu_Contract.thy ===== *)
theory Gpu_Contract
  imports Telemetry_Types
begin

text \<open>
  What every GPU reader promises (src/sweatmeter/readers/protocols.py, \<open>GpuReader\<close>, and the
  conformance rules its backends are held to): the diagnostic keys, the ranges of the measured
  fields, the honesty of throttle reasons, and the interface as a locale that the backends
  interpret and the collector uses.
\<close>

section \<open>Diagnostics\<close>

text \<open>\<open>f"gpu.{index}.{field}"\<close>\<close>

definition gpu_key :: "int \<Rightarrow> string \<Rightarrow> string" where
  "gpu_key index f = ''gpu.'' @ show_int index @ ''.'' @ f"

definition set_reason :: "string \<Rightarrow> string \<Rightarrow> (reasons, unit) comp" where
  "set_reason key reason = cmodify (dict_set key reason)"

definition setdefault_reason :: "string \<Rightarrow> string \<Rightarrow> (reasons, unit) comp" where
  "setdefault_reason key reason = cmodify (dict_setdefault key reason)"

text \<open>The diagnostics of one operation only grow.\<close>

definition more_keys :: "reasons \<Rightarrow> reasons \<Rightarrow> bool" where
  "more_keys r r' \<longleftrightarrow> dict_keys r \<subseteq> dict_keys r'"

lemma more_keys_preorder [simp]: "reflp more_keys" "transp more_keys"
  by (auto simp: more_keys_def reflp_def transp_def)

lemma keeps_set_reason [grows_intros]:
  "keeps more_keys (set_reason k v)" "keeps more_keys (setdefault_reason k v)"
  by (auto simp: keeps_def set_reason_def setdefault_reason_def cmodify_def more_keys_def)

section \<open>Well-formed samples\<close>

definition absolute_zero :: pyfloat where
  "absolute_zero = rnd64 (- 27315 / 100)"

lemma absolute_zero_neg: "flt_le absolute_zero (Fin 0)"
  by code_simp

definition field_minimum :: "gpu_field \<Rightarrow> pyfloat" where
  "field_minimum f = (if f \<in> {Temperature, MemoryTemperature} then absolute_zero else Fin 0)"

definition field_maximum :: "gpu_field \<Rightarrow> pyfloat option" where
  "field_maximum f = (if f \<in> {Utilization, MemoryUtilization, Fan} then Some (Fin 100) else None)"

text \<open>A finite number in the range of its field, or the unsupported marker.\<close>

definition number_ok :: "pyfloat \<Rightarrow> pyfloat option \<Rightarrow> pynum \<Rightarrow> bool" where
  "number_ok lo hi v \<longleftrightarrow>
     num_isfinite v = Inr True \<and> num_le (PFlt lo) v
     \<and> (case hi of None \<Rightarrow> True | Some h \<Rightarrow> num_le v (PFlt h))"

fun measurement_ok :: "pyfloat \<Rightarrow> pyfloat option \<Rightarrow> measurement \<Rightarrow> bool" where
  "measurement_ok lo hi Unsupported = True"
| "measurement_ok lo hi (Num v) = number_ok lo hi v"

definition throttle_vocabulary :: "string list" where
  "throttle_vocabulary =
     [''gpu_idle'', ''applications_clocks_setting'', ''sw_power_cap'', ''hw_slowdown'',
      ''hw_thermal_slowdown'', ''hw_power_brake_slowdown'', ''sync_boost'', ''sw_thermal_slowdown'']"

text \<open>
  Throttle reasons are distinct words of the vocabulary, and there are none while the driver cannot
  tell.
\<close>

definition throttle_honest :: "gpu_sample \<Rightarrow> bool" where
  "throttle_honest g \<longleftrightarrow>
     set (gs_throttle_reasons g) \<subseteq> set throttle_vocabulary \<and> distinct (gs_throttle_reasons g)
     \<and> (\<not> gs_throttle_reasons_available g \<longrightarrow> gs_throttle_reasons g = [])"

definition gpu_sample_ok :: "gpu_sample \<Rightarrow> bool" where
  "gpu_sample_ok g \<longleftrightarrow>
     0 \<le> gs_index g \<and> gs_uuid g \<noteq> Some []
     \<and> list_all (\<lambda>f. measurement_ok (field_minimum f) (field_maximum f) (gpu_get f g)) gpu_field_list
     \<and> throttle_honest g"

definition samples_ok :: "gpu_sample list \<Rightarrow> bool" where
  "samples_ok gs \<longleftrightarrow> sorted_wrt (<) (map gs_index gs) \<and> list_all gpu_sample_ok gs"

text \<open>Every value a sample lacks has a recorded reason.\<close>

definition explained :: "reasons \<Rightarrow> gpu_sample \<Rightarrow> bool" where
  "explained r g \<longleftrightarrow>
     list_all (\<lambda>f. gpu_get f g = Unsupported \<longrightarrow>
         gpu_key (gs_index g) (field_name f) \<in> dict_keys r) gpu_field_list
     \<and> (\<not> gs_throttle_reasons_available g \<longrightarrow>
          gpu_key (gs_index g) ''throttle_reasons'' \<in> dict_keys r)"

definition reading_explained :: "reasons \<Rightarrow> gpu_sample list \<Rightarrow> bool" where
  "reading_explained r gs \<longleftrightarrow>
     (if gs = [] then ''gpu'' \<in> dict_keys r else list_all (explained r) gs)"

definition missing_keys :: "gpu_sample \<Rightarrow> string set" where
  "missing_keys g =
     (\<lambda>f. gpu_key (gs_index g) (field_name f)) ` {f. gpu_get f g = Unsupported}
     \<union> (if gs_throttle_reasons_available g then {} else {gpu_key (gs_index g) ''throttle_reasons''})"

lemma explained_missing: "explained r g \<longleftrightarrow> missing_keys g \<subseteq> dict_keys r"
  using gpu_field_list_all by (auto simp: explained_def missing_keys_def list_all_iff)

lemma explained_more: "more_keys r r' \<Longrightarrow> explained r g \<Longrightarrow> explained r' g"
  by (auto simp: explained_def more_keys_def list_all_iff)

lemma reading_explained_keys:
  "dict_keys r = dict_keys r' \<Longrightarrow> reading_explained r gs \<Longrightarrow> reading_explained r' gs"
  using explained_more [of r r'] by (auto simp: reading_explained_def more_keys_def list_all_iff)

lemma gpu_sample_okD:
  "gpu_sample_ok g \<Longrightarrow> measurement_ok (field_minimum f) (field_maximum f) (gpu_get f g)"
  using gpu_field_list_all by (auto simp: gpu_sample_ok_def list_all_iff)

lemma explainedD:
  "explained r g \<Longrightarrow> gpu_get f g = Unsupported \<Longrightarrow> gpu_key (gs_index g) (field_name f) \<in> dict_keys r"
  using gpu_field_list_all by (auto simp: explained_def list_all_iff)

lemma samples_ok_distinct: "samples_ok gs \<Longrightarrow> distinct (map gs_index gs)"
  by (simp add: samples_ok_def strict_sorted_iff)

section \<open>The interface\<close>

text \<open>
  A reader in a usable state answers with well-formed samples in ascending device order, explains
  everything it leaves out, and stays usable.
\<close>

locale gpu_reader =
  fixes sample :: "('s, gpu_sample list) comp"
    and diagnostics :: "'s \<Rightarrow> reasons"
    and usable :: "'s \<Rightarrow> bool"
  assumes sample_ok: "usable s \<Longrightarrow> sample s = (Inr gs, s') \<Longrightarrow> samples_ok gs"
    and sample_explained: "usable s \<Longrightarrow> sample s = (Inr gs, s') \<Longrightarrow> reading_explained (diagnostics s') gs"
    and sample_usable: "usable s \<Longrightarrow> usable (snd (sample s))"
begin

text \<open>What a sequence of polls returned, failed polls left out.\<close>

fun polls :: "nat \<Rightarrow> 's \<Rightarrow> gpu_sample list list" where
  "polls 0 s = []"
| "polls (Suc n) s =
     (case sample s of (Inr gs, s') \<Rightarrow> gs # polls n s' | (Inl _, s') \<Rightarrow> polls n s')"

lemma polls_ok: "usable s \<Longrightarrow> list_all samples_ok (polls n s)"
proof (induction n arbitrary: s)
  case (Suc n)
  obtain r s' where s: "sample s = (r, s')" by (cases "sample s")
  with sample_usable [OF Suc.prems] have "usable s'" by simp
  with Suc s sample_ok show ?case by (cases r) auto
qed simp

lemma poll_missing_field:
  assumes "usable s" "sample s = (Inr gs, s')" "g \<in> set gs" "gpu_get f g = Unsupported"
  shows "gpu_key (gs_index g) (field_name f) \<in> dict_keys (diagnostics s')"
  using sample_explained [OF assms(1,2)] assms(3,4) explainedD
  by (auto simp: reading_explained_def list_all_iff split: if_splits)

lemma poll_percentages:
  assumes "usable s" "sample s = (Inr gs, s')" "g \<in> set gs"
    "f \<in> {Utilization, MemoryUtilization, Fan}" "gpu_get f g = Num v"
  shows "num_le (PFlt (Fin 0)) v \<and> num_le v (PFlt (Fin 100))"
  using sample_ok [OF assms(1,2)] assms(3,4,5) gpu_sample_okD [of g f]
  by (auto simp: samples_ok_def list_all_iff number_ok_def field_minimum_def field_maximum_def)

end

end
