(* ===== verification/Readers.thy ===== *)
theory Readers
  imports Gpu_Contract
begin

text \<open>
  The two protocols of src/sweatmeter/readers/protocols.py as records of operations on a reader's
  state, with results as unchecked as the collector receives them, and the tier-3 stubs of
  src/sweatmeter/readers/darwin.py and windows.py, which only raise.
\<close>

section \<open>Unchecked results\<close>

type_synonym raw_memory = "obj memory_reading"
type_synonym raw_disk = "obj disk_throughput"

text \<open>
  \<open>None\<close> below stands for a result that is not an instance of the expected class. The fields
  of an instance are unchecked; iterating over its throttle reasons may raise. A storage that is
  not a tuple is \<open>None\<close>.
\<close>

type_synonym raw_facts = "(obj, obj, storage_device list option) host_facts"
type_synonym raw_gpu = "(obj, obj, obj, obj list result, obj) gpu_fields"

text \<open>What \<open>unavailable_reasons\<close> returned: no mapping, or the items (reading them may raise).\<close>

datatype reported_reasons = NotMapping | ItemsOf "(obj \<times> obj) list result"

record 's host_reader =
  hr_cpu_percent :: "('s, obj) comp"
  hr_load_average_1m :: "('s, obj) comp"
  hr_memory :: "('s, raw_memory option) comp"
  hr_cpu_temperature :: "('s, obj) comp"
  hr_disk_throughput :: "('s, raw_disk option) comp"
  hr_process_rss_bytes :: "('s, obj) comp"
  hr_static_facts :: "('s, raw_facts option) comp"
  hr_unavailable_reasons :: "('s, reported_reasons) comp option"

text \<open>
  The collector turns the samples and the profiles into tuples; the iteration belongs to the
  operation here. A profile that is an instance of \<open>GpuProfile\<close> has the types of that class.
\<close>

record 's gpu_operations =
  gr_available :: "('s, bool) comp"
  gr_sample :: "('s, raw_gpu option list) comp"
  gr_static_info :: "('s, gpu_profile option list) comp"
  gr_unavailable_reasons :: "('s, reported_reasons) comp option"

section \<open>Checked results as unchecked ones\<close>

fun obj_of_text :: "reported_text \<Rightarrow> obj" where
  "obj_of_text NoText = OUnsupported"
| "obj_of_text (Text t) = OStr t"

definition obj_of_optional :: "string option \<Rightarrow> obj" where
  "obj_of_optional t = (case t of None \<Rightarrow> ONone | Some s \<Rightarrow> OStr s)"

definition raw_memory_of :: "measurement memory_reading \<Rightarrow> raw_memory" where
  "raw_memory_of m =
     \<lparr>mr_total_bytes = obj_of_measurement (mr_total_bytes m),
      mr_available_bytes = obj_of_measurement (mr_available_bytes m),
      mr_used_bytes = obj_of_measurement (mr_used_bytes m)\<rparr>"

definition raw_disk_of :: "measurement disk_throughput \<Rightarrow> raw_disk" where
  "raw_disk_of d =
     \<lparr>dt_read_bytes_per_sec = obj_of_measurement (dt_read_bytes_per_sec d),
      dt_write_bytes_per_sec = obj_of_measurement (dt_write_bytes_per_sec d)\<rparr>"

definition raw_facts_of ::
  "(reported_text, measurement, storage_device list) host_facts \<Rightarrow> raw_facts" where
  "raw_facts_of f =
     \<lparr>hf_hostname = obj_of_text (hf_hostname f), hf_os_name = obj_of_text (hf_os_name f),
      hf_os_version = obj_of_text (hf_os_version f), hf_kernel = obj_of_text (hf_kernel f),
      hf_architecture = obj_of_text (hf_architecture f), hf_cpu_model = obj_of_text (hf_cpu_model f),
      hf_physical_cores = obj_of_measurement (hf_physical_cores f),
      hf_logical_cores = obj_of_measurement (hf_logical_cores f),
      hf_ram_bytes = obj_of_measurement (hf_ram_bytes f), hf_storage = Some (hf_storage f),
      hf_python_version = obj_of_text (hf_python_version f)\<rparr>"

definition raw_gpu_of :: "gpu_sample \<Rightarrow> raw_gpu" where
  "raw_gpu_of g =
     \<lparr>gs_index = ONum (PInt (gs_index g)), gs_uuid = obj_of_optional (gs_uuid g),
      gs_utilization_percent = obj_of_measurement (gs_utilization_percent g),
      gs_memory_utilization_percent = obj_of_measurement (gs_memory_utilization_percent g),
      gs_vram_used_bytes = obj_of_measurement (gs_vram_used_bytes g),
      gs_vram_total_bytes = obj_of_measurement (gs_vram_total_bytes g),
      gs_temperature_c = obj_of_measurement (gs_temperature_c g),
      gs_memory_temperature_c = obj_of_measurement (gs_memory_temperature_c g),
      gs_power_watts = obj_of_measurement (gs_power_watts g),
      gs_power_limit_watts = obj_of_measurement (gs_power_limit_watts g),
      gs_fan_percent = obj_of_measurement (gs_fan_percent g),
      gs_core_clock_mhz = obj_of_measurement (gs_core_clock_mhz g),
      gs_memory_clock_mhz = obj_of_measurement (gs_memory_clock_mhz g),
      gs_throttle_reasons = Inr (map OStr (gs_throttle_reasons g)),
      gs_throttle_reasons_available = OBool (gs_throttle_reasons_available g)\<rparr>"

lemma gpu_get_raw [simp]: "gpu_get f (raw_gpu_of g) = obj_of_measurement (gpu_get f g)"
  by (cases f) (simp_all add: raw_gpu_of_def)

definition reported_of :: "reasons \<Rightarrow> reported_reasons" where
  "reported_of r = ItemsOf (Inr (map (\<lambda>(k, v). (OStr k, OStr v)) r))"

text \<open>A result under a function.\<close>

definition cmap :: "('a \<Rightarrow> 'b) \<Rightarrow> ('s, 'a) comp \<Rightarrow> ('s, 'b) comp" where
  "cmap f m = cbind m (\<lambda>x. creturn (f x))"

definition gpu_operations_of ::
  "('s, bool) comp \<Rightarrow> ('s, gpu_sample list) comp \<Rightarrow> ('s, gpu_profile list) comp \<Rightarrow> ('s \<Rightarrow> reasons) \<Rightarrow>
     's gpu_operations" where
  "gpu_operations_of available sample info diagnostics =
     \<lparr>gr_available = available,
      gr_sample = cmap (map (\<lambda>g. Some (raw_gpu_of g))) sample,
      gr_static_info = cmap (map Some) info,
      gr_unavailable_reasons = Some (cgets (\<lambda>s. reported_of (diagnostics s)))\<rparr>"

section \<open>The tier-3 stubs\<close>

definition unsupported_platform :: "('s, 'a) comp" where
  "unsupported_platform = craise UnsupportedPlatformError"

definition DarwinHostReader :: "unit host_reader" where
  "DarwinHostReader =
     \<lparr>hr_cpu_percent = unsupported_platform, hr_load_average_1m = unsupported_platform,
      hr_memory = unsupported_platform, hr_cpu_temperature = unsupported_platform,
      hr_disk_throughput = unsupported_platform, hr_process_rss_bytes = unsupported_platform,
      hr_static_facts = unsupported_platform, hr_unavailable_reasons = None\<rparr>"

definition WindowsHostReader :: "unit host_reader" where
  "WindowsHostReader =
     \<lparr>hr_cpu_percent = unsupported_platform, hr_load_average_1m = unsupported_platform,
      hr_memory = unsupported_platform, hr_cpu_temperature = unsupported_platform,
      hr_disk_throughput = unsupported_platform, hr_process_rss_bytes = unsupported_platform,
      hr_static_facts = unsupported_platform, hr_unavailable_reasons = None\<rparr>"

end
