(* ===== verification/Linux_Parse.thy ===== *)
theory Linux_Parse
  imports Telemetry_Types
begin

text \<open>
  The parsers of src/sweatmeter/readers/linux.py over the text of \<open>/proc\<close>:
  \<open>parse_proc_stat\<close>, \<open>parse_meminfo\<close>, \<open>parse_loadavg\<close>,
  \<open>parse_diskstats\<close>, \<open>parse_cpuinfo\<close> and \<open>_millidegrees\<close>. None of
  them raises: a counter pair that cannot be read is \<open>None\<close>, a quantity is
  \<open>Unsupported\<close>.
\<close>

section \<open>CPU counters\<close>

fun proc_stat_lines :: "string list \<Rightarrow> (int \<times> int) option" where
  "proc_stat_lines [] = None"
| "proc_stat_lines (line # lines) =
     (let fs = split line in
      if fs = [] \<or> hd fs \<noteq> ''cpu'' then proc_stat_lines lines
      else if length fs < 5 then None
      else case etraverse int_of_text (tl fs) of
        Inl _ \<Rightarrow> None
      | Inr counters \<Rightarrow>
          if list_ex (\<lambda>c. c < 0) counters then None
          else Some (sum_list (take 8 counters),
                     counters ! 3 + (if 4 < length counters then counters ! 4 else 0)))"

definition parse_proc_stat :: "string \<Rightarrow> (int \<times> int) option" where
  "parse_proc_stat text = proc_stat_lines (splitlines text)"

section \<open>Memory\<close>

definition meminfo_line :: "string \<Rightarrow> (string, int) dict \<Rightarrow> (string, int) dict" where
  "meminfo_line line values =
     (case partition_at (CHR '':'') line of (key, separator, remainder) \<Rightarrow>
        let fs = split remainder in
        if \<not> separator \<or> fs = [] then values
        else case int_of_text (hd fs) of
          Inl _ \<Rightarrow> values
        | Inr amount \<Rightarrow>
            if amount < 0 \<or> (1 < length fs \<and> lower (fs ! 1) \<noteq> ''kb'') then values
            else dict_set (strip key) (amount * 1024) values)"

definition meminfo_values :: "string \<Rightarrow> (string, int) dict" where
  "meminfo_values text = fold meminfo_line (splitlines text) []"

definition dict_get_or :: "'v \<Rightarrow> ('k, 'v) dict \<Rightarrow> 'k \<Rightarrow> 'v" where
  "dict_get_or d m k = (case dict_get m k of None \<Rightarrow> d | Some v \<Rightarrow> v)"

text \<open>The quantity kernels before 3.14 leave out, clamped to zero and to the known total.\<close>

definition available_fallback :: "(string, int) dict \<Rightarrow> int option \<Rightarrow> int \<Rightarrow> int" where
  "available_fallback values tot mem_free =
     (let fallback = max 0 (mem_free + dict_get_or 0 values ''Buffers''
            + dict_get_or 0 values ''Cached'' + dict_get_or 0 values ''SReclaimable''
            - dict_get_or 0 values ''Shmem'')
      in case tot of Some t \<Rightarrow> min fallback t | None \<Rightarrow> fallback)"

fun bytes_measurement :: "int option \<Rightarrow> measurement" where
  "bytes_measurement None = Unsupported"
| "bytes_measurement (Some n) = Num (PInt n)"

definition parse_meminfo :: "string \<Rightarrow> measurement memory_reading" where
  "parse_meminfo text =
     (let values = meminfo_values text;
          tot = dict_get values ''MemTotal'';
          available =
            (case dict_get values ''MemAvailable'' of
               Some a \<Rightarrow> Some a
             | None \<Rightarrow> map_option (available_fallback values tot) (dict_get values ''MemFree''));
          used =
            (case (tot, available) of
               (Some t, Some a) \<Rightarrow> if a \<le> t then Some (t - a) else None
             | _ \<Rightarrow> None)
      in \<lparr>mr_total_bytes = bytes_measurement tot,
          mr_available_bytes = bytes_measurement available,
          mr_used_bytes = bytes_measurement used\<rparr>)"

section \<open>Load average\<close>

definition parse_loadavg :: "string \<Rightarrow> measurement" where
  "parse_loadavg text =
     (case split text of
        [] \<Rightarrow> Unsupported
      | field # _ \<Rightarrow>
          (case float_of_text field of
             Inl _ \<Rightarrow> Unsupported
           | Inr (Fin load) \<Rightarrow> if 0 \<le> load then Num (PFlt (Fin load)) else Unsupported
           | Inr _ \<Rightarrow> Unsupported))"

section \<open>Disk counters\<close>

definition after_prefix :: "string \<Rightarrow> string \<Rightarrow> string option" where
  "after_prefix p s = (if is_prefix p s then Some (drop (length p) s) else None)"

definition letters_after :: "string \<Rightarrow> string \<Rightarrow> bool" where
  "letters_after p s =
     (case after_prefix p s of None \<Rightarrow> False | Some r \<Rightarrow> r \<noteq> [] \<and> list_all is_lower r)"

definition nvme_namespace :: "string \<Rightarrow> bool" where
  "nvme_namespace s =
     (case after_prefix ''nvme'' s of
        None \<Rightarrow> False
      | Some r \<Rightarrow> takeWhile is_digit r \<noteq> [] \<and>
          (case after_prefix ''n'' (dropWhile is_digit r) of
             None \<Rightarrow> False | Some q \<Rightarrow> q \<noteq> [] \<and> list_all is_digit q))"

text \<open>\<open>_WHOLE_DEVICE.fullmatch\<close>\<close>

definition whole_device :: "string \<Rightarrow> bool" where
  "whole_device s \<longleftrightarrow>
     letters_after ''sd'' s \<or> letters_after ''hd'' s \<or> letters_after ''vd'' s
     \<or> letters_after ''xvd'' s \<or> nvme_namespace s
     \<or> (case after_prefix ''mmcblk'' s of None \<Rightarrow> False | Some r \<Rightarrow> r \<noteq> [] \<and> list_all is_digit r)
     \<or> letters_after ''dasd'' s"

definition disk_selected :: "string list option \<Rightarrow> string \<Rightarrow> bool" where
  "disk_selected devices name =
     (case devices of Some ds \<Rightarrow> name \<in> set ds | None \<Rightarrow> whole_device name)"

text \<open>The loop over the lines, with the names seen and the two sums.\<close>

fun diskstats_lines ::
  "string list option \<Rightarrow> string list \<Rightarrow> int \<Rightarrow> int \<Rightarrow> string list \<Rightarrow> (int \<times> int) option" where
  "diskstats_lines devices seen rd wr [] =
     (if seen = [] \<or> (case devices of Some ds \<Rightarrow> set seen \<noteq> set ds | None \<Rightarrow> False)
      then None else Some (rd * 512, wr * 512))"
| "diskstats_lines devices seen rd wr (line # lines) =
     (let fs = split line in
      if length fs \<le> 2 \<or> \<not> disk_selected devices (fs ! 2)
      then diskstats_lines devices seen rd wr lines
      else if length fs < 10 then None
      else case (int_of_text (fs ! 5), int_of_text (fs ! 9)) of
        (Inr r, Inr w) \<Rightarrow>
          if r < 0 \<or> w < 0 then None
          else diskstats_lines devices (List.insert (fs ! 2) seen) (rd + r) (wr + w) lines
      | _ \<Rightarrow> None)"

definition parse_diskstats :: "string \<Rightarrow> string list option \<Rightarrow> (int \<times> int) option" where
  "parse_diskstats text devices = diskstats_lines devices [] 0 0 (splitlines text)"

section \<open>CPU identity\<close>

text \<open>
  \<open>re.split\<close> at a newline, any white space, and a newline: white space after the last newline of a run stays at
  the front of the next block.
\<close>

function cpu_blocks :: "string \<Rightarrow> string \<Rightarrow> string list" where
  "cpu_blocks cur [] = [rev cur]"
| "cpu_blocks cur (c # cs) =
     (if c = newline \<and> newline \<in> set (takeWhile is_space cs)
      then rev cur #
        cpu_blocks [] (drop (length (dropWhile (\<lambda>d. d \<noteq> newline) (rev (takeWhile is_space cs)))) cs)
      else cpu_blocks (c # cur) cs)"
  by pat_completeness auto
termination
  by (relation "measure (\<lambda>(cur, s). length s)") auto

definition cpu_block_line :: "string \<Rightarrow> (string, string) dict \<Rightarrow> (string, string) dict" where
  "cpu_block_line line fs =
     (case partition_at (CHR '':'') line of (key, separator, value) \<Rightarrow>
        if separator \<and> strip value \<noteq> [] then dict_set (strip key) (strip value) fs else fs)"

definition cpu_block_fields :: "string \<Rightarrow> (string, string) dict" where
  "cpu_block_fields block = fold cpu_block_line (splitlines block) []"

record cpu_scan =
  cs_models :: "(string, string) dict"
  cs_logical :: nat
  cs_cores :: "(string \<times> string) list"

definition cpu_block_step :: "string \<Rightarrow> cpu_scan \<Rightarrow> cpu_scan" where
  "cpu_block_step block scan =
     (let fs = cpu_block_fields block;
          models = fold (\<lambda>key m. case dict_get fs key of
                           Some v \<Rightarrow> dict_setdefault key v m | None \<Rightarrow> m)
                     [''model name'', ''Processor'', ''Hardware'', ''Model''] (cs_models scan)
      in scan\<lparr>cs_logical := (if dict_get fs ''processor'' \<noteq> None
                 then Suc (cs_logical scan) else cs_logical scan),
              cs_models := models,
              cs_cores := (case (dict_get fs ''physical id'', dict_get fs ''core id'') of
                 (Some p, Some c) \<Rightarrow> List.insert (p, c) (cs_cores scan)
               | _ \<Rightarrow> cs_cores scan)\<rparr>)"

fun first_model :: "string list \<Rightarrow> (string, string) dict \<Rightarrow> reported_text" where
  "first_model [] models = NoText"
| "first_model (key # keys) models =
     (case dict_get models key of Some v \<Rightarrow> Text v | None \<Rightarrow> first_model keys models)"

definition count_measurement :: "nat \<Rightarrow> measurement" where
  "count_measurement n = (if n = 0 then Unsupported else Num (PInt (int n)))"

definition cpu_scan_text :: "string \<Rightarrow> cpu_scan" where
  "cpu_scan_text text =
     fold cpu_block_step (cpu_blocks [] (strip text))
       \<lparr>cs_models = [], cs_logical = 0, cs_cores = []\<rparr>"

definition parse_cpuinfo ::
  "string \<Rightarrow> (reported_text, measurement, storage_device list) host_facts" where
  "parse_cpuinfo text =
     (let scan = cpu_scan_text text
      in HostFacts\<lparr>
        hf_cpu_model := first_model [''model name'', ''Hardware'', ''Processor'', ''Model'']
                          (cs_models scan),
        hf_physical_cores := count_measurement (length (cs_cores scan)),
        hf_logical_cores := count_measurement (cs_logical scan)\<rparr>)"

section \<open>Temperatures\<close>

text \<open>\<open>-273.15\<close> and \<open>1000.0\<close> are doubles; so is the quotient by 1000.\<close>

definition min_temperature :: pyfloat where
  "min_temperature = rnd64 (- 27315 / 100)"

definition max_temperature :: pyfloat where
  "max_temperature = Fin 1000"

definition millidegrees :: "string option \<Rightarrow> pyfloat option" where
  "millidegrees text =
     (case text of
        None \<Rightarrow> None
      | Some t \<Rightarrow>
          (case ebind (float_of_text t) (\<lambda>f. fdiv f (Fin 1000)) of
             Inr (Fin v) \<Rightarrow>
               if flt_le min_temperature (Fin v) \<and> flt_le (Fin v) max_temperature
               then Some (Fin v) else None
           | _ \<Rightarrow> None))"

section \<open>Properties of the CPU counters\<close>

lemma sum_list_take_nonneg: "list_all (\<lambda>c. 0 \<le> c) (cs :: int list) \<Longrightarrow> 0 \<le> sum_list (take n cs)"
  by (intro sum_list_nonneg) (auto simp: list_all_iff dest: in_set_takeD)

text \<open>The idle and I/O-wait columns are two of the eight columns of the total.\<close>

lemma idle_within_total:
  assumes "list_all (\<lambda>c. 0 \<le> c) (cs :: int list)" and "4 \<le> length cs"
  shows "0 \<le> cs ! 3 + (if 4 < length cs then cs ! 4 else 0)"
    and "cs ! 3 + (if 4 < length cs then cs ! 4 else 0) \<le> sum_list (take 8 cs)"
proof -
  have nn: "0 \<le> cs ! i" if "i < length cs" for i
    using assms(1) that by (simp add: list_all_length)
  show "0 \<le> cs ! 3 + (if 4 < length cs then cs ! 4 else 0)" using nn assms(2) by simp
  obtain a b c d r where cs: "cs = a # b # c # d # r"
    using assms(2) by (auto simp: numeral_eq_Suc Suc_le_length_iff)
  have abc: "0 \<le> a" "0 \<le> b" "0 \<le> c" "list_all (\<lambda>c. 0 \<le> c) r" using assms(1) cs by auto
  show "cs ! 3 + (if 4 < length cs then cs ! 4 else 0) \<le> sum_list (take 8 cs)"
  proof (cases r)
    case Nil
    with cs abc show ?thesis by (simp add: numeral_eq_Suc)
  next
    case (Cons e r')
    with abc have "0 \<le> sum_list (take 3 r')" by (intro sum_list_take_nonneg) simp
    with Cons cs abc show ?thesis by (simp add: numeral_eq_Suc)
  qed
qed

lemma proc_stat_lines_sound:
  "proc_stat_lines lines = Some (total_j, idle_j) \<Longrightarrow> 0 \<le> idle_j \<and> idle_j \<le> total_j"
proof (induction lines)
  case (Cons line lines)
  show ?case
  proof (cases "split line = [] \<or> hd (split line) \<noteq> ''cpu''")
    case True
    with Cons show ?thesis by (auto simp: Let_def)
  next
    case False
    with Cons.prems have len: "\<not> length (split line) < 5" by (auto simp: Let_def split: if_splits)
    with False Cons.prems obtain counters where
      cs: "etraverse int_of_text (tl (split line)) = Inr counters"
        "\<not> list_ex (\<lambda>c. c < 0) counters"
        "total_j = sum_list (take 8 counters)"
        "idle_j = counters ! 3 + (if 4 < length counters then counters ! 4 else 0)"
      by (auto simp: Let_def split: sum.splits if_splits)
    have "length counters = length (tl (split line))"
      using cs(1) unfolding etraverse_Inr_iff by (metis list_all2_lengthD)
    with len have "4 \<le> length counters" by simp
    moreover have "list_all (\<lambda>c. 0 \<le> c) counters"
      using cs(2) by (auto simp: list_all_iff list_ex_iff not_less)
    ultimately show ?thesis using idle_within_total [of counters] cs(3,4) by simp
  qed
qed simp

text \<open>How the kernel prints the aggregate line, and that the parser reads it back.\<close>

definition print_counters :: "int list \<Rightarrow> string" where
  "print_counters cs = join '' '' (''cpu'' # map show_int cs)"

lemma parse_show_ints:
  assumes "list_all (\<lambda>n. nat \<bar>n\<bar> < 10 ^ max_str_digits) ns"
  shows "etraverse int_of_text (map show_int ns) = Inr ns"
  using assms by (induction ns) (auto simp: int_of_text_show_int)

lemma split_print_counters: "split (print_counters cs) = ''cpu'' # map show_int cs"
proof -
  have "plain_word ''cpu''" by (simp add: plain_word_def is_space_def)
  then show ?thesis
    unfolding print_counters_def
    by (intro split_join) (auto simp: list_all_iff show_int_plain)
qed

lemma proc_stat_lines_skip:
  "list_all (\<lambda>l. split l = [] \<or> hd (split l) \<noteq> ''cpu'') pre
     \<Longrightarrow> proc_stat_lines (pre @ lines) = proc_stat_lines lines"
  by (induction pre) (auto simp: Let_def)

lemma proc_stat_lines_print:
  assumes "list_all (\<lambda>n. nat \<bar>n\<bar> < 10 ^ max_str_digits) cs" "list_all (\<lambda>c. 0 \<le> c) cs" "4 \<le> length cs"
  shows "proc_stat_lines (print_counters cs # post) =
    Some (sum_list (take 8 cs), cs ! 3 + (if 4 < length cs then cs ! 4 else 0))"
proof -
  have "\<not> list_ex (\<lambda>c. c < 0) cs" using assms(2) by (auto simp: list_ex_iff list_all_iff)
  then show ?thesis
    using assms(3) parse_show_ints [OF assms(1)] by (simp add: split_print_counters Let_def)
qed

text \<open>Printed integers and counter lines hold no line break.\<close>

lemma space_if_linebreak: "is_linebreak c \<Longrightarrow> is_space c"
  by (auto simp: is_linebreak_def is_space_def Let_def)

lemma plain_word_line: "plain_word w \<Longrightarrow> plain_line w"
  using space_if_linebreak by (auto simp: plain_word_def plain_line_def list_all_iff)

lemma plain_line_join:
  "list_all plain_line ws \<Longrightarrow> plain_line sep \<Longrightarrow> plain_line (join sep ws)"
  by (induction sep ws rule: join.induct) (auto simp: plain_line_def)

lemma plain_line_counters: "plain_line (print_counters cs)"
proof -
  have "plain_line ''cpu''" "plain_line '' ''" by (simp_all add: plain_line_def is_linebreak_def)
  then show ?thesis
    unfolding print_counters_def
    by (intro plain_line_join) (auto simp: list_all_iff show_int_plain plain_word_line)
qed

section \<open>Properties of the memory quantities\<close>

text \<open>Every stored quantity is non-negative: negative amounts are skipped.\<close>

lemma meminfo_line_nonneg:
  assumes "\<forall>k n. dict_get m k = Some n \<longrightarrow> 0 \<le> n"
  shows "\<forall>k n. dict_get (meminfo_line l m) k = Some n \<longrightarrow> 0 \<le> n"
  using assms by (auto simp: meminfo_line_def Let_def dict_simps split: prod.splits sum.splits if_splits)

lemma fold_invariant':
  "I a \<Longrightarrow> (\<And>x b. I b \<Longrightarrow> I (f x b)) \<Longrightarrow> I (fold f xs a)"
  by (induction xs arbitrary: a) auto

lemma meminfo_values_nonneg: "dict_get (meminfo_values text) k = Some n \<Longrightarrow> 0 \<le> n"
proof -
  have "\<forall>k n. dict_get (meminfo_values text) k = Some n \<longrightarrow> 0 \<le> n"
    unfolding meminfo_values_def
    by (rule fold_invariant' [where I = "\<lambda>m. \<forall>k n. dict_get m k = Some n \<longrightarrow> 0 \<le> n"])
      (auto intro: meminfo_line_nonneg [rule_format])
  then show "dict_get (meminfo_values text) k = Some n \<Longrightarrow> 0 \<le> n" by blast
qed

lemma available_fallback_bounds:
  assumes "\<And>t. tot = Some t \<Longrightarrow> 0 \<le> t"
  shows "0 \<le> available_fallback m tot f" "tot = Some t \<Longrightarrow> available_fallback m tot f \<le> t"
  using assms by (auto simp: available_fallback_def Let_def split: option.splits)

text \<open>A listing as the kernel prints it: one quantity in kB per line.\<close>

definition print_meminfo :: "(string \<times> int) list \<Rightarrow> string" where
  "print_meminfo kvs = unlines (map (\<lambda>(k, n). k @ '': '' @ show_int n @ '' kB'') kvs)"

definition meminfo_key :: "string \<Rightarrow> bool" where
  "meminfo_key k \<longleftrightarrow> plain_word k \<and> CHR '':'' \<notin> set k"

lemma meminfo_line_print:
  assumes "meminfo_key k" "0 \<le> n" "nat n < 10 ^ max_str_digits"
  shows "meminfo_line (k @ '': '' @ show_int n @ '' kB'') m = dict_set k (n * 1024) m"
proof -
  have "partition_at (CHR '':'') (k @ '': '' @ show_int n @ '' kB'')
      = (k, True, '' '' @ show_int n @ '' kB'')"
    using partition_at_found [of "CHR '':''" k "'' '' @ show_int n @ '' kB''"] assms(1)
    by (simp add: meminfo_key_def)
  moreover have "split ('' '' @ show_int n @ '' kB'') = [show_int n, ''kB'']"
  proof -
    have "plain_word ''kB''" by (simp add: plain_word_def is_space_def)
    then have "split (join '' '' [show_int n, ''kB'']) = [show_int n, ''kB'']"
      by (intro split_join) (simp add: show_int_plain)
    then show ?thesis by (simp add: split_leading_space)
  qed
  moreover have "lower ''kB'' = ''kb''" by code_simp
  ultimately show ?thesis
    using assms strip_idem_plain [of k] int_of_text_show_int [of n]
    by (simp add: meminfo_line_def meminfo_key_def)
qed

lemma meminfo_values_print:
  assumes "list_all (\<lambda>(k, n). meminfo_key k \<and> 0 \<le> n \<and> nat n < 10 ^ max_str_digits) kvs"
  shows "meminfo_values (print_meminfo kvs) = fold (\<lambda>(k, n). dict_set k (n * 1024)) kvs []"
proof -
  have lines: "list_all plain_line (map (\<lambda>(k, n). k @ '': '' @ show_int n @ '' kB'') kvs)"
  proof -
    have "plain_line '': ''" "plain_line '' kB''" by (simp_all add: plain_line_def is_linebreak_def)
    moreover have "plain_line (show_int n)" for n by (intro plain_word_line show_int_plain)
    ultimately show ?thesis
      using assms plain_word_line
      by (auto simp: list_all_iff meminfo_key_def plain_line_def)
  qed
  have "fold meminfo_line (map (\<lambda>(k, n). k @ '': '' @ show_int n @ '' kB'') kvs) m
      = fold (\<lambda>(k, n). dict_set k (n * 1024)) kvs m" for m
    using assms by (induction kvs arbitrary: m) (auto simp: meminfo_line_print simp del: append_Cons)
  then show ?thesis
    unfolding meminfo_values_def print_meminfo_def splitlines_unlines [OF lines] .
qed


section \<open>Properties of the disk counters\<close>

text \<open>
  One line is no row of a selected device, a malformed row, or a device with its two sector
  counts. The loop is the sum over the rows unless some row is malformed or a listed device is
  missing.
\<close>

datatype disk_row = NoRow | BadRow | Row string int int

definition disk_row :: "string list option \<Rightarrow> string \<Rightarrow> disk_row" where
  "disk_row devices line =
     (let fs = split line in
      if length fs \<le> 2 \<or> \<not> disk_selected devices (fs ! 2) then NoRow
      else if length fs < 10 then BadRow
      else case (int_of_text (fs ! 5), int_of_text (fs ! 9)) of
        (Inr r, Inr w) \<Rightarrow> if r < 0 \<or> w < 0 then BadRow else Row (fs ! 2) r w
      | _ \<Rightarrow> BadRow)"

fun row_name :: "disk_row \<Rightarrow> string list" where
  "row_name (Row n _ _) = [n]" | "row_name _ = []"

fun row_reads :: "disk_row \<Rightarrow> int" where
  "row_reads (Row _ r _) = r" | "row_reads _ = 0"

fun row_writes :: "disk_row \<Rightarrow> int" where
  "row_writes (Row _ _ w) = w" | "row_writes _ = 0"

definition devices_complete :: "string list option \<Rightarrow> string set \<Rightarrow> bool" where
  "devices_complete devices seen \<longleftrightarrow>
     seen \<noteq> {} \<and> (case devices of Some ds \<Rightarrow> seen = set ds | None \<Rightarrow> True)"

lemma diskstats_lines_rows:
  "diskstats_lines devices seen rd wr lines =
     (let rows = map (disk_row devices) lines in
      if BadRow \<in> set rows \<or> \<not> devices_complete devices (set seen \<union> set (concat (map row_name rows)))
      then None
      else Some ((rd + sum_list (map row_reads rows)) * 512,
                 (wr + sum_list (map row_writes rows)) * 512))"
proof (induction lines arbitrary: seen rd wr)
  case Nil
  then show ?case by (auto simp: devices_complete_def Let_def split: option.splits)
next
  case (Cons line lines)
  show ?case
  proof (cases "disk_row devices line")
    case NoRow
    then have "diskstats_lines devices seen rd wr (line # lines) = diskstats_lines devices seen rd wr lines"
      by (auto simp: disk_row_def Let_def split: if_splits sum.splits)
    with Cons.IH [of seen rd wr] NoRow show ?thesis by (simp add: Let_def)
  next
    case BadRow
    then have "diskstats_lines devices seen rd wr (line # lines) = None"
      by (auto simp: disk_row_def Let_def split: if_splits sum.splits)
    with BadRow show ?thesis by (simp add: Let_def)
  next
    case (Row n r w)
    then have "diskstats_lines devices seen rd wr (line # lines)
        = diskstats_lines devices (List.insert n seen) (rd + r) (wr + w) lines"
      by (auto simp: disk_row_def Let_def split: if_splits sum.splits)
    with Cons.IH [of "List.insert n seen" "rd + r" "wr + w"] Row show ?thesis
      by (simp add: Let_def add.assoc)
  qed
qed

lemma disk_row_nonneg: "0 \<le> row_reads (disk_row devices l)" "0 \<le> row_writes (disk_row devices l)"
  by (auto simp: disk_row_def Let_def split: sum.splits)

lemma parse_diskstats_nonneg:
  assumes "parse_diskstats text devices = Some (r, w)"
  shows "0 \<le> r \<and> 0 \<le> w"
proof -
  have "0 \<le> sum_list (map row_reads (map (disk_row devices) ls))"
    "0 \<le> sum_list (map row_writes (map (disk_row devices) ls))" for ls
    by (intro sum_list_nonneg; auto simp: disk_row_nonneg)+
  with assms show ?thesis
    by (auto simp: parse_diskstats_def diskstats_lines_rows Let_def split: if_splits)
qed

text \<open>A partition of a letter-named disk is the disk's name followed by a number.\<close>

lemma lower_not_digit: "is_lower c \<Longrightarrow> \<not> is_digit c"
  by (simp add: is_lower_def is_digit_def)

lemma letters_after_no_digit: "letters_after p s \<Longrightarrow> s \<noteq> [] \<and> \<not> is_digit (last s)"
proof -
  assume "letters_after p s"
  then have r: "drop (length p) s \<noteq> []" "list_all is_lower (drop (length p) s)"
    by (auto simp: letters_after_def after_prefix_def split: if_splits option.splits)
  have "last s = last (drop (length p) s)" using r(1) by (simp add: last_drop)
  then have "is_lower (last s)" using r by (metis last_in_set list_all_iff)
  then show ?thesis using r(1) lower_not_digit by auto
qed

lemma partition_not_whole:
  assumes "letters_after ''sd'' d"
  shows "\<not> whole_device (d @ show_nat n)"
proof -
  have "is_digit (last (show_nat n))"
    using show_nat_digits [of n] show_nat_nonempty [of n] by (metis last_in_set list_all_iff)
  then have dig: "is_digit (last (d @ show_nat n))" by simp
  have "take 2 d = ''sd''"
    using assms by (auto simp: letters_after_def after_prefix_def is_prefix_def numeral_eq_Suc
        split: if_splits)
  then have d: "d = CHR ''s'' # CHR ''d'' # drop 2 d"
    using append_take_drop_id [of 2 d] by simp
  have "\<not> is_prefix ''nvme'' (d @ show_nat n)" "\<not> is_prefix ''mmcblk'' (d @ show_nat n)"
    by (subst d, simp add: is_prefix_def)+
  moreover have "\<not> letters_after p (d @ show_nat n)" for p
    using dig letters_after_no_digit by blast
  ultimately show ?thesis
    by (simp add: whole_device_def nvme_namespace_def after_prefix_def)
qed

section \<open>Properties of the CPU identity\<close>

lemma cpu_block_step_counts:
  "cs_logical (cpu_block_step b s) \<le> Suc (cs_logical s)"
  "length (cs_cores (cpu_block_step b s)) \<le> Suc (length (cs_cores s))"
  "distinct (cs_cores s) \<Longrightarrow> distinct (cs_cores (cpu_block_step b s))"
  by (auto simp: cpu_block_step_def Let_def List.insert_def split: option.splits)

lemma cpu_scan_cores_distinct: "distinct (cs_cores (cpu_scan_text text))"
  unfolding cpu_scan_text_def
  by (rule fold_invariant' [where I = "\<lambda>s. distinct (cs_cores s)"])
    (auto intro: cpu_block_step_counts)

section \<open>Properties of temperatures\<close>

lemma millidegrees_range:
  "millidegrees t = Some v \<Longrightarrow> flt_le min_temperature v \<and> flt_le v max_temperature"
  by (auto simp: millidegrees_def split: option.splits sum.splits pyfloat.splits if_splits)

section \<open>What the parsers promise\<close>

text \<open>
  C32: the aggregate line of \<open>/proc/stat\<close>, printed by the kernel among any other lines, is
  read back: the total is the sum of the first eight columns (the guest columns are not counted
  twice) and the idle count is the idle column plus the I/O-wait column when there is one.
\<close>

theorem proc_stat_roundtrip:
  assumes "list_all plain_line (pre @ post)"
    and "list_all (\<lambda>l. split l = [] \<or> hd (split l) \<noteq> ''cpu'') pre"
    and "list_all (\<lambda>c. 0 \<le> c \<and> nat c < 10 ^ max_str_digits) cs" and "4 \<le> length cs"
  shows "parse_proc_stat (unlines (pre @ print_counters cs # post)) =
    Some (sum_list (take 8 cs), cs ! 3 + (if 4 < length cs then cs ! 4 else 0))"
proof -
  have "splitlines (unlines (pre @ print_counters cs # post)) = pre @ print_counters cs # post"
    by (rule splitlines_unlines) (use assms(1) plain_line_counters in auto)
  moreover have "list_all (\<lambda>n. nat \<bar>n\<bar> < 10 ^ max_str_digits) cs" "list_all (\<lambda>c. 0 \<le> c) cs"
    using assms(3) by (auto simp: list_all_iff)
  ultimately show ?thesis
    using assms(2,4)
    by (simp only: parse_proc_stat_def proc_stat_lines_skip proc_stat_lines_print)
qed

lemma nine_le_max_digits: "9 \<le> max_str_digits"
  by (simp add: max_str_digits_def)

lemma small_within_digits:
  "n < 10 ^ 9 \<Longrightarrow> n < (10 :: nat) ^ max_str_digits" "i < 10 ^ 9 \<Longrightarrow> i < (10 :: int) ^ max_str_digits"
  using power_increasing [OF nine_le_max_digits, of "10 :: nat"]
    power_increasing [OF nine_le_max_digits, of "10 :: int"] by linarith+

theorem proc_stat_roundtrip_witness:
  "parse_proc_stat (unlines ([''intr 5''] @ print_counters [10, 2, 3, 80, 5, 0, 0, 0, 7, 9] # [''cpu0 1''])) =
     Some (100, 85)"
proof -
  have "split ''intr 5'' = [''intr'', ''5'']" by code_simp
  moreover have "list_all plain_line [''intr 5'', ''cpu0 1'']" by code_simp
  ultimately show ?thesis
    by (subst proc_stat_roundtrip) (simp_all add: small_within_digits)
qed

text \<open>
  Whatever the text of \<open>/proc/stat\<close> is, a parsed counter pair has an idle count between
  zero and the total.
\<close>

theorem proc_stat_idle_within_total:
  "case parse_proc_stat text of None \<Rightarrow> True | Some (tot, idle) \<Rightarrow> 0 \<le> idle \<and> idle \<le> tot"
  using proc_stat_lines_sound by (auto simp: parse_proc_stat_def split: option.splits)

text \<open>
  C31: whatever the text of \<open>/proc/meminfo\<close> is, the three quantities are consistent: each is a
  non-negative number of bytes or unsupported, and used memory is reported exactly when total and
  available are known with available at most total, and is then their difference.
\<close>

theorem meminfo_consistent:
  "\<exists>tot avail. (case tot of Some t \<Rightarrow> 0 \<le> t | None \<Rightarrow> True) \<and>
     (case avail of Some a \<Rightarrow> 0 \<le> a | None \<Rightarrow> True) \<and>
     parse_meminfo text =
       \<lparr>mr_total_bytes = bytes_measurement tot, mr_available_bytes = bytes_measurement avail,
        mr_used_bytes =
          (case (tot, avail) of
             (Some t, Some a) \<Rightarrow> if a \<le> t then Num (PInt (t - a)) else Unsupported
           | _ \<Rightarrow> Unsupported)\<rparr>"
proof -
  let ?m = "meminfo_values text"
  let ?t = "dict_get ?m ''MemTotal''"
  let ?a = "case dict_get ?m ''MemAvailable'' of Some a \<Rightarrow> Some a
            | None \<Rightarrow> map_option (available_fallback ?m ?t) (dict_get ?m ''MemFree'')"
  have "case ?t of Some t \<Rightarrow> 0 \<le> t | None \<Rightarrow> True"
    by (auto split: option.splits dest: meminfo_values_nonneg)
  moreover have "case ?a of Some a \<Rightarrow> 0 \<le> a | None \<Rightarrow> True"
    by (auto split: option.splits dest: meminfo_values_nonneg intro!: available_fallback_bounds(1))
  ultimately show ?thesis
    by (intro exI [of _ ?t] exI [of _ ?a]) (auto simp: parse_meminfo_def Let_def split: option.splits)
qed

text \<open>
  C30: a \<open>/proc/meminfo\<close> listing as the kernel prints it (one \<open>Key: n kB\<close> per line,
  the keys distinct) is read back: total and available are the listed amounts in bytes and used
  memory is their difference.
\<close>

theorem meminfo_roundtrip:
  assumes "list_all (\<lambda>(k, n). meminfo_key k \<and> 0 \<le> n \<and> nat n < 10 ^ max_str_digits) kvs"
    and "distinct (map fst kvs)"
    and "map_of kvs ''MemTotal'' = Some t" and "map_of kvs ''MemAvailable'' = Some a" and "a \<le> t"
  shows "parse_meminfo (print_meminfo kvs) =
    \<lparr>mr_total_bytes = Num (PInt (1024 * t)), mr_available_bytes = Num (PInt (1024 * a)),
     mr_used_bytes = Num (PInt (1024 * (t - a)))\<rparr>"
proof -
  have "dict_get (fold (\<lambda>(k, n). dict_set k (n * 1024)) kvs m) key =
      (case map_of kvs key of Some n \<Rightarrow> Some (n * 1024) | None \<Rightarrow> dict_get m key)" for key m
    using assms(2)
  proof (induction kvs arbitrary: m)
    case (Cons kv kvs)
    obtain k n where kv: "kv = (k, n)" by (cases kv)
    with Cons.prems have "map_of kvs k = None" by (simp add: map_of_eq_None_iff)
    with Cons kv show ?case by (cases "key = k") (simp_all add: dict_simps split: option.splits)
  qed simp
  then show ?thesis
    using meminfo_values_print [OF assms(1)] assms(3,4,5)
    by (simp add: parse_meminfo_def Let_def algebra_simps)
qed

theorem meminfo_roundtrip_witness:
  "parse_meminfo (print_meminfo [(''MemTotal'', 1000), (''MemFree'', 10), (''MemAvailable'', 400)]) =
    \<lparr>mr_total_bytes = Num (PInt 1024000), mr_available_bytes = Num (PInt 409600),
     mr_used_bytes = Num (PInt 614400)\<rparr>"
proof -
  have "list_all meminfo_key [''MemTotal'', ''MemFree'', ''MemAvailable'']" by code_simp
  then show ?thesis
    using meminfo_roundtrip [of "[(''MemTotal'', 1000), (''MemFree'', 10), (''MemAvailable'', 400)]" 1000 400]
    by (simp add: small_within_digits)
qed

text \<open>
  C34: the cumulative disk counters are the sums over the rows of the selected devices, in bytes of
  512-byte sectors; they are unsupported exactly when some selected row is malformed, when no
  selected device is present, or when a listed device is missing.
\<close>

theorem diskstats_sums:
  "parse_diskstats text devices =
     (let rows = map (disk_row devices) (splitlines text) in
      if BadRow \<in> set rows \<or> \<not> devices_complete devices (set (concat (map row_name rows))) then None
      else Some (sum_list (map row_reads rows) * 512, sum_list (map row_writes rows) * 512))"
  unfolding parse_diskstats_def by (simp add: diskstats_lines_rows Let_def)

definition demo_diskstats :: string where
  "demo_diskstats = unlines
     [''8 0 sda 1 0 100 0 1 0 40 0 0 0 0'', ''8 1 sda1 1 0 90 0 1 0 30 0 0 0 0'',
      ''259 0 nvme0n1 1 0 20 0 1 0 10 0 0 0 0'']"

text \<open>The witness: two disks are added up, the partition is left out.\<close>

theorem diskstats_sums_witness:
  "parse_diskstats demo_diskstats None = Some (120 * 512, 50 * 512)"
proof -
  have rows: "map (disk_row None) (splitlines demo_diskstats) = [Row ''sda'' 100 40, NoRow, Row ''nvme0n1'' 20 10]"
    by code_simp
  show ?thesis
    using diskstats_sums [of demo_diskstats None] by (simp add: rows devices_complete_def)
qed

end
