(* ===== verification/Linux_Host.thy ===== *)
theory Linux_Host
  imports Linux_Parse
begin

text \<open>
  The reader of src/sweatmeter/readers/linux.py: sensor discovery under \<open>/sys\<close>, block
  devices, and \<open>LinuxHostReader\<close> with its three pieces of state (the previous CPU counters,
  the previous disk counters with their time, the cached temperature file). The machine is a
  parameter of every operation: an environment that answers file reads, directory listings, the
  clock and the system name calls, \<open>None\<close> standing for an ordinary exception, which every
  one of these calls meets inside \<open>_safe\<close>.
\<close>

section \<open>The environment\<close>

type_synonym path = "string list"

definition path_str :: "path \<Rightarrow> string" where
  "path_str p = join ''/'' p"

definition path_name :: "path \<Rightarrow> string" where
  "path_name p = (if p = [] then [] else last p)"

record linux_env =
  le_read_text :: "path \<Rightarrow> string option"
  le_listdir :: "path \<Rightarrow> string list option"
  le_clock :: "obj option"
  le_gethostname :: "obj option"
  le_system :: "obj option"
  le_version :: "obj option"
  le_release :: "obj option"
  le_machine :: "obj option"
  le_python_version :: "obj option"

text \<open>
  The settings of the constructor, and the validation done by the \<open>StorageDevice\<close> constructor of baseaicore.
\<close>

record linux_config =
  lc_proc_root :: path
  lc_sys_root :: path
  lc_disk_devices :: "string list option"
  lc_storage_device :: "storage_device \<Rightarrow> storage_device result"

record linux_state =
  ls_previous_cpu :: "(int \<times> int) option"
  ls_previous_disk :: "(pyfloat \<times> int \<times> int) option"
  ls_temperature_file :: "path option"

definition linux_init :: linux_state where
  "linux_init = \<lparr>ls_previous_cpu = None, ls_previous_disk = None, ls_temperature_file = None\<rparr>"

section \<open>Sensor discovery\<close>

text \<open>A glob pattern with one star, given by what stands before and after the star.\<close>

definition glob_match :: "string \<Rightarrow> string \<Rightarrow> string \<Rightarrow> bool" where
  "glob_match pre suf name \<longleftrightarrow>
     length pre + length suf \<le> length name \<and> is_prefix pre name \<and> is_suffix suf name"

text \<open>\<open>_children\<close>: paths in one directory compare by their last component.\<close>

definition children :: "linux_env \<Rightarrow> path \<Rightarrow> string \<Rightarrow> string \<Rightarrow> path list" where
  "children env dir pre suf =
     (case le_listdir env dir of
        None \<Rightarrow> []
      | Some names \<Rightarrow> map (\<lambda>n. dir @ [n]) (sort (filter (glob_match pre suf) names)))"

definition optional_text :: "linux_env \<Rightarrow> path \<Rightarrow> string option" where
  "optional_text env p =
     (case le_read_text env p of
        None \<Rightarrow> None
      | Some v \<Rightarrow> if strip v = [] then None else Some (strip v))"

definition text_or_empty :: "string option \<Rightarrow> string" where
  "text_or_empty t = (case t of None \<Rightarrow> [] | Some s \<Rightarrow> s)"

definition preferred_zone_types :: "string list" where
  "preferred_zone_types =
     [''x86_pkg_temp'', ''cpu_thermal'', ''cpu-thermal'', ''coretemp'', ''k10temp'', ''acpitz'']"

definition cpu_hwmon_drivers :: "string list" where
  "cpu_hwmon_drivers =
     [''coretemp'', ''k10temp'', ''zenpower'', ''cpu_thermal'', ''cpu-thermal'', ''acpitz'']"

definition non_cpu_hwmon_drivers :: "string list" where
  "non_cpu_hwmon_drivers = [''amdgpu'', ''nouveau'', ''nvidia'', ''nvme'']"

text \<open>\<open>list.index\<close>, the length of the list when the item is absent.\<close>

fun index_or_length :: "'a list \<Rightarrow> 'a \<Rightarrow> nat" where
  "index_or_length [] y = 0"
| "index_or_length (x # xs) y = (if x = y then 0 else Suc (index_or_length xs y))"

text \<open>
  Candidates are tuples of priority, name, reading and path; names are distinct within one
  discovery, so sorting the tuples is sorting by priority and name.
\<close>

type_synonym candidate = "nat \<times> string \<times> pyfloat \<times> path"

definition candidate_key :: "candidate \<Rightarrow> nat \<times> string" where
  "candidate_key c = (fst c, fst (snd c))"

definition thermal_zone_candidate :: "linux_env \<Rightarrow> path \<Rightarrow> candidate option" where
  "thermal_zone_candidate env zone =
     (let zone_type = lower (text_or_empty (optional_text env (zone @ [''type'']))) in
      case millidegrees (optional_text env (zone @ [''temp''])) of
        None \<Rightarrow> None
      | Some temperature \<Rightarrow>
          Some (index_or_length preferred_zone_types zone_type, path_name zone, temperature,
                zone @ [''temp'']))"

definition thermal_zone_candidates :: "linux_env \<Rightarrow> path \<Rightarrow> candidate list" where
  "thermal_zone_candidates env dir =
     sort_key candidate_key
       (List.map_filter (thermal_zone_candidate env) (children env dir ''thermal_zone'' []))"

definition label_path :: "path \<Rightarrow> path" where
  "label_path p = butlast p @ [remove_suffix ''_input'' (path_name p) @ ''_label'']"

definition hwmon_file_candidate :: "linux_env \<Rightarrow> string \<Rightarrow> path \<Rightarrow> candidate option" where
  "hwmon_file_candidate env driver file =
     (case millidegrees (optional_text env file) of
        None \<Rightarrow> None
      | Some temperature \<Rightarrow>
          (let label = lower (text_or_empty (optional_text env (label_path file)));
               cpu_label = list_ex (\<lambda>t. contains t label) [''package'', ''tctl'', ''tdie'', ''cpu''];
               priority = (if driver \<in> set cpu_hwmon_drivers \<or> cpu_label then 0 else 1)
           in Some (priority, path_str file, temperature, file)))"

definition hwmon_dir_candidates :: "linux_env \<Rightarrow> path \<Rightarrow> candidate list" where
  "hwmon_dir_candidates env hwmon =
     (let driver = lower (text_or_empty (optional_text env (hwmon @ [''name'']))) in
      if driver \<in> set non_cpu_hwmon_drivers then []
      else List.map_filter (hwmon_file_candidate env driver) (children env hwmon ''temp'' ''_input''))"

definition hwmon_candidates :: "linux_env \<Rightarrow> path \<Rightarrow> candidate list" where
  "hwmon_candidates env dir =
     sort_key candidate_key
       (concat (map (hwmon_dir_candidates env) (children env dir ''hwmon'' [])))"

definition first_reading :: "candidate list \<Rightarrow> measurement" where
  "first_reading cs =
     (case cs of [] \<Rightarrow> Unsupported | (_, _, temperature, _) # _ \<Rightarrow> Num (PFlt temperature))"

definition read_thermal_zones :: "linux_env \<Rightarrow> path \<Rightarrow> measurement" where
  "read_thermal_zones env dir = first_reading (thermal_zone_candidates env dir)"

definition read_hwmon :: "linux_env \<Rightarrow> path \<Rightarrow> measurement" where
  "read_hwmon env dir = first_reading (hwmon_candidates env dir)"

section \<open>Block devices\<close>

definition block_size :: "string option \<Rightarrow> measurement" where
  "block_size size_text =
     (case size_text of
        None \<Rightarrow> Unsupported
      | Some t \<Rightarrow>
          (let sectors = (case int_of_text t of Inl _ \<Rightarrow> - 1 | Inr n \<Rightarrow> n)
           in if 0 \<le> sectors then Num (PInt (sectors * 512)) else Unsupported))"

definition rotational_flag :: "string option \<Rightarrow> bool option" where
  "rotational_flag t =
     (case t of
        None \<Rightarrow> None
      | Some s \<Rightarrow> if s = ''0'' then Some False else if s = ''1'' then Some True else None)"

definition block_device :: "linux_env \<Rightarrow> path \<Rightarrow> storage_device" where
  "block_device env device =
     \<lparr>sd_name = path_name device,
      sd_size_bytes = block_size (optional_text env (device @ [''size''])),
      sd_model = optional_text env (device @ [''device'', ''model'']),
      sd_rotational = rotational_flag (optional_text env (device @ [''queue'', ''rotational'']))\<rparr>"

definition read_block_devices ::
  "(storage_device \<Rightarrow> storage_device result) \<Rightarrow> linux_env \<Rightarrow> path \<Rightarrow> storage_device list result" where
  "read_block_devices mk_device env dir =
     etraverse (\<lambda>device. mk_device (block_device env device))
       (filter (\<lambda>device. whole_device (path_name device)) (children env dir [] []))"

section \<open>The reader\<close>

definition proc_text :: "linux_config \<Rightarrow> linux_env \<Rightarrow> path \<Rightarrow> string option" where
  "proc_text cfg env name = le_read_text env (lc_proc_root cfg @ name)"

definition percent_of_deltas :: "int \<Rightarrow> int \<Rightarrow> measurement result" where
  "percent_of_deltas total_delta idle_delta =
     emap (\<lambda>x. Num (num_min (PFlt (Fin 100)) (num_max (PFlt (Fin 0)) x)))
       (ebind (num_mul (PInt (total_delta - idle_delta)) (PFlt (Fin 100)))
          (\<lambda>m. num_div m (PInt total_delta)))"

definition cpu_percent ::
  "linux_config \<Rightarrow> linux_env \<Rightarrow> (linux_state, measurement) comp" where
  "cpu_percent cfg env s =
     (case (case proc_text cfg env [''stat''] of None \<Rightarrow> None | Some t \<Rightarrow> parse_proc_stat t) of
        None \<Rightarrow> (Inr Unsupported, s)
      | Some (t, i) \<Rightarrow>
          (let s' = s\<lparr>ls_previous_cpu := Some (t, i)\<rparr> in
           case ls_previous_cpu s of
             None \<Rightarrow> (Inr Unsupported, s')
           | Some (pt, pidle) \<Rightarrow>
               (let total_delta = t - pt; idle_delta = i - pidle in
                if total_delta \<le> 0 \<or> idle_delta < 0 \<or> total_delta < idle_delta
                then (Inr Unsupported, s')
                else (percent_of_deltas total_delta idle_delta, s'))))"

definition load_average_1m :: "linux_config \<Rightarrow> linux_env \<Rightarrow> (linux_state, measurement) comp" where
  "load_average_1m cfg env =
     creturn (case proc_text cfg env [''loadavg''] of None \<Rightarrow> Unsupported | Some t \<Rightarrow> parse_loadavg t)"

definition linux_memory ::
  "linux_config \<Rightarrow> linux_env \<Rightarrow> (linux_state, measurement memory_reading) comp" where
  "linux_memory cfg env =
     creturn (case proc_text cfg env [''meminfo''] of
       None \<Rightarrow> MemoryReading | Some t \<Rightarrow> parse_meminfo t)"

text \<open>A discovery result: the cache and the reading become those of the first candidate.\<close>

definition cpu_temperature :: "linux_config \<Rightarrow> linux_env \<Rightarrow> (linux_state, measurement) comp" where
  "cpu_temperature cfg env s =
     (case (case ls_temperature_file s of
              None \<Rightarrow> None
            | Some file \<Rightarrow> millidegrees (optional_text env file)) of
        Some temperature \<Rightarrow> (Inr (Num (PFlt temperature)), s)
      | None \<Rightarrow>
          (let s0 = s\<lparr>ls_temperature_file := None\<rparr> in
           case thermal_zone_candidates env (lc_sys_root cfg @ [''class'', ''thermal'']) of
             (_, _, temperature, file) # _ \<Rightarrow>
               (Inr (Num (PFlt temperature)), s0\<lparr>ls_temperature_file := Some file\<rparr>)
           | [] \<Rightarrow>
               (case hwmon_candidates env (lc_sys_root cfg @ [''class'', ''hwmon'']) of
                  (_, _, temperature, file) # _ \<Rightarrow>
                    (Inr (Num (PFlt temperature)), s0\<lparr>ls_temperature_file := Some file\<rparr>)
                | [] \<Rightarrow> (Inr Unsupported, s0))))"

text \<open>\<open>isinstance(now, (int, float))\<close> holds of booleans too.\<close>

fun int_or_float :: "obj \<Rightarrow> pynum option" where
  "int_or_float (ONum n) = Some n"
| "int_or_float (OBool b) = Some (PInt (if b then 1 else 0))"
| "int_or_float _ = None"

definition rate :: "int \<Rightarrow> int \<Rightarrow> pyfloat \<Rightarrow> measurement result" where
  "rate new old elapsed =
     (if old \<le> new then emap Num (num_div (PInt (new - old)) (PFlt elapsed)) else Inr Unsupported)"

definition disk_throughput ::
  "linux_config \<Rightarrow> linux_env \<Rightarrow> (linux_state, measurement disk_throughput) comp" where
  "disk_throughput cfg env s =
     (case (case proc_text cfg env [''diskstats''] of
              None \<Rightarrow> None | Some t \<Rightarrow> parse_diskstats t (lc_disk_devices cfg),
            case le_clock env of None \<Rightarrow> None | Some now \<Rightarrow> int_or_float now) of
        (Some (rd, wr), Some now) \<Rightarrow>
          (case ebind (num_isfinite now) (\<lambda>fin. emap (\<lambda>f. (fin, f)) (to_float now)) of
             Inl e \<Rightarrow> (Inl e, s)
           | Inr (False, _) \<Rightarrow> (Inr DiskThroughput, s)
           | Inr (True, now_f) \<Rightarrow>
               (let s' = s\<lparr>ls_previous_disk := Some (now_f, rd, wr)\<rparr> in
                case ls_previous_disk s of
                  None \<Rightarrow> (Inr DiskThroughput, s')
                | Some (then_f, prd, pwr) \<Rightarrow>
                    (let elapsed = fsub now_f then_f in
                     if flt_le elapsed (Fin 0) then (Inr DiskThroughput, s')
                     else (ebind (rate rd prd elapsed)
                             (\<lambda>r. emap (\<lambda>w. \<lparr>dt_read_bytes_per_sec = r, dt_write_bytes_per_sec = w\<rparr>)
                                    (rate wr pwr elapsed)), s'))))
      | _ \<Rightarrow> (Inr DiskThroughput, s))"

fun rss_lines :: "string list \<Rightarrow> measurement" where
  "rss_lines [] = Unsupported"
| "rss_lines (line # lines) =
     (case partition_at (CHR '':'') line of (key, separator, remainder) \<Rightarrow>
        if key \<noteq> ''VmRSS'' \<or> \<not> separator then rss_lines lines
        else let fs = split remainder in
          if length fs \<noteq> 2 \<or> lower (fs ! 1) \<noteq> ''kb'' then Unsupported
          else case int_of_text (hd fs) of
            Inl _ \<Rightarrow> Unsupported
          | Inr rss_kib \<Rightarrow> if 0 \<le> rss_kib then Num (PInt (rss_kib * 1024)) else Unsupported)"

definition process_rss_bytes :: "linux_config \<Rightarrow> linux_env \<Rightarrow> (linux_state, measurement) comp" where
  "process_rss_bytes cfg env =
     creturn (case proc_text cfg env [''self'', ''status''] of
       None \<Rightarrow> Unsupported | Some t \<Rightarrow> rss_lines (splitlines t))"

definition reported_text_of :: "obj option \<Rightarrow> reported_text" where
  "reported_text_of v =
     (case v of
        Some (OStr t) \<Rightarrow> if strip t = [] then NoText else Text (strip t)
      | _ \<Rightarrow> NoText)"

definition static_facts ::
  "linux_config \<Rightarrow> linux_env
     \<Rightarrow> (linux_state, (reported_text, measurement, storage_device list) host_facts) comp" where
  "static_facts cfg env =
     (let cpu = (case proc_text cfg env [''cpuinfo''] of
                   None \<Rightarrow> HostFacts | Some t \<Rightarrow> parse_cpuinfo t) in
      cbind (linux_memory cfg env) (\<lambda>mem.
      cbind (clift (read_block_devices (lc_storage_device cfg) env (lc_sys_root cfg @ [''block''])))
        (\<lambda>storage. creturn
          \<lparr>hf_hostname = reported_text_of (le_gethostname env),
           hf_os_name = reported_text_of (le_system env),
           hf_os_version = reported_text_of (le_version env),
           hf_kernel = reported_text_of (le_release env),
           hf_architecture = reported_text_of (le_machine env),
           hf_cpu_model = hf_cpu_model cpu,
           hf_physical_cores = hf_physical_cores cpu,
           hf_logical_cores = hf_logical_cores cpu,
           hf_ram_bytes = mr_total_bytes mem,
           hf_storage = storage,
           hf_python_version = reported_text_of (le_python_version env)\<rparr>)))"

section \<open>What a reader call does to the state\<close>

text \<open>The counters of one call, \<open>None\<close> when the file cannot be read or parsed.\<close>

definition cpu_counters :: "linux_config \<Rightarrow> linux_env \<Rightarrow> (int \<times> int) option" where
  "cpu_counters cfg env =
     (case proc_text cfg env [''stat''] of None \<Rightarrow> None | Some t \<Rightarrow> parse_proc_stat t)"

lemma cpu_percent_cases:
  "cpu_percent cfg env s =
     (case cpu_counters cfg env of
        None \<Rightarrow> (Inr Unsupported, s)
      | Some c \<Rightarrow>
          ((case ls_previous_cpu s of
              None \<Rightarrow> Inr Unsupported
            | Some p \<Rightarrow>
                if fst c - fst p \<le> 0 \<or> snd c - snd p < 0 \<or> fst c - fst p < snd c - snd p
                then Inr Unsupported
                else percent_of_deltas (fst c - fst p) (snd c - snd p)),
           s\<lparr>ls_previous_cpu := Some c\<rparr>))"
  by (auto simp: cpu_percent_def cpu_counters_def Let_def split: option.splits prod.splits)

lemma percent_of_deltas_range:
  "percent_of_deltas t i = Inr (Num x) \<Longrightarrow> num_le (PFlt (Fin 0)) x \<and> num_le x (PFlt (Fin 100))"
  using clamp_range [of "PFlt (Fin 0)" "PFlt (Fin 100)"]
  by (auto simp: percent_of_deltas_def emap_Inr_iff num_le_def)

text \<open>Runs of the delta readers: one environment per call.\<close>

fun run_calls :: "('e \<Rightarrow> ('s, 'a) comp) \<Rightarrow> 'e list \<Rightarrow> 's \<Rightarrow> 's" where
  "run_calls f [] s = s"
| "run_calls f (e # es) s = run_calls f es (snd (f e s))"

fun last_some :: "'a option \<Rightarrow> 'a option list \<Rightarrow> 'a option" where
  "last_some d [] = d"
| "last_some d (x # xs) = last_some (case x of None \<Rightarrow> d | Some v \<Rightarrow> Some v) xs"

lemma cpu_percent_previous:
  "ls_previous_cpu (snd (cpu_percent cfg env s)) =
     (case cpu_counters cfg env of None \<Rightarrow> ls_previous_cpu s | Some c \<Rightarrow> Some c)"
  by (simp add: cpu_percent_cases split: option.splits)

lemma cpu_percent_run_previous:
  "ls_previous_cpu (run_calls (cpu_percent cfg) envs s) =
     last_some (ls_previous_cpu s) (map (cpu_counters cfg) envs)"
  by (induction envs arbitrary: s) (simp_all add: cpu_percent_previous)

lemma rate_cases:
  "rate new old elapsed = Inr m \<Longrightarrow>
     (if old \<le> new then \<exists>v. m = Num v \<and> num_div (PInt (new - old)) (PFlt elapsed) = Inr v
      else m = Unsupported)"
  by (auto simp: rate_def emap_Inr_iff split: if_splits)

lemma fdiv_finite_nonneg:
  assumes "fdiv (Fin a) b = Inr v" "0 \<le> a" "flt_less (Fin 0) b"
  shows "flt_nonneg v"
  using assms by (cases b) (auto intro!: rnd_intros split: if_splits)

lemma rate_nonneg:
  assumes "rate new old elapsed = Inr (Num v)" and "flt_less (Fin 0) elapsed"
  shows "num_nonneg v"
proof -
  have le: "old \<le> new" and d: "num_div (PInt (new - old)) (PFlt elapsed) = Inr v"
    using rate_cases [OF assms(1)] by (auto split: if_splits)
  then obtain f q where f: "float_of_int (new - old) = Inr f" "fdiv f elapsed = Inr q" "v = PFlt q"
    by (auto simp: float_op_def ebind_Inr_iff emap_Inr_iff)
  obtain a where "f = Fin a" using f(1) by (auto simp: float_of_int_Inr)
  moreover have "flt_nonneg f" using f(1) le by (auto intro: float_of_int_nonneg)
  ultimately have "flt_nonneg q" using f(2) assms(2) fdiv_finite_nonneg by simp
  then show ?thesis using f(3) by (simp add: num_nonneg_def num_le_def flt_nonneg_le)
qed

lemma fsub_finite_not_nan: "fsub (Fin a) (Fin b) \<noteq> NaN"
  by (simp add: fsub_def)

lemma flt_pos_if_not_le: "x \<noteq> NaN \<Longrightarrow> \<not> flt_le x (Fin 0) \<Longrightarrow> flt_less (Fin 0) x"
  using flt_not_less [of "Fin 0" x] by auto

section \<open>Sensor candidates\<close>

definition candidate_ok :: "linux_env \<Rightarrow> candidate \<Rightarrow> bool" where
  "candidate_ok env c \<longleftrightarrow>
     (case c of (_, _, temperature, file) \<Rightarrow>
        millidegrees (optional_text env file) = Some temperature)"

lemma thermal_candidate_ok:
  "thermal_zone_candidate env zone = Some c \<Longrightarrow> candidate_ok env c"
  by (auto simp: thermal_zone_candidate_def candidate_ok_def Let_def split: option.splits)

lemma hwmon_candidate_ok: "hwmon_file_candidate env driver file = Some c \<Longrightarrow> candidate_ok env c"
  by (auto simp: hwmon_file_candidate_def candidate_ok_def Let_def split: option.splits)

lemma in_map_filter: "x \<in> set (List.map_filter f xs) \<longleftrightarrow> (\<exists>y \<in> set xs. f y = Some x)"
  by (induction xs) (auto simp: List.map_filter_def split: option.splits)

lemma thermal_candidates_ok: "c \<in> set (thermal_zone_candidates env dir) \<Longrightarrow> candidate_ok env c"
  by (auto simp: thermal_zone_candidates_def in_map_filter intro: thermal_candidate_ok)

lemma hwmon_candidates_ok: "c \<in> set (hwmon_candidates env dir) \<Longrightarrow> candidate_ok env c"
  by (auto simp: hwmon_candidates_def hwmon_dir_candidates_def in_map_filter Let_def
      intro: hwmon_candidate_ok split: if_splits)

lemma sort_key_head:
  assumes "sort_key f xs = y # ys" and "z \<in> set xs"
  shows "f y \<le> f z"
proof -
  have "sorted (map f (y # ys))" using assms(1) by (metis sorted_sort_key)
  moreover have "z \<in> set (y # ys)" using assms by (metis set_sort)
  ultimately show ?thesis by auto
qed

text \<open>A supported temperature was read from the file the reader now caches.\<close>

lemma cpu_temperature_cached:
  assumes "cpu_temperature cfg env s = (Inr (Num t), s')"
  shows "\<exists>file v. t = PFlt v \<and> ls_temperature_file s' = Some file \<and>
           millidegrees (optional_text env file) = Some v"
proof -
  let ?cached = "case ls_temperature_file s of None \<Rightarrow> None
                 | Some file \<Rightarrow> millidegrees (optional_text env file)"
  show ?thesis
  proof (cases ?cached)
    case (Some v)
    with assms show ?thesis by (auto simp: cpu_temperature_def split: option.splits)
  next
    case None
    let ?th = "thermal_zone_candidates env (lc_sys_root cfg @ [''class'', ''thermal''])"
    let ?hw = "hwmon_candidates env (lc_sys_root cfg @ [''class'', ''hwmon''])"
    from None assms have "\<exists>c. (c \<in> set ?th \<or> c \<in> set ?hw) \<and> t = PFlt (fst (snd (snd c))) \<and>
        ls_temperature_file s' = Some (snd (snd (snd c)))"
      by (force simp: cpu_temperature_def Let_def split: option.splits list.splits)
    then obtain c where c: "c \<in> set ?th \<or> c \<in> set ?hw" "t = PFlt (fst (snd (snd c)))"
      "ls_temperature_file s' = Some (snd (snd (snd c)))" by blast
    from c(1) have "c \<in> set ?th \<or> c \<in> set ?hw" .
    then have "candidate_ok env c" using thermal_candidates_ok hwmon_candidates_ok by blast
    with c show ?thesis by (auto simp: candidate_ok_def split: prod.splits)
  qed
qed

lemma cpu_temperature_hit:
  assumes "ls_temperature_file s = Some file" "millidegrees (optional_text env file) = Some v"
  shows "cpu_temperature cfg env s = (Inr (Num (PFlt v)), s)"
  using assms by (simp add: cpu_temperature_def)

section \<open>What the reader promises\<close>


definition demo_env :: "string \<Rightarrow> linux_env" where
  "demo_env stat =
     \<lparr>le_read_text = (\<lambda>p. if p = [''proc'', ''stat''] then Some stat else None),
      le_listdir = (\<lambda>_. None), le_clock = None, le_gethostname = None, le_system = None,
      le_version = None, le_release = None, le_machine = None, le_python_version = None\<rparr>"

definition demo_config :: linux_config where
  "demo_config = \<lparr>lc_proc_root = [''proc''], lc_sys_root = [''sys''], lc_disk_devices = None,
     lc_storage_device = Inr\<rparr>"


text \<open>
  C33: over any sequence of calls the CPU baseline is the last counter pair that could be read, so
  one failed reading does not lose the interval and a rollback starts afresh.
\<close>

theorem cpu_baseline_is_last_valid:
  "ls_previous_cpu (run_calls (cpu_percent cfg) envs linux_init) =
     last_some None (map (cpu_counters cfg) envs)"
  by (simp add: cpu_percent_run_previous linux_init_def)

text \<open>The stored time of the previous disk sample is always finite.\<close>

definition linux_ok :: "linux_state \<Rightarrow> bool" where
  "linux_ok s \<longleftrightarrow>
     (case ls_previous_disk s of None \<Rightarrow> True | Some (f, _, _) \<Rightarrow> \<exists>a. f = Fin a)"

lemma isfinite_to_float:
  "num_isfinite n = Inr True \<Longrightarrow> to_float n = Inr f \<Longrightarrow> \<exists>a. f = Fin a"
  by (cases n) (auto simp: float_of_int_Inr split: pyfloat.splits)

lemma disk_throughput_cases:
  assumes "disk_throughput cfg env s = (Inr d, s')" and "d \<noteq> DiskThroughput"
  obtains rd wr prd pwr then_f a where "ls_previous_disk s = Some (then_f, prd, pwr)"
    "\<not> flt_le (fsub (Fin a) then_f) (Fin 0)"
    "rate rd prd (fsub (Fin a) then_f) = Inr (dt_read_bytes_per_sec d)"
    "rate wr pwr (fsub (Fin a) then_f) = Inr (dt_write_bytes_per_sec d)"
  using assms
  by (fastforce simp: disk_throughput_def Let_def ebind_Inr_iff emap_Inr_iff dest: isfinite_to_float
      split: option.splits prod.splits sum.splits bool.splits if_splits)

text \<open>
  C28: disk throughput never reports a negative rate: a supported rate is a non-negative number, and
  without an earlier sample both rates are unsupported; every call keeps the stored time finite.
\<close>

theorem disk_rates_nonneg:
  assumes "linux_ok s" and "disk_throughput cfg env s = (r, s')"
  shows "(case r of Inl e \<Rightarrow> True
          | Inr d \<Rightarrow>
              (case dt_read_bytes_per_sec d of Num v \<Rightarrow> num_nonneg v | Unsupported \<Rightarrow> True)
            \<and> (case dt_write_bytes_per_sec d of Num v \<Rightarrow> num_nonneg v | Unsupported \<Rightarrow> True)
            \<and> (ls_previous_disk s = None \<longrightarrow> d = DiskThroughput))
    \<and> linux_ok s'"
proof
  show "linux_ok s'"
    using assms
    by (fastforce simp: disk_throughput_def linux_ok_def Let_def ebind_Inr_iff emap_Inr_iff
        dest: isfinite_to_float split: option.splits prod.splits sum.splits bool.splits if_splits)
  show "case r of Inl e \<Rightarrow> True
    | Inr d \<Rightarrow> (case dt_read_bytes_per_sec d of Num v \<Rightarrow> num_nonneg v | Unsupported \<Rightarrow> True)
        \<and> (case dt_write_bytes_per_sec d of Num v \<Rightarrow> num_nonneg v | Unsupported \<Rightarrow> True)
        \<and> (ls_previous_disk s = None \<longrightarrow> d = DiskThroughput)"
  proof (cases r)
    case (Inr d)
    show ?thesis
    proof (cases "d = DiskThroughput")
      case False
      with assms Inr obtain rd wr prd pwr then_f a where d: "ls_previous_disk s = Some (then_f, prd, pwr)"
        "\<not> flt_le (fsub (Fin a) then_f) (Fin 0)"
        "rate rd prd (fsub (Fin a) then_f) = Inr (dt_read_bytes_per_sec d)"
        "rate wr pwr (fsub (Fin a) then_f) = Inr (dt_write_bytes_per_sec d)"
        by (auto elim: disk_throughput_cases)
      obtain b where b: "then_f = Fin b" using assms(1) d(1) by (auto simp: linux_ok_def)
      have pos: "flt_less (Fin 0) (fsub (Fin a) then_f)"
        using d(2) fsub_finite_not_nan b by (auto intro: flt_pos_if_not_le)
      show ?thesis
        using d(1,3,4) rate_nonneg [OF _ pos] Inr by (auto split: measurement.splits)
    qed (simp add: Inr DiskThroughput_def)
  qed simp
qed

definition disk_env :: "string \<Rightarrow> int \<Rightarrow> linux_env" where
  "disk_env text now =
     (demo_env [])\<lparr>le_read_text := (\<lambda>p. if p = [''proc'', ''diskstats''] then Some text else None),
                   le_clock := Some (ONum (PInt now))\<rparr>"

text \<open>The witness: 100 sectors read and 50 written in two seconds.\<close>

definition demo_rates :: "measurement disk_throughput" where
  "demo_rates = \<lparr>dt_read_bytes_per_sec = Num (PFlt (Fin 25600)),
     dt_write_bytes_per_sec = Num (PFlt (Fin 12800))\<rparr>"

theorem disk_rates_nonneg_witness:
  "linux_ok linux_init \<and>
   fst (disk_throughput demo_config (disk_env ''8 0 sda 1 0 300 0 1 0 90'' 12)
     (snd (disk_throughput demo_config (disk_env ''8 0 sda 1 0 200 0 1 0 40'' 10) linux_init)))
   = Inr demo_rates \<and> num_nonneg (PFlt (Fin 25600))"
proof -
  let ?first = "disk_throughput demo_config (disk_env ''8 0 sda 1 0 200 0 1 0 40'' 10) linux_init"
  let ?second = "disk_throughput demo_config (disk_env ''8 0 sda 1 0 300 0 1 0 90'' 12) (snd ?first)"
  have init: "linux_ok linux_init" by (simp add: linux_ok_def linux_init_def)
  have ok: "linux_ok (snd ?first)"
    using disk_rates_nonneg [OF init, of demo_config _ "fst ?first" "snd ?first"] by simp
  have run: "fst ?second = Inr demo_rates" by code_simp
  have "?second = (Inr demo_rates, snd ?second)" by (simp only: run [symmetric] prod.collapse)
  from disk_rates_nonneg [OF ok this] run init show ?thesis by (simp add: demo_rates_def)
qed


definition thermal_env :: linux_env where
  "thermal_env =
     (demo_env [])\<lparr>
       le_read_text := (\<lambda>p.
         if p = [''sys'', ''class'', ''thermal'', ''thermal_zone0'', ''type''] then Some ''acpitz''
         else if p = [''sys'', ''class'', ''thermal'', ''thermal_zone0'', ''temp''] then Some ''30000''
         else if p = [''sys'', ''class'', ''thermal'', ''thermal_zone1'', ''type''] then Some ''x86_pkg_temp''
         else if p = [''sys'', ''class'', ''thermal'', ''thermal_zone1'', ''temp''] then Some ''54000''
         else None),
       le_listdir := (\<lambda>p. if p = [''sys'', ''class'', ''thermal'']
         then Some [''thermal_zone0'', ''cooling_device0'', ''thermal_zone1''] else None)\<rparr>"


end
