(* ===== verification/Nvidia_Csv.thy ===== *)
theory Nvidia_Csv
  imports Telemetry_Types
begin

text \<open>
  The CSV layer of src/sweatmeter/readers/nvidia.py: the record parser of Python's \<open>csv\<close>
  module as the code configures it (comma, double quote, doubled quotes, \<open>skipinitialspace\<close>,
  \<open>strict\<close>), applied to one line at a time, and \<open>_parse_nvidia_csv\<close>, which turns the
  lines into rows keyed by the requested column names.
\<close>

section \<open>One record\<close>

datatype csv_state = StartRecord | StartField | InField | InQuoted | QuoteInQuoted | EatNewline

text \<open>The field being read and the fields read so far are kept reversed.\<close>

record csv_parser =
  cp_state :: csv_state
  cp_field :: string
  cp_fields :: "string list"

definition csv_init :: csv_parser where
  "csv_init = \<lparr>cp_state = StartRecord, cp_field = [], cp_fields = []\<rparr>"

definition field_limit :: int where
  "field_limit = 131072"

definition csv_add :: "char \<Rightarrow> csv_state \<Rightarrow> csv_parser \<Rightarrow> csv_parser option" where
  "csv_add c st p =
     (if field_limit \<le> int (length (cp_field p)) then None
      else Some (p\<lparr>cp_field := c # cp_field p, cp_state := st\<rparr>))"

definition csv_save :: "csv_state \<Rightarrow> csv_parser \<Rightarrow> csv_parser" where
  "csv_save st p = p\<lparr>cp_fields := rev (cp_field p) # cp_fields p, cp_field := [], cp_state := st\<rparr>"

definition is_newline :: "char \<Rightarrow> bool" where
  "is_newline c \<longleftrightarrow> c = CHR 0x0A \<or> c = CHR 0x0D"

definition csv_start_field :: "char \<Rightarrow> csv_parser \<Rightarrow> csv_parser option" where
  "csv_start_field c p =
     (if is_newline c then Some (csv_save EatNewline p)
      else if c = CHR 0x22 then Some (p\<lparr>cp_state := InQuoted\<rparr>)
      else if c = CHR '' '' then Some (p\<lparr>cp_state := StartField\<rparr>)
      else if c = CHR '','' then Some (csv_save StartField p)
      else csv_add c InField p)"

text \<open>One character; \<open>None\<close> is \<open>csv.Error\<close>.\<close>

definition csv_char :: "char \<Rightarrow> csv_parser \<Rightarrow> csv_parser option" where
  "csv_char c p =
     (case cp_state p of
        StartRecord \<Rightarrow>
          if is_newline c then Some (p\<lparr>cp_state := EatNewline\<rparr>) else csv_start_field c p
      | StartField \<Rightarrow> csv_start_field c p
      | InField \<Rightarrow>
          if is_newline c then Some (csv_save EatNewline p)
          else if c = CHR '','' then Some (csv_save StartField p)
          else csv_add c InField p
      | InQuoted \<Rightarrow>
          if c = CHR 0x22 then Some (p\<lparr>cp_state := QuoteInQuoted\<rparr>) else csv_add c InQuoted p
      | QuoteInQuoted \<Rightarrow>
          if c = CHR 0x22 then csv_add c InQuoted p
          else if c = CHR '','' then Some (csv_save StartField p)
          else if is_newline c then Some (csv_save EatNewline p)
          else None
      | EatNewline \<Rightarrow> if is_newline c then Some p else None)"

fun csv_chars :: "string \<Rightarrow> csv_parser \<Rightarrow> csv_parser option" where
  "csv_chars [] p = Some p"
| "csv_chars (c # cs) p = (case csv_char c p of None \<Rightarrow> None | Some p' \<Rightarrow> csv_chars cs p')"

text \<open>
  The end of the only line: an open field is saved, an open quotation is an error since no further
  line follows.
\<close>

definition csv_end :: "csv_parser \<Rightarrow> string list option" where
  "csv_end p =
     (case cp_state p of
        InQuoted \<Rightarrow> None
      | StartRecord \<Rightarrow> Some (rev (cp_fields p))
      | EatNewline \<Rightarrow> Some (rev (cp_fields p))
      | _ \<Rightarrow> Some (rev (cp_fields (csv_save StartRecord p))))"

definition csv_record :: "string \<Rightarrow> string list option" where
  "csv_record line = (case csv_chars line csv_init of None \<Rightarrow> None | Some p \<Rightarrow> csv_end p)"

section \<open>Rows keyed by column\<close>

datatype parsed_cell = CellUnsupported | Cell string

definition unavailable_markers :: "string list" where
  "unavailable_markers =
     [[], ''n/a'', ''[n/a]'', ''not available'', ''[not available]'', ''not supported'',
      ''[not supported]'', ''unsupported'', ''[unsupported]'']"

definition normalize_cell :: "string \<Rightarrow> parsed_cell" where
  "normalize_cell cell =
     (let stripped = strip cell in
      if lower stripped \<in> set unavailable_markers then CellUnsupported else Cell stripped)"

type_synonym row = "(string, parsed_cell) dict"

record parsed_rows =
  pr_rows :: "row list"
  pr_malformed_count :: nat

text \<open>\<open>dict(zip(columns, cells))\<close>: a short row lacks its last columns, extra cells are dropped.\<close>

definition row_of_cells :: "string list \<Rightarrow> parsed_cell list \<Rightarrow> row" where
  "row_of_cells columns cells = dict_update [] (zip columns cells)"

definition csv_line_step :: "string list \<Rightarrow> string \<Rightarrow> parsed_rows \<Rightarrow> parsed_rows" where
  "csv_line_step columns line acc =
     (if strip line = [] then acc
      else case csv_record line of
        None \<Rightarrow> acc\<lparr>pr_malformed_count := Suc (pr_malformed_count acc)\<rparr>
      | Some cells \<Rightarrow> acc\<lparr>pr_rows := pr_rows acc @ [row_of_cells columns (map normalize_cell cells)]\<rparr>)"

definition parse_nvidia_csv_rows :: "string \<Rightarrow> string list \<Rightarrow> parsed_rows" where
  "parse_nvidia_csv_rows output columns =
     fold (csv_line_step columns) (splitlines output) \<lparr>pr_rows = [], pr_malformed_count = 0\<rparr>"

definition parse_nvidia_csv :: "string \<Rightarrow> string list \<Rightarrow> row list" where
  "parse_nvidia_csv output columns = pr_rows (parse_nvidia_csv_rows output columns)"

section \<open>Writing and reading back a record\<close>

text \<open>
  A cell in quotes, its quotes doubled; a record as the driver prints it, cells separated by a
  comma and a space.
\<close>

definition quote_cell :: "string \<Rightarrow> string" where
  "quote_cell c = [CHR 0x22] @ concat (map (\<lambda>d. if d = CHR 0x22 then [d, d] else [d]) c) @ [CHR 0x22]"

definition plain_cell :: "string \<Rightarrow> bool" where
  "plain_cell c \<longleftrightarrow>
     int (length c) \<le> field_limit \<and> list_all (\<lambda>d. d \<noteq> CHR '','' \<and> \<not> is_newline d) c
     \<and> (case c of [] \<Rightarrow> True | d # _ \<Rightarrow> d \<noteq> CHR '' '' \<and> d \<noteq> CHR 0x22)"

definition written_cell :: "string \<Rightarrow> string" where
  "written_cell c = (if plain_cell c then c else quote_cell c)"

definition written_record :: "string list \<Rightarrow> string" where
  "written_record cells = join '', '' (map written_cell cells)"

abbreviation field_parser :: "csv_state \<Rightarrow> string \<Rightarrow> string list \<Rightarrow> csv_parser" where
  "field_parser st f fs \<equiv> \<lparr>cp_state = st, cp_field = f, cp_fields = fs\<rparr>"

lemma csv_chars_append:
  "csv_chars (xs @ ys) p = (case csv_chars xs p of None \<Rightarrow> None | Some p' \<Rightarrow> csv_chars ys p')"
  by (induction xs arbitrary: p) (auto split: option.splits)

lemma csv_chars_in_field:
  assumes "list_all (\<lambda>d. d \<noteq> CHR '','' \<and> \<not> is_newline d) c" "int (length c + length f) \<le> field_limit"
  shows "csv_chars c (field_parser InField f fs) = Some (field_parser InField (rev c @ f) fs)"
  using assms
  by (induction c arbitrary: f) (auto simp: csv_char_def csv_add_def)

lemma csv_chars_quoted:
  assumes "int (length c + length f) \<le> field_limit"
  shows "csv_chars (concat (map (\<lambda>d. if d = CHR 0x22 then [d, d] else [d]) c)) (field_parser InQuoted f fs)
           = Some (field_parser InQuoted (rev c @ f) fs)"
  using assms
  by (induction c arbitrary: f) (auto simp: csv_char_def csv_add_def)

text \<open>What one printed cell leaves: an empty plain cell leaves the parser at the field's start.\<close>

definition cell_done :: "string \<Rightarrow> string list \<Rightarrow> csv_parser \<Rightarrow> bool" where
  "cell_done c fs p \<longleftrightarrow>
     (cp_state p \<in> {StartField, InField, QuoteInQuoted} \<and> cp_field p = rev c \<and> cp_fields p = fs)"

lemma csv_start_cell:
  assumes "int (length c) \<le> field_limit"
  shows "\<exists>p. csv_chars (written_cell c) (field_parser StartField [] fs) = Some p \<and> cell_done c fs p"
proof (cases "plain_cell c")
  case plain: True
  show ?thesis
  proof (cases c)
    case Nil
    with plain show ?thesis by (simp add: written_cell_def cell_done_def)
  next
    case (Cons d ds)
    with plain have d: "d \<noteq> CHR '' ''" "d \<noteq> CHR 0x22" "d \<noteq> CHR '',''" "\<not> is_newline d"
      "list_all (\<lambda>d. d \<noteq> CHR '','' \<and> \<not> is_newline d) ds" "int (length ds + 1) \<le> field_limit"
      by (auto simp: plain_cell_def)
    then have "csv_char d (field_parser StartField [] fs) = Some (field_parser InField [d] fs)"
      by (auto simp: csv_char_def csv_start_field_def csv_add_def)
    with d plain Cons csv_chars_in_field [of ds "[d]" fs] show ?thesis
      by (simp add: written_cell_def cell_done_def)
  qed
next
  case False
  have "csv_chars (quote_cell c) (field_parser StartField [] fs)
      = Some (field_parser QuoteInQuoted (rev c) fs)"
    using csv_chars_quoted [of c "[]" fs] assms
    by (simp add: quote_cell_def csv_char_def csv_start_field_def csv_chars_append is_newline_def)
  with False show ?thesis by (simp add: written_cell_def cell_done_def)
qed

lemma csv_comma:
  assumes "cell_done c fs p"
  shows "csv_chars '', '' p = Some (field_parser StartField [] (c # fs))"
  using assms
  by (cases p) (auto simp: cell_done_def csv_char_def csv_start_field_def csv_save_def is_newline_def)

lemma csv_end_cell: "cell_done c fs p \<Longrightarrow> csv_end p = Some (rev (c # fs))"
  by (cases p) (auto simp: cell_done_def csv_end_def csv_save_def)

lemma csv_cells:
  assumes "list_all (\<lambda>c. int (length c) \<le> field_limit) cells" "cells \<noteq> []"
  shows "(case csv_chars (written_record cells) (field_parser StartField [] fs) of
            None \<Rightarrow> None | Some p \<Rightarrow> csv_end p) = Some (rev fs @ cells)"
  using assms
proof (induction cells arbitrary: fs)
  case (Cons c cells)
  then obtain p where p: "csv_chars (written_cell c) (field_parser StartField [] fs) = Some p"
    "cell_done c fs p"
    using csv_start_cell [of c fs] by auto
  show ?case
  proof (cases cells)
    case Nil
    with p csv_end_cell [OF p(2)] show ?thesis by (simp add: written_record_def)
  next
    case (Cons d ds)
    then have "written_record (c # cells) = written_cell c @ '', '' @ written_record cells"
      by (simp add: written_record_def)
    then have "csv_chars (written_record (c # cells)) (field_parser StartField [] fs)
        = csv_chars (written_record cells) (field_parser StartField [] (c # fs))"
      by (simp only: csv_chars_append p(1) csv_comma [OF p(2)] option.case)
    with Cons.IH [of "c # fs"] Cons.prems Cons show ?thesis by simp
  qed
qed simp

lemma csv_start_record:
  assumes "s \<noteq> []" "\<not> is_newline (hd s)"
  shows "csv_chars s csv_init = csv_chars s (field_parser StartField [] [])"
  using assms by (cases s) (auto simp: csv_init_def csv_char_def csv_start_field_def csv_add_def csv_save_def)

lemma csv_record_written:
  assumes "list_all (\<lambda>c. int (length c) \<le> field_limit) cells" "written_record cells \<noteq> []"
    "\<not> is_newline (hd (written_record cells))"
  shows "csv_record (written_record cells) = Some cells"
proof -
  have "cells \<noteq> []" using assms(2) by (auto simp: written_record_def)
  then show ?thesis
    using csv_cells [OF assms(1), of "[]"] csv_start_record [OF assms(2,3)]
    by (simp add: csv_record_def)
qed

lemma lstrip_nil: "lstrip s = [] \<longleftrightarrow> list_all is_space s"
  by (simp add: lstrip_def dropWhile_eq_Nil_conv list_all_iff)

lemma strip_nil: "strip s = [] \<longleftrightarrow> list_all is_space s"
proof -
  have "list_all is_space (lstrip s) \<Longrightarrow> list_all is_space s"
    by (induction s) (auto simp: lstrip_def split: if_splits)
  moreover have "list_all is_space s \<Longrightarrow> list_all is_space (lstrip s)"
    by (simp add: lstrip_nil [THEN iffD2])
  ultimately show ?thesis by (auto simp: strip_def lstrip_nil)
qed

lemma join_in_set: "ss \<noteq> [] \<Longrightarrow> set (join sep ss) \<subseteq> set sep \<union> \<Union> (set ` set ss)"
  by (induction sep ss rule: join.induct) auto

lemma hd_in_join: "ss \<noteq> [] \<Longrightarrow> set (hd ss) \<subseteq> set (join sep ss)"
  by (induction sep ss rule: join.induct) auto

lemma quote_cell_set: "set c \<subseteq> set (quote_cell c)" "set (quote_cell c) \<subseteq> insert (CHR 0x22) (set c)"
  by (auto simp: quote_cell_def split: if_splits)

lemma written_cell_set: "set c \<subseteq> set (written_cell c)" "set (written_cell c) \<subseteq> insert (CHR 0x22) (set c)"
  using quote_cell_set [of c] by (auto simp: written_cell_def)

text \<open>A row the driver prints: short cells without line breaks, the first of them not blank.\<close>

definition printable_row :: "string list \<Rightarrow> bool" where
  "printable_row cells \<longleftrightarrow>
     cells \<noteq> [] \<and> list_all (\<lambda>c. int (length c) \<le> field_limit \<and> plain_line c) cells
     \<and> \<not> list_all is_space (hd cells)"

lemma printable_row_line:
  assumes "printable_row cells"
  shows "plain_line (written_record cells)" "strip (written_record cells) \<noteq> []"
    "csv_record (written_record cells) = Some cells"
proof -
  have cells: "map written_cell cells \<noteq> []" using assms by (simp add: printable_row_def)
  have "set (written_record cells) \<subseteq> {CHR '','', CHR '' '', CHR 0x22} \<union> \<Union> (set ` set cells)"
    using join_in_set [OF cells, of "'', ''"] written_cell_set(2) by (fastforce simp: written_record_def)
  moreover have "\<not> is_linebreak (CHR '','')" "\<not> is_linebreak (CHR '' '')" "\<not> is_linebreak (CHR 0x22)"
    by (simp_all add: is_linebreak_def)
  moreover have "c \<in> set cells \<Longrightarrow> d \<in> set c \<Longrightarrow> \<not> is_linebreak d" for c d
    using assms by (auto simp: printable_row_def plain_line_def list_all_iff)
  ultimately show line: "plain_line (written_record cells)"
    by (auto simp: plain_line_def list_all_iff)
  have "set (hd cells) \<subseteq> set (written_record cells)"
    using hd_in_join [OF cells, of "'', ''"] written_cell_set(1) [of "hd cells"] assms
    by (auto simp: written_record_def printable_row_def hd_map)
  then have "\<not> list_all is_space (written_record cells)"
    using assms by (auto simp: printable_row_def list_all_iff)
  then show "strip (written_record cells) \<noteq> []" by (simp add: strip_nil)
  have nonempty: "written_record cells \<noteq> []"
    using \<open>\<not> list_all is_space (written_record cells)\<close> by auto
  have "\<not> is_newline (hd (written_record cells))"
    using line hd_in_set [OF nonempty]
    by (auto simp: plain_line_def list_all_iff is_newline_def)
  then show "csv_record (written_record cells) = Some cells"
    using csv_record_written [OF _ nonempty] assms by (simp add: printable_row_def list_all_iff)
qed

lemma csv_line_step_written:
  "printable_row cells \<Longrightarrow> csv_line_step columns (written_record cells) acc =
     acc\<lparr>pr_rows := pr_rows acc @ [row_of_cells columns (map normalize_cell cells)]\<rparr>"
  by (simp add: csv_line_step_def printable_row_line)

lemma csv_rows_written:
  "list_all printable_row rows \<Longrightarrow>
     fold (csv_line_step columns) (map written_record rows) acc =
     acc\<lparr>pr_rows := pr_rows acc @ map (\<lambda>cells. row_of_cells columns (map normalize_cell cells)) rows\<rparr>"
  by (induction rows arbitrary: acc) (simp_all add: csv_line_step_written)

lemma map_of_rev_zip_map:
  "distinct ks \<Longrightarrow> map_of (rev (zip ks (map f ks))) k = (if k \<in> set ks then Some (f k) else None)"
proof -
  assume "distinct ks"
  then have "map_of (rev (zip ks (map f ks))) = map_of (zip ks (map f ks))"
    by (subst map_of_inject_set) (simp_all add: rev_map [symmetric])
  then show ?thesis by (simp add: map_of_zip_map)
qed

lemma row_of_cells_get:
  "distinct columns \<Longrightarrow> dict_get (row_of_cells columns (map f columns)) c =
     (if c \<in> set columns then Some (f c) else None)"
  by (simp add: row_of_cells_def dict_simps map_of_rev_zip_map)

lemma csv_table_read:
  assumes "distinct columns" and "list_all (\<lambda>v. printable_row (map v columns)) gpus"
  shows "list_all2 (\<lambda>row v. \<forall>c. dict_get row c =
             (if c \<in> set columns then Some (normalize_cell (v c)) else None))
           (parse_nvidia_csv (unlines (map (\<lambda>v. written_record (map v columns)) gpus)) columns) gpus
    \<and> pr_malformed_count
        (parse_nvidia_csv_rows (unlines (map (\<lambda>v. written_record (map v columns)) gpus)) columns) = 0"
proof -
  let ?rows = "map (\<lambda>v. map v columns) gpus"
  have rows: "list_all printable_row ?rows" using assms(2) by (simp add: list_all_iff)
  have "list_all plain_line (map written_record ?rows)"
    using rows printable_row_line(1) by (auto simp: list_all_iff)
  then have "splitlines (unlines (map written_record ?rows)) = map written_record ?rows"
    by (rule splitlines_unlines)
  then have "parse_nvidia_csv_rows (unlines (map written_record ?rows)) columns =
      \<lparr>pr_rows = map (\<lambda>cells. row_of_cells columns (map normalize_cell cells)) ?rows,
       pr_malformed_count = 0\<rparr>"
    by (simp only: parse_nvidia_csv_rows_def csv_rows_written [OF rows]) simp
  then have "parse_nvidia_csv_rows (unlines (map (\<lambda>v. written_record (map v columns)) gpus)) columns =
      \<lparr>pr_rows = map (\<lambda>v. row_of_cells columns (map (\<lambda>c. normalize_cell (v c)) columns)) gpus,
       pr_malformed_count = 0\<rparr>"
    by (simp add: comp_def)
  then show ?thesis
    using row_of_cells_get [OF assms(1)]
    by (simp add: parse_nvidia_csv_def list.rel_map list_all2_same)
qed

section \<open>What the CSV layer promises\<close>

text \<open>
  C35: values are read by column name. Whatever distinct columns are queried in whatever order, the
  rows the tool prints for them are read back as mappings that give for each queried column the
  normalized value of that column (its text without surrounding blanks, or the unsupported marker)
  and nothing for any other name; no line is counted as malformed.
\<close>

theorem nvidia_csv_by_name:
  assumes "distinct columns" and "list_all (\<lambda>v. printable_row (map v columns)) gpus"
  shows "list_all2 (\<lambda>row v. \<forall>c. dict_get row c =
             (if c \<in> set columns then Some (normalize_cell (v c)) else None))
           (parse_nvidia_csv (unlines (map (\<lambda>v. written_record (map v columns)) gpus)) columns) gpus
    \<and> pr_malformed_count
        (parse_nvidia_csv_rows (unlines (map (\<lambda>v. written_record (map v columns)) gpus)) columns) = 0"
  using csv_table_read [OF assms] .

definition demo_gpu :: "string \<Rightarrow> string" where
  "demo_gpu c =
     (if c = ''index'' then ''0'' else if c = ''name'' then ''Tesla, 80GB'' else '' [N/A] '')"

theorem nvidia_csv_by_name_witness:
  "printable_row (map demo_gpu [''index'', ''fan.speed'', ''name'']) \<and>
   map (\<lambda>row. dict_get row ''name'') (parse_nvidia_csv
     (unlines [written_record (map demo_gpu [''index'', ''fan.speed'', ''name''])])
     [''index'', ''fan.speed'', ''name'']) = [Some (Cell ''Tesla, 80GB'')]"
proof -
  have ok: "printable_row (map demo_gpu [''index'', ''fan.speed'', ''name''])" by code_simp
  have norm: "normalize_cell (demo_gpu ''name'') = Cell ''Tesla, 80GB''" by code_simp
  have "distinct [''index'', ''fan.speed'', ''name'']" by simp
  from nvidia_csv_by_name [OF this, of "[demo_gpu]"] ok norm
  show ?thesis by (auto simp: list_all2_Cons2)
qed

text \<open>
  C36: lines are independent. The rows of an output are the rows of its lines in order, and the
  malformed lines are counted one by one: a malformed line, wherever it stands, costs no other row.
\<close>

theorem nvidia_csv_lines_independent:
  assumes "list_all plain_line ls"
  shows "parse_nvidia_csv (unlines ls) columns =
      concat (map (\<lambda>l. parse_nvidia_csv (unlines [l]) columns) ls)
    \<and> pr_malformed_count (parse_nvidia_csv_rows (unlines ls) columns) =
      length (filter (\<lambda>l. strip l \<noteq> [] \<and> csv_record l = None) ls)"
proof -
  have one: "plain_line l \<Longrightarrow> parse_nvidia_csv (unlines [l]) columns =
      pr_rows (csv_line_step columns l \<lparr>pr_rows = [], pr_malformed_count = 0\<rparr>)" for l
    by (simp add: parse_nvidia_csv_def parse_nvidia_csv_rows_def splitlines_unlines)
  have step: "csv_line_step columns l acc =
      \<lparr>pr_rows = pr_rows acc @ pr_rows (csv_line_step columns l \<lparr>pr_rows = [], pr_malformed_count = 0\<rparr>),
       pr_malformed_count = pr_malformed_count acc
         + (if strip l \<noteq> [] \<and> csv_record l = None then 1 else 0)\<rparr>" for l acc
    by (simp add: csv_line_step_def split: option.splits)
  have "fold (csv_line_step columns) ls acc =
      \<lparr>pr_rows = pr_rows acc @ concat (map (\<lambda>l. parse_nvidia_csv (unlines [l]) columns) ls),
       pr_malformed_count = pr_malformed_count acc
         + length (filter (\<lambda>l. strip l \<noteq> [] \<and> csv_record l = None) ls)\<rparr>" for acc
    using assms
  proof (induction ls arbitrary: acc)
    case (Cons l ls)
    then show ?case by (simp add: one step [of l acc])
  qed simp
  then show ?thesis
    using assms by (simp add: parse_nvidia_csv_def parse_nvidia_csv_rows_def splitlines_unlines)
qed

theorem nvidia_csv_lines_independent_witness:
  "parse_nvidia_csv (unlines [''0, 7'', [CHR 0x22, CHR ''x''], ''1, 9'']) [''index'', ''power.draw''] =
     [[(''index'', Cell ''0''), (''power.draw'', Cell ''7'')],
      [(''index'', Cell ''1''), (''power.draw'', Cell ''9'')]]"
proof -
  have "list_all plain_line [''0, 7'', [CHR 0x22, CHR ''x''], ''1, 9'']" by code_simp
  note nvidia_csv_lines_independent [OF this, of "[''index'', ''power.draw'']"]
  moreover have
    "concat (map (\<lambda>l. parse_nvidia_csv (unlines [l]) [''index'', ''power.draw''])
       [''0, 7'', [CHR 0x22, CHR ''x''], ''1, 9'']) =
     [[(''index'', Cell ''0''), (''power.draw'', Cell ''7'')],
      [(''index'', Cell ''1''), (''power.draw'', Cell ''9'')]]"
    by code_simp
  ultimately show ?thesis by simp
qed

end
