(* ===== verification/Nvidia_Smi.thy ===== *)
theory Nvidia_Smi
  imports Nvidia_Csv Gpu_Contract
begin

text \<open>
  \<open>NvidiaSmiReader\<close> of src/sweatmeter/readers/nvidia.py. Resolving the executable, running a
  command and constructing a \<open>GpuProfile\<close> of baseaicore are parameters of the reader; the
  first two act on a world of their own and may raise. The state is the diagnostic mapping and
  that world.
\<close>

section \<open>Settings\<close>

text \<open>\<open>value or default\<close> for a text that may be missing or empty.\<close>

definition text_or :: "string \<Rightarrow> string option \<Rightarrow> string" where
  "text_or d t = (case t of None \<Rightarrow> d | Some s \<Rightarrow> if s = [] then d else s)"

record run_options =
  ro_capture_output :: bool
  ro_check :: bool
  ro_encoding :: string
  ro_errors :: string
  ro_shell :: bool
  ro_text :: bool
  ro_timeout :: pynum

record completed_process =
  returncode :: int
  stdout :: "string option"

record 'w smi_config =
  sc_executable :: string
  sc_runner :: "string list \<Rightarrow> run_options \<Rightarrow> ('w, completed_process) comp"
  sc_resolver :: "string \<Rightarrow> ('w, string option) comp"
  sc_timeout_seconds :: pynum
  sc_max_output_bytes :: int
  sc_gpu_profile :: "gpu_profile \<Rightarrow> gpu_profile result"

record 'w smi_state =
  ss_reasons :: reasons
  ss_world :: 'w

text \<open>The checks of the constructor, in its order, on the three settings it validates.\<close>

definition smi_positive_finite :: "obj \<Rightarrow> pynum result" where
  "smi_positive_finite timeout =
     (case timeout of
        ONum n \<Rightarrow>
          ebind (num_isfinite n)
            (\<lambda>finite. if \<not> finite \<or> num_le n (PInt 0) then Inl ValidationError else Inr n)
      | _ \<Rightarrow> Inl ValidationError)"

definition smi_init :: "obj \<Rightarrow> obj \<Rightarrow> obj \<Rightarrow> (string \<times> pynum \<times> int) result" where
  "smi_init executable timeout_seconds max_output_bytes =
     (case executable of
        OStr exe \<Rightarrow>
          if strip exe = [] then Inl ValidationError
          else ebind (smi_positive_finite timeout_seconds) (\<lambda>t.
            case max_output_bytes of
              ONum (PInt n) \<Rightarrow> if n \<le> 0 then Inl ValidationError else Inr (exe, t, n)
            | _ \<Rightarrow> Inl ValidationError)
      | _ \<Rightarrow> Inl ValidationError)"

section \<open>Running a command\<close>

definition smi_options :: "'w smi_config \<Rightarrow> run_options" where
  "smi_options cfg =
     \<lparr>ro_capture_output = True, ro_check = False, ro_encoding = ''utf-8'', ro_errors = ''replace'',
      ro_shell = False, ro_text = True, ro_timeout = sc_timeout_seconds cfg\<rparr>"

text \<open>Bytes of a text in UTF-8, its characters being below 256.\<close>

definition utf8_length :: "string \<Rightarrow> int" where
  "utf8_length s = sum_list (map (\<lambda>c. if code c < 128 then 1 else 2) s)"

text \<open>The \<open>except\<close> clauses of the two boundary calls; \<open>None\<close> lets the exception pass.\<close>

definition resolve_failure :: "exn \<Rightarrow> string option" where
  "resolve_failure e =
     (if e = PermissionError then Some ''permission_denied''
      else if is_os_error e then Some ''nvidia_smi_not_found''
      else None)"

definition command_failure :: "exn \<Rightarrow> string option" where
  "command_failure e =
     (if e = TimeoutExpired then Some ''nvidia_smi_timeout''
      else if e = FileNotFoundError then Some ''nvidia_smi_not_found''
      else if e = PermissionError then Some ''permission_denied''
      else if is_os_error e \<or> is_subprocess_error e then Some ''nvidia_smi_unavailable''
      else None)"

definition completed_output ::
  "'w smi_config \<Rightarrow> completed_process \<Rightarrow> string option \<times> string option" where
  "completed_output cfg completed =
     (if returncode completed \<noteq> 0 then (None, Some ''nvidia_smi_failed'')
      else (let output = text_or [] (stdout completed) in
            if sc_max_output_bytes cfg < utf8_length output
            then (None, Some ''nvidia_smi_output_too_large'')
            else (Some output, None)))"

text \<open>\<open>_invoke\<close>: bounded output, or a reason code.\<close>

definition smi_invoke ::
  "'w smi_config \<Rightarrow> string list \<Rightarrow> ('w smi_state, string option \<times> string option) comp" where
  "smi_invoke cfg arguments s =
     (case sc_resolver cfg (sc_executable cfg) (ss_world s) of
        (Inl e, w) \<Rightarrow>
          (case resolve_failure e of
             None \<Rightarrow> (Inl e, s\<lparr>ss_world := w\<rparr>)
           | Some reason \<Rightarrow> (Inr (None, Some reason), s\<lparr>ss_world := w\<rparr>))
      | (Inr found, w) \<Rightarrow>
          (let executable = text_or [] found in
           if executable = [] then (Inr (None, Some ''nvidia_smi_not_found''), s\<lparr>ss_world := w\<rparr>)
           else (case sc_runner cfg (executable # arguments) (smi_options cfg) w of
                   (Inl e, w') \<Rightarrow>
                     (case command_failure e of
                        None \<Rightarrow> (Inl e, s\<lparr>ss_world := w'\<rparr>)
                      | Some reason \<Rightarrow> (Inr (None, Some reason), s\<lparr>ss_world := w'\<rparr>))
                 | (Inr completed, w') \<Rightarrow>
                     (Inr (completed_output cfg completed), s\<lparr>ss_world := w'\<rparr>))))"

text \<open>A computation on the diagnostic mapping alone.\<close>

definition on_reasons :: "(reasons, 'a) comp \<Rightarrow> ('w smi_state, 'a) comp" where
  "on_reasons = czoom ss_reasons (\<lambda>r s. s\<lparr>ss_reasons := r\<rparr>)"

definition query_arguments :: "string list \<Rightarrow> string list" where
  "query_arguments columns =
     [''--query-gpu='' @ join '','' columns, ''--format=csv,noheader,nounits'']"

definition smi_query ::
  "'w smi_config \<Rightarrow> string list \<Rightarrow> string \<Rightarrow> ('w smi_state, row list) comp" where
  "smi_query cfg columns reason_key =
     cbind (smi_invoke cfg (query_arguments columns)) (\<lambda>(output, failure).
       case output of
         None \<Rightarrow>
           cbind (on_reasons (set_reason reason_key (text_or ''nvidia_smi_unavailable'' failure)))
             (\<lambda>_. creturn [])
       | Some text \<Rightarrow>
           (let parsed = parse_nvidia_csv_rows text columns in
            cbind (if pr_malformed_count parsed \<noteq> 0
                   then on_reasons (setdefault_reason reason_key ''malformed_csv'')
                   else creturn ())
              (\<lambda>_. creturn (pr_rows parsed))))"

section \<open>Reading rows\<close>

definition row_index :: "row \<Rightarrow> int" where
  "row_index r =
     (case dict_get r ''index'' of
        Some (Cell raw_index) \<Rightarrow> (case int_of_text raw_index of Inl _ \<Rightarrow> - 1 | Inr n \<Rightarrow> n)
      | _ \<Rightarrow> - 1)"

definition row_key :: "string \<Rightarrow> nat \<Rightarrow> string" where
  "row_key scope row_number = scope @ ''.row.'' @ show_nat row_number @ ''.index''"

fun index_rows ::
  "string \<Rightarrow> (nat \<times> row) list \<Rightarrow> (int, row) dict \<Rightarrow> (reasons, (int, row) dict) comp" where
  "index_rows scope [] indexed = creturn indexed"
| "index_rows scope ((row_number, r) # rows) indexed =
     (let index = row_index r in
      if index < 0
      then cbind (set_reason (row_key scope row_number) ''malformed_value'')
             (\<lambda>_. index_rows scope rows indexed)
      else if dict_get indexed index \<noteq> None
      then cbind (set_reason (row_key scope row_number) ''duplicate_gpu_index'')
             (\<lambda>_. index_rows scope rows indexed)
      else index_rows scope rows (dict_set index r indexed))"

definition rows_by_index :: "row list \<Rightarrow> string \<Rightarrow> (reasons, (int, row) dict) comp" where
  "rows_by_index rows scope = index_rows scope (enum_from 0 rows) []"

definition smi_optional_text ::
  "row \<Rightarrow> string \<Rightarrow> int \<Rightarrow> string \<Rightarrow> (reasons, string option) comp" where
  "smi_optional_text r column index fld =
     (case dict_get r column of
        None \<Rightarrow> cbind (set_reason (gpu_key index fld) ''field_missing'') (\<lambda>_. creturn None)
      | Some CellUnsupported \<Rightarrow>
          cbind (set_reason (gpu_key index fld) ''sensor_unsupported'') (\<lambda>_. creturn None)
      | Some (Cell t) \<Rightarrow> creturn (Some t))"

text \<open>The number in a cell, or the reason why there is none.\<close>

definition cell_number :: "parsed_cell option \<Rightarrow> pyfloat option \<Rightarrow> bool \<Rightarrow> string + pynum" where
  "cell_number cell maximum mib_to_bytes =
     (case cell of
        None \<Rightarrow> Inl ''field_missing''
      | Some CellUnsupported \<Rightarrow> Inl ''sensor_unsupported''
      | Some (Cell t) \<Rightarrow>
          (case float_of_text t of
             Inl _ \<Rightarrow> Inl ''malformed_value''
           | Inr number \<Rightarrow>
               if num_isfinite (PFlt number) \<noteq> Inr True \<or> flt_less number (Fin 0)
                  \<or> (case maximum of None \<Rightarrow> False | Some hi \<Rightarrow> flt_less hi number)
               then Inl ''out_of_range''
               else if \<not> mib_to_bytes then Inr (PFlt number)
               else (case int_of_float (fmul number (Fin 1048576)) of
                       Inl _ \<Rightarrow> Inl ''out_of_range''
                     | Inr n \<Rightarrow> Inr (PInt n))))"

definition smi_measurement ::
  "row \<Rightarrow> string \<Rightarrow> int \<Rightarrow> string \<Rightarrow> pyfloat option \<Rightarrow> bool \<Rightarrow> (reasons, measurement) comp" where
  "smi_measurement r column index fld maximum mib_to_bytes =
     (case cell_number (dict_get r column) maximum mib_to_bytes of
        Inl reason \<Rightarrow> cbind (set_reason (gpu_key index fld) reason) (\<lambda>_. creturn Unsupported)
      | Inr n \<Rightarrow> creturn (Num n))"

section \<open>The CUDA version in the banner\<close>

text \<open>
  The expression \<open>\bCUDA Version:\s*([0-9]+(?:\.[0-9]+)*)\b\<close>. \<open>version_groups\<close> is what
  follows the first digits: as many dotted groups as there are, fewer only when a word character
  follows the last one.
\<close>

definition at_word_end :: "string \<Rightarrow> bool" where
  "at_word_end rest = (case rest of [] \<Rightarrow> True | c # _ \<Rightarrow> \<not> is_word c)"

function version_groups :: "string \<Rightarrow> string option" where
  "version_groups rest =
     (case rest of
        [] \<Rightarrow> Some []
      | c # after \<Rightarrow>
          (let digits = takeWhile is_digit after in
           if c = CHR ''.'' \<and> digits \<noteq> []
           then (case version_groups (dropWhile is_digit after) of
                   Some groups \<Rightarrow> Some (c # digits @ groups)
                 | None \<Rightarrow> Some [])
           else if at_word_end rest then Some [] else None))"
  by pat_completeness auto
termination
  by (relation "measure length") (auto simp: le_imp_less_Suc length_dropWhile_le)

declare version_groups.simps [simp del]

definition cuda_marker :: string where
  "cuda_marker = ''CUDA Version:''"

definition cuda_match_here :: "string \<Rightarrow> string option" where
  "cuda_match_here s =
     (if is_prefix cuda_marker s
      then (let after = dropWhile is_space (drop (length cuda_marker) s);
                digits = takeWhile is_digit after
            in if digits = [] then None
               else map_option (\<lambda>groups. digits @ groups) (version_groups (dropWhile is_digit after)))
      else None)"

text \<open>The search, left to right; \<open>inside\<close> says that a word character stands before.\<close>

fun cuda_search :: "bool \<Rightarrow> string \<Rightarrow> string option" where
  "cuda_search inside [] = None"
| "cuda_search inside (c # cs) =
     (case (if inside then None else cuda_match_here (c # cs)) of
        Some v \<Rightarrow> Some v
      | None \<Rightarrow> cuda_search (is_word c) cs)"

definition smi_read_cuda_version :: "'w smi_config \<Rightarrow> ('w smi_state, string option) comp" where
  "smi_read_cuda_version cfg =
     cbind (smi_invoke cfg []) (\<lambda>(output, failure).
       case output of
         None \<Rightarrow>
           cbind (on_reasons (set_reason ''gpu.cuda_version'' (text_or ''nvidia_smi_unavailable'' failure)))
             (\<lambda>_. creturn None)
       | Some text \<Rightarrow>
           (case cuda_search False text of
              None \<Rightarrow>
                cbind (on_reasons (set_reason ''gpu.cuda_version'' ''field_missing''))
                  (\<lambda>_. creturn None)
            | Some v \<Rightarrow> creturn (Some v)))"

section \<open>Samples\<close>

definition throttle_fields :: "(string \<times> string) list" where
  "throttle_fields =
     [(''gpu_idle'', ''clocks_throttle_reasons.gpu_idle''),
      (''applications_clocks_setting'', ''clocks_throttle_reasons.applications_clocks_setting''),
      (''sw_power_cap'', ''clocks_throttle_reasons.sw_power_cap''),
      (''hw_slowdown'', ''clocks_throttle_reasons.hw_slowdown''),
      (''hw_thermal_slowdown'', ''clocks_throttle_reasons.hw_thermal_slowdown''),
      (''hw_power_brake_slowdown'', ''clocks_throttle_reasons.hw_power_brake_slowdown''),
      (''sync_boost'', ''clocks_throttle_reasons.sync_boost''),
      (''sw_thermal_slowdown'', ''clocks_throttle_reasons.sw_thermal_slowdown'')]"

definition throttle_columns :: "string list" where
  "throttle_columns = ''index'' # map snd throttle_fields"

definition sample_fields :: "string list" where
  "sample_fields =
     [''index'', ''uuid'', ''utilization.gpu'', ''utilization.memory'', ''memory.used'',
      ''memory.total'', ''temperature.gpu'', ''temperature.memory'', ''power.draw'',
      ''power.limit'', ''fan.speed'', ''clocks.current.sm'', ''clocks.current.memory'']"

definition column_state :: "row \<Rightarrow> string \<Rightarrow> string" where
  "column_state r column =
     (case dict_get r column of Some (Cell t) \<Rightarrow> lower t | _ \<Rightarrow> [])"

definition smi_throttle_reasons :: "row option \<Rightarrow> int \<Rightarrow> (reasons, string list \<times> bool) comp" where
  "smi_throttle_reasons row_opt index =
     (case row_opt of
        None \<Rightarrow>
          cbind (set_reason (gpu_key index ''throttle_reasons'') ''sensor_unsupported'')
            (\<lambda>_. creturn ([], False))
      | Some r \<Rightarrow>
          (let active = map fst (filter (\<lambda>(_, column). column_state r column = ''active'') throttle_fields);
               recognized = list_ex (\<lambda>(_, column). column_state r column \<in> {''active'', ''not active''})
                              throttle_fields
           in cbind (if \<not> recognized
                     then set_reason (gpu_key index ''throttle_reasons'') ''sensor_unsupported''
                     else creturn ())
                (\<lambda>_. creturn (active, recognized))))"

text \<open>The column, the upper bound and the unit of each measured field.\<close>

fun sample_column :: "gpu_field \<Rightarrow> string" where
  "sample_column Utilization = ''utilization.gpu''"
| "sample_column MemoryUtilization = ''utilization.memory''"
| "sample_column VramUsed = ''memory.used''"
| "sample_column VramTotal = ''memory.total''"
| "sample_column Temperature = ''temperature.gpu''"
| "sample_column MemoryTemperature = ''temperature.memory''"
| "sample_column Power = ''power.draw''"
| "sample_column PowerLimit = ''power.limit''"
| "sample_column Fan = ''fan.speed''"
| "sample_column CoreClock = ''clocks.current.sm''"
| "sample_column MemoryClock = ''clocks.current.memory''"

definition smi_field :: "row \<Rightarrow> int \<Rightarrow> gpu_field \<Rightarrow> (reasons, measurement) comp" where
  "smi_field r index f =
     smi_measurement r (sample_column f) index (field_name f)
       (if f \<in> {Utilization, MemoryUtilization, Fan} then Some (Fin 100) else None)
       (f \<in> {VramUsed, VramTotal})"

definition sample_from_row :: "row \<Rightarrow> int \<Rightarrow> string list \<Rightarrow> bool \<Rightarrow> (reasons, gpu_sample) comp" where
  "sample_from_row r index throttle available =
     cbind (smi_optional_text r ''uuid'' index ''uuid'') (\<lambda>uuid.
     cbind (smi_field r index Utilization) (\<lambda>utilization.
     cbind (smi_field r index MemoryUtilization) (\<lambda>memory_utilization.
     cbind (smi_field r index VramUsed) (\<lambda>vram_used.
     cbind (smi_field r index VramTotal) (\<lambda>vram_total.
     cbind (smi_field r index Temperature) (\<lambda>temperature.
     cbind (smi_field r index MemoryTemperature) (\<lambda>memory_temperature.
     cbind (smi_field r index Power) (\<lambda>power.
     cbind (smi_field r index PowerLimit) (\<lambda>power_limit.
     cbind (smi_field r index Fan) (\<lambda>fan.
     cbind (smi_field r index CoreClock) (\<lambda>core_clock.
     cbind (smi_field r index MemoryClock) (\<lambda>memory_clock.
     creturn \<lparr>gs_index = index, gs_uuid = uuid, gs_utilization_percent = utilization,
       gs_memory_utilization_percent = memory_utilization, gs_vram_used_bytes = vram_used,
       gs_vram_total_bytes = vram_total, gs_temperature_c = temperature,
       gs_memory_temperature_c = memory_temperature, gs_power_watts = power,
       gs_power_limit_watts = power_limit, gs_fan_percent = fan, gs_core_clock_mhz = core_clock,
       gs_memory_clock_mhz = memory_clock, gs_throttle_reasons = throttle,
       gs_throttle_reasons_available = available\<rparr>))))))))))))"

section \<open>The public operations\<close>

definition smi_unavailable_reasons :: "'w smi_state \<Rightarrow> reasons" where
  "smi_unavailable_reasons s = dict_sorted (ss_reasons s)"

definition clear_reasons :: "(reasons, unit) comp" where
  "clear_reasons = cmodify (\<lambda>_. [])"

definition smi_available :: "'w smi_config \<Rightarrow> ('w smi_state, bool) comp" where
  "smi_available cfg =
     cbind (on_reasons clear_reasons) (\<lambda>_.
     cbind (smi_query cfg [''index''] ''gpu'') (\<lambda>rows.
     cbind (on_reasons (rows_by_index rows ''gpu.probe'')) (\<lambda>indexed.
       if indexed \<noteq> [] then creturn True
       else cbind (on_reasons (setdefault_reason ''gpu''
                (if rows \<noteq> [] then ''malformed_csv'' else ''no_nvidia_gpus'')))
              (\<lambda>_. creturn False))))"

text \<open>\<open>setdefault("gpu", "malformed_csv" if self._reasons else "no_nvidia_gpus")\<close>\<close>

definition no_rows_reason :: "(reasons, unit) comp" where
  "no_rows_reason = cmodify (\<lambda>r. dict_setdefault ''gpu''
     (if r \<noteq> [] then ''malformed_csv'' else ''no_nvidia_gpus'') r)"

definition smi_sample_row ::
  "(int, row) dict \<Rightarrow> int \<times> row \<Rightarrow> (reasons, gpu_sample) comp" where
  "smi_sample_row throttle_rows = (\<lambda>(index, r).
     cbind (smi_throttle_reasons (dict_get throttle_rows index) index) (\<lambda>(active, recognized).
       sample_from_row r index active recognized))"

definition smi_sample :: "'w smi_config \<Rightarrow> ('w smi_state, gpu_sample list) comp" where
  "smi_sample cfg =
     cbind (on_reasons clear_reasons) (\<lambda>_.
     cbind (smi_query cfg sample_fields ''gpu'') (\<lambda>core.
     cbind (on_reasons (rows_by_index core ''gpu.sample'')) (\<lambda>core_rows.
       if core_rows = [] then cbind (on_reasons no_rows_reason) (\<lambda>_. creturn [])
       else
         cbind (smi_query cfg throttle_columns ''gpu.throttle_reasons'') (\<lambda>throttle.
         cbind (on_reasons (rows_by_index throttle ''gpu.throttle'')) (\<lambda>throttle_rows.
           on_reasons (ctraverse (smi_sample_row throttle_rows) (dict_sorted core_rows)))))))"

definition smi_profile ::
  "'w smi_config \<Rightarrow> (int, row) dict \<Rightarrow> string option \<Rightarrow> int \<times> row \<Rightarrow> (reasons, gpu_profile) comp" where
  "smi_profile cfg compute_rows cuda_version = (\<lambda>(index, r).
     cbind (smi_optional_text r ''name'' index ''name'') (\<lambda>name.
     cbind (smi_optional_text r ''uuid'' index ''uuid'') (\<lambda>uuid.
     cbind (smi_measurement r ''memory.total'' index ''vram_total_bytes'' None True) (\<lambda>vram_total.
     cbind (smi_optional_text r ''driver_version'' index ''driver_version'') (\<lambda>driver_version.
     cbind (smi_optional_text (case dict_get compute_rows index of None \<Rightarrow> [] | Some c \<Rightarrow> c)
              ''compute_cap'' index ''compute_capability'') (\<lambda>compute_capability.
     clift (sc_gpu_profile cfg \<lparr>gp_index = index, gp_name = name, gp_uuid = uuid,
       gp_vram_total_bytes = vram_total, gp_driver_version = driver_version,
       gp_cuda_version = cuda_version, gp_compute_capability = compute_capability,
       gp_vendor = VendorNvidia\<rparr>)))))))"

definition smi_static_info :: "'w smi_config \<Rightarrow> ('w smi_state, gpu_profile list) comp" where
  "smi_static_info cfg =
     cbind (on_reasons clear_reasons) (\<lambda>_.
     cbind (smi_query cfg [''index'', ''name'', ''uuid'', ''memory.total'', ''driver_version''] ''gpu'') (\<lambda>core.
     cbind (on_reasons (rows_by_index core ''gpu.static'')) (\<lambda>core_rows.
       if core_rows = [] then cbind (on_reasons no_rows_reason) (\<lambda>_. creturn [])
       else
         cbind (smi_query cfg [''index'', ''compute_cap''] ''gpu.compute_capability'') (\<lambda>compute.
         cbind (on_reasons (rows_by_index compute ''gpu.compute'')) (\<lambda>compute_rows.
         cbind (smi_read_cuda_version cfg) (\<lambda>cuda_version.
           on_reasons (ctraverse (smi_profile cfg compute_rows cuda_version)
             (dict_sorted core_rows))))))))"

section \<open>What a row becomes\<close>

text \<open>
  The value and the diagnostic of one field, without the state; every function below is total.
\<close>

definition field_cell :: "row \<Rightarrow> gpu_field \<Rightarrow> string + pynum" where
  "field_cell r f =
     cell_number (dict_get r (sample_column f))
       (if f \<in> {Utilization, MemoryUtilization, Fan} then Some (Fin 100) else None)
       (f \<in> {VramUsed, VramTotal})"

definition field_value :: "row \<Rightarrow> gpu_field \<Rightarrow> measurement" where
  "field_value r f = (case field_cell r f of Inl _ \<Rightarrow> Unsupported | Inr n \<Rightarrow> Num n)"

definition text_value :: "row \<Rightarrow> string \<Rightarrow> string option" where
  "text_value r column = (case dict_get r column of Some (Cell t) \<Rightarrow> Some t | _ \<Rightarrow> None)"

definition record_field :: "row \<Rightarrow> int \<Rightarrow> gpu_field \<Rightarrow> reasons \<Rightarrow> reasons" where
  "record_field r index f s =
     (case field_cell r f of Inl reason \<Rightarrow> dict_set (gpu_key index (field_name f)) reason s | Inr _ \<Rightarrow> s)"

definition row_sample :: "row \<Rightarrow> int \<Rightarrow> string list \<Rightarrow> bool \<Rightarrow> gpu_sample" where
  "row_sample r index throttle available =
     \<lparr>gs_index = index, gs_uuid = text_value r ''uuid'',
      gs_utilization_percent = field_value r Utilization,
      gs_memory_utilization_percent = field_value r MemoryUtilization,
      gs_vram_used_bytes = field_value r VramUsed, gs_vram_total_bytes = field_value r VramTotal,
      gs_temperature_c = field_value r Temperature,
      gs_memory_temperature_c = field_value r MemoryTemperature,
      gs_power_watts = field_value r Power, gs_power_limit_watts = field_value r PowerLimit,
      gs_fan_percent = field_value r Fan, gs_core_clock_mhz = field_value r CoreClock,
      gs_memory_clock_mhz = field_value r MemoryClock, gs_throttle_reasons = throttle,
      gs_throttle_reasons_available = available\<rparr>"

lemma gpu_get_row_sample [simp]: "gpu_get f (row_sample r i t a) = field_value r f"
  by (cases f) (simp_all add: row_sample_def)

lemma row_sample_simps [simp]:
  "gs_index (row_sample r i t a) = i" "gs_uuid (row_sample r i t a) = text_value r ''uuid''"
  "gs_throttle_reasons (row_sample r i t a) = t" "gs_throttle_reasons_available (row_sample r i t a) = a"
  by (simp_all add: row_sample_def)

lemma smi_field_eq: "smi_field r index f s = (Inr (field_value r f), record_field r index f s)"
  by (simp add: smi_field_def smi_measurement_def field_value_def record_field_def field_cell_def
      set_reason_def comp_defs split: sum.splits)

lemma smi_optional_text_eq:
  "\<exists>s'. smi_optional_text r column index fld s = (Inr (text_value r column), s') \<and> more_keys s s'"
  by (auto simp: smi_optional_text_def text_value_def set_reason_def comp_defs more_keys_def
      split: option.splits parsed_cell.splits)

lemma record_field_keys:
  "dict_keys (record_field r index f s) =
     (if field_value r f = Unsupported then insert (gpu_key index (field_name f)) (dict_keys s)
      else dict_keys s)"
  by (simp add: record_field_def field_value_def split: sum.splits)

lemma sample_from_row_eq:
  "\<exists>s'. sample_from_row r index t a s = (Inr (row_sample r index t a), s') \<and> more_keys s s'
     \<and> list_all (\<lambda>f. field_value r f = Unsupported \<longrightarrow> gpu_key index (field_name f) \<in> dict_keys s')
         gpu_field_list"
proof -
  obtain s1 where s1: "smi_optional_text r ''uuid'' index ''uuid'' s = (Inr (text_value r ''uuid''), s1)"
    "more_keys s s1"
    using smi_optional_text_eq by blast
  define s' where "s' = fold (record_field r index) gpu_field_list s1"
  have "sample_from_row r index t a s = (Inr (row_sample r index t a), s')"
    by (simp add: sample_from_row_def s1(1) smi_field_eq cbind_def creturn_def s'_def
        gpu_field_list_def row_sample_def)
  moreover have "dict_keys (fold (record_field r index) fs z) =
      dict_keys z \<union> (\<lambda>f. gpu_key index (field_name f)) ` {f \<in> set fs. field_value r f = Unsupported}" for fs z
    by (induction fs arbitrary: z) (auto simp: record_field_keys)
  then have "dict_keys s' =
      dict_keys s1 \<union> (\<lambda>f. gpu_key index (field_name f)) ` {f. field_value r f = Unsupported}"
    by (simp add: s'_def gpu_field_list_all)
  ultimately show ?thesis
    using s1(2) by (auto simp: more_keys_def list_all_iff)
qed

section \<open>Well-formedness of one sample\<close>

lemma cell_number_ok:
  assumes "cell_number cell hi mib = Inr v" and "hi = None \<or> hi = Some (Fin h) \<and> \<not> mib"
  shows "number_ok (Fin 0) hi v"
proof -
  from assms(1) obtain a where a: "0 \<le> a" "hi = Some (Fin h) \<Longrightarrow> a \<le> h"
    and v: "v = (if mib then v else PFlt (Fin a))"
      "mib \<Longrightarrow> \<exists>n. int_of_float (fmul (Fin a) (Fin 1048576)) = Inr n \<and> v = PInt n"
    by (fastforce simp: cell_number_def not_less
        split: option.splits parsed_cell.splits sum.splits pyfloat.splits if_splits)
  show ?thesis
  proof (cases mib)
    case True
    then obtain n where n: "int_of_float (rnd64 (a * 1048576)) = Inr n" "v = PInt n"
      using v(2) by auto
    then obtain q where q: "rnd64 (a * 1048576) = Fin q" by (cases "rnd64 (a * 1048576)") auto
    with n rnd64_truncated [OF q] obtain b where "rnd64 (of_int n) = Fin b" by auto
    moreover have "0 \<le> q" using rnd64_nonneg [of "a * 1048576"] a(1) q by simp
    with n q have "0 \<le> n" by (auto split: if_splits)
    ultimately show ?thesis using n True assms(2)
      by (simp add: number_ok_def num_le_def float_of_int_def)
  next
    case False
    with v(1) a assms(2) show ?thesis by (auto simp: number_ok_def num_le_def)
  qed
qed

lemma field_value_ok: "measurement_ok (field_minimum f) (field_maximum f) (field_value r f)"
proof (cases "field_cell r f")
  case (Inr v)
  have "field_maximum f = None \<or> field_maximum f = Some (Fin 100) \<and> f \<notin> {VramUsed, VramTotal}"
    by (cases f) (simp_all add: field_maximum_def)
  moreover have "cell_number (dict_get r (sample_column f)) (field_maximum f) (f \<in> {VramUsed, VramTotal}) = Inr v"
    using Inr by (simp add: field_cell_def field_maximum_def)
  ultimately have ok: "number_ok (Fin 0) (field_maximum f) v"
    using cell_number_ok by blast
  then have "num_le (PFlt (field_minimum f)) v"
    using absolute_zero_neg flt_le_trans [of absolute_zero "Fin 0" "num_val v"]
    by (auto simp: number_ok_def num_le_def field_minimum_def)
  with ok Inr show ?thesis by (simp add: field_value_def number_ok_def)
qed (simp add: field_value_def)

text \<open>Cells of parsed rows are never empty text: the empty cell is an unavailable marker.\<close>

definition row_clean :: "row \<Rightarrow> bool" where
  "row_clean r \<longleftrightarrow> Cell [] \<notin> snd ` set r"

lemma normalize_cell_nonempty: "normalize_cell c \<noteq> Cell []"
  by (simp add: normalize_cell_def Let_def unavailable_markers_def lower_def)

lemma dict_set_values: "snd ` set (dict_set k v d) \<subseteq> insert v (snd ` set d)"
proof -
  have "set (AList.update k v d) \<subseteq> insert (k, v) (set d)" by (induction d) auto
  then show ?thesis by (force simp: dict_set_def)
qed

lemma dict_update_values: "snd ` set (dict_update d kvs) \<subseteq> snd ` set d \<union> snd ` set kvs"
proof (induction kvs arbitrary: d)
  case (Cons kv kvs)
  have "dict_update d (kv # kvs) = dict_update (dict_set (fst kv) (snd kv) d) kvs"
    by (simp add: dict_update_def case_prod_beta)
  then show ?case
    using Cons.IH [of "dict_set (fst kv) (snd kv) d"] dict_set_values [of "fst kv" "snd kv" d] by auto
qed (simp add: dict_update_def)

lemma row_of_cells_clean: "row_clean (row_of_cells columns (map normalize_cell cells))"
proof -
  have "snd ` set (zip columns (map normalize_cell cells)) \<subseteq> normalize_cell ` set cells"
    by (auto dest: set_zip_rightD)
  then have "snd ` set (row_of_cells columns (map normalize_cell cells)) \<subseteq> normalize_cell ` set cells"
    using dict_update_values [of "[]" "zip columns (map normalize_cell cells)"]
    by (simp add: row_of_cells_def)
  then show ?thesis
    using normalize_cell_nonempty unfolding row_clean_def by (metis imageE subsetD)
qed

lemma parsed_rows_clean: "list_all row_clean (pr_rows (parse_nvidia_csv_rows text columns))"
proof -
  have "list_all row_clean (pr_rows acc) \<Longrightarrow>
      list_all row_clean (pr_rows (fold (csv_line_step columns) ls acc))" for ls acc
    by (induction ls arbitrary: acc) (simp_all add: csv_line_step_def row_of_cells_clean split: option.splits)
  then show ?thesis by (simp add: parse_nvidia_csv_rows_def)
qed

lemma text_value_clean: "row_clean r \<Longrightarrow> text_value r column \<noteq> Some []"
  by (auto simp: text_value_def row_clean_def dict_get_def image_iff
      split: option.splits parsed_cell.splits dest!: map_of_SomeD)

lemma throttle_reasons_eq:
  "\<exists>t a s'. smi_throttle_reasons row_opt index s = (Inr (t, a), s') \<and> more_keys s s'
     \<and> set t \<subseteq> set throttle_vocabulary \<and> distinct t \<and> (\<not> a \<longrightarrow> t = [])
     \<and> (\<not> a \<longrightarrow> gpu_key index ''throttle_reasons'' \<in> dict_keys s')"
proof (cases row_opt)
  case None
  then show ?thesis
    by (auto simp: smi_throttle_reasons_def set_reason_def comp_defs more_keys_def intro: exI [of _ False])
next
  case (Some r)
  define t where "t = map fst (filter (\<lambda>(_, column). column_state r column = ''active'') throttle_fields)"
  define a where "a = list_ex (\<lambda>(_, column). column_state r column \<in> {''active'', ''not active''}) throttle_fields"
  have "set t \<subseteq> set throttle_vocabulary"
    by (auto simp: t_def throttle_fields_def throttle_vocabulary_def split: if_splits)
  moreover have "distinct t"
    unfolding t_def by (rule distinct_map_filter) (simp add: throttle_fields_def)
  moreover have "\<not> a \<longrightarrow> t = []"
    by (auto simp: t_def a_def list_ex_iff filter_empty_conv)
  moreover have "smi_throttle_reasons row_opt index s = (Inr (t, a),
      if a then s else dict_set (gpu_key index ''throttle_reasons'') ''sensor_unsupported'' s)"
    by (simp add: smi_throttle_reasons_def Some Let_def t_def a_def set_reason_def comp_defs)
  ultimately show ?thesis
    by (intro exI [of _ t] exI [of _ a]) (auto simp: more_keys_def)
qed

text \<open>One row gives a well-formed, explained sample for its index.\<close>

definition sample_of_row :: "row \<Rightarrow> gpu_sample \<Rightarrow> bool" where
  "sample_of_row r g \<longleftrightarrow>
     gs_uuid g = text_value r ''uuid''
     \<and> list_all (\<lambda>f. gpu_get f g = field_value r f) gpu_field_list"

lemma smi_sample_row_eq:
  assumes "0 \<le> index" and "row_clean r"
  shows "\<exists>g s'. smi_sample_row throttle_rows (index, r) s = (Inr g, s') \<and> more_keys s s'
    \<and> gs_index g = index \<and> gpu_sample_ok g \<and> explained s' g \<and> sample_of_row r g"
proof -
  obtain t a s1 where 1: "smi_throttle_reasons (dict_get throttle_rows index) index s = (Inr (t, a), s1)"
    "more_keys s s1" "set t \<subseteq> set throttle_vocabulary" "distinct t" "\<not> a \<longrightarrow> t = []"
    "\<not> a \<longrightarrow> gpu_key index ''throttle_reasons'' \<in> dict_keys s1"
    using throttle_reasons_eq by blast
  obtain s' where 2: "sample_from_row r index t a s1 = (Inr (row_sample r index t a), s')" "more_keys s1 s'"
    "list_all (\<lambda>f. field_value r f = Unsupported \<longrightarrow> gpu_key index (field_name f) \<in> dict_keys s') gpu_field_list"
    using sample_from_row_eq by blast
  have "smi_sample_row throttle_rows (index, r) s = (Inr (row_sample r index t a), s')"
    by (simp add: smi_sample_row_def 1(1) 2(1) cbind_def)
  moreover have "gpu_sample_ok (row_sample r index t a)"
    using assms 1 text_value_clean field_value_ok
    by (simp add: gpu_sample_ok_def throttle_honest_def list_all_iff)
  moreover have "explained s' (row_sample r index t a)"
    using 1(6) 2(2,3) by (auto simp: explained_def more_keys_def)
  moreover have "more_keys s s'" using 1(2) 2(2) by (auto simp: more_keys_def)
  moreover have "sample_of_row r (row_sample r index t a)"
    by (simp add: sample_of_row_def list_all_iff)
  ultimately show ?thesis by auto
qed

lemma sample_rows_eq:
  assumes "list_all (\<lambda>(i, r). 0 \<le> i \<and> row_clean r \<and> row_index r = i) rows"
  shows "\<exists>gs s'. ctraverse (smi_sample_row throttle_rows) rows s = (Inr gs, s') \<and> more_keys s s'
    \<and> map gs_index gs = map fst rows \<and> list_all gpu_sample_ok gs \<and> list_all (explained s') gs
    \<and> list_all2 (\<lambda>(i, r) g. sample_of_row r g) rows gs"
  using assms
proof (induction rows arbitrary: s)
  case Nil
  then show ?case by (simp add: creturn_def more_keys_def)
next
  case (Cons ir rows)
  obtain i r where ir: "ir = (i, r)" by (cases ir)
  with Cons.prems obtain g s1 where 1: "smi_sample_row throttle_rows (i, r) s = (Inr g, s1)"
    "more_keys s s1" "gs_index g = i" "gpu_sample_ok g" "explained s1 g" "sample_of_row r g"
    using smi_sample_row_eq [of i r] by fastforce
  from Cons.prems ir Cons.IH [of s1] obtain gs s' where 2:
    "ctraverse (smi_sample_row throttle_rows) rows s1 = (Inr gs, s')" "more_keys s1 s'"
    "map gs_index gs = map fst rows" "list_all gpu_sample_ok gs" "list_all (explained s') gs"
    "list_all2 (\<lambda>(i, r) g. sample_of_row r g) rows gs"
    by auto
  have "explained s' g" using 1(5) 2(2) explained_more by blast
  then show ?case
    using 1 2 ir by (auto simp: cbind_def creturn_def more_keys_def intro!: exI [of _ "g # gs"])
qed

section \<open>Indexing rows\<close>

definition rows_valid :: "(int, row) dict \<Rightarrow> bool" where
  "rows_valid d \<longleftrightarrow> dict_ok d \<and> list_all (\<lambda>(i, r). 0 \<le> i \<and> row_clean r \<and> row_index r = i) d"

lemma dict_set_entries: "set (dict_set k v d) \<subseteq> insert (k, v) (set d)"
proof -
  have "set (AList.update k v d) \<subseteq> insert (k, v) (set d)" by (induction d) auto
  then show ?thesis by (simp add: dict_set_def)
qed

lemma index_rows_eq:
  assumes "list_all (\<lambda>(n, r). row_clean r) rows" and "rows_valid indexed"
  shows "\<exists>d s'. index_rows scope rows indexed s = (Inr d, s') \<and> more_keys s s' \<and> rows_valid d
    \<and> dict_keys d = dict_keys indexed \<union> {i. 0 \<le> i \<and> i \<in> row_index ` snd ` set rows}
    \<and> snd ` set d \<subseteq> snd ` set indexed \<union> snd ` set rows"
  using assms
proof (induction rows arbitrary: indexed s)
  case Nil
  then show ?case by (simp add: creturn_def more_keys_def)
next
  case (Cons nr rows)
  obtain n r where nr: "nr = (n, r)" by (cases nr)
  let ?i = "row_index r"
  define R where "R = row_index ` snd ` set rows"
  have R: "row_index ` snd ` set (nr # rows) = insert ?i R" by (auto simp: R_def nr)
  have clean: "row_clean r" "list_all (\<lambda>(n, r). row_clean r) rows" using Cons.prems nr by auto
  note IH = Cons.IH [OF clean(2), folded R_def]
  consider (bad) "?i < 0" | (dup) "0 \<le> ?i" "dict_get indexed ?i \<noteq> None"
    | (new) "0 \<le> ?i" "dict_get indexed ?i = None" by fastforce
  then show ?case
  proof cases
    case bad
    obtain d s' where "index_rows scope rows indexed (dict_set (row_key scope n) ''malformed_value'' s) = (Inr d, s')"
      "more_keys (dict_set (row_key scope n) ''malformed_value'' s) s'" "rows_valid d"
      "dict_keys d = dict_keys indexed \<union> {i. 0 \<le> i \<and> i \<in> R}" "snd ` set d \<subseteq> snd ` set indexed \<union> snd ` set rows"
      using IH [OF Cons.prems(2)] by blast
    with bad nr show ?thesis unfolding R
      by (intro exI [of _ d] exI [of _ s']) (auto simp: set_reason_def comp_defs more_keys_def)
  next
    case dup
    then have i: "?i \<in> dict_keys indexed" by (simp add: dict_keys_get)
    obtain d s' where "index_rows scope rows indexed (dict_set (row_key scope n) ''duplicate_gpu_index'' s) = (Inr d, s')"
      "more_keys (dict_set (row_key scope n) ''duplicate_gpu_index'' s) s'" "rows_valid d"
      "dict_keys d = dict_keys indexed \<union> {i. 0 \<le> i \<and> i \<in> R}" "snd ` set d \<subseteq> snd ` set indexed \<union> snd ` set rows"
      using IH [OF Cons.prems(2)] by blast
    with dup i nr show ?thesis unfolding R
      by (intro exI [of _ d] exI [of _ s']) (auto simp: set_reason_def comp_defs more_keys_def)
  next
    case new
    have "rows_valid (dict_set ?i r indexed)"
      using Cons.prems(2) clean(1) new(1) dict_set_entries [of ?i r indexed]
      by (fastforce simp: rows_valid_def list_all_iff)
    from IH [OF this, of s] obtain d s' where d:
      "index_rows scope rows (dict_set ?i r indexed) s = (Inr d, s')" "more_keys s s'" "rows_valid d"
      "dict_keys d = dict_keys (dict_set ?i r indexed) \<union> {i. 0 \<le> i \<and> i \<in> R}"
      "snd ` set d \<subseteq> snd ` set (dict_set ?i r indexed) \<union> snd ` set rows" by blast
    moreover have "snd ` set d \<subseteq> snd ` set indexed \<union> snd ` set (nr # rows)"
      using d(5) dict_set_values [of ?i r indexed] nr by auto
    ultimately show ?thesis using new nr unfolding R
      by (intro exI [of _ d] exI [of _ s']) auto
  qed
qed

lemma rows_by_index_eq:
  assumes "list_all row_clean rows"
  shows "\<exists>d s'. rows_by_index rows scope s = (Inr d, s') \<and> more_keys s s' \<and> rows_valid d
    \<and> dict_keys d = {i. 0 \<le> i \<and> i \<in> row_index ` set rows} \<and> snd ` set d \<subseteq> set rows"
proof -
  have snd: "snd ` set (enum_from 0 rows) = set rows"
    by (metis list.set_map map_snd_enum_from)
  then have "list_all (\<lambda>(n, r). row_clean r) (enum_from 0 rows)"
    using assms by (force simp: list_all_iff)
  from index_rows_eq [OF this, of "[]" scope s] snd show ?thesis
    by (simp add: rows_by_index_def rows_valid_def dict_keys_def)
qed

lemma dict_sorted_valid:
  assumes "rows_valid d"
  shows "list_all (\<lambda>(i, r). 0 \<le> i \<and> row_clean r \<and> row_index r = i) (dict_sorted d)"
    "sorted_wrt (<) (map fst (dict_sorted d))" "set (map fst (dict_sorted d)) = dict_keys d"
    "dict_sorted d = [] \<longleftrightarrow> d = []"
proof -
  have set: "set (dict_sorted d) = set d" by (simp add: dict_sorted_def)
  show "list_all (\<lambda>(i, r). 0 \<le> i \<and> row_clean r \<and> row_index r = i) (dict_sorted d)"
    using assms set by (simp add: rows_valid_def list_all_iff)
  have "mset (map fst (dict_sorted d)) = mset (map fst d)" by (simp add: dict_sorted_def)
  then have "distinct (map fst (dict_sorted d)) \<longleftrightarrow> distinct (map fst d)"
    by (rule mset_eq_imp_distinct_iff)
  then have "distinct (map fst (dict_sorted d))"
    using assms by (simp add: rows_valid_def dict_ok_def)
  then show "sorted_wrt (<) (map fst (dict_sorted d))"
    by (simp add: strict_sorted_iff dict_sorted_def)
  show "set (map fst (dict_sorted d)) = dict_keys d" by (simp add: set dict_keys_def)
  show "dict_sorted d = [] \<longleftrightarrow> d = []"
    using set by (metis set_empty)
qed

section \<open>One query\<close>

lemma smi_invoke_reasons: "ss_reasons (snd (smi_invoke cfg arguments s)) = ss_reasons s"
  by (auto simp: smi_invoke_def Let_def split: prod.splits sum.splits option.splits)

lemma smi_invoke_failure:
  "smi_invoke cfg arguments s = (Inr (None, f), s') \<Longrightarrow> f \<noteq> None"
  by (auto simp: smi_invoke_def Let_def completed_output_def split: prod.splits sum.splits option.splits if_splits)
    metis+

lemma smi_query_Inr:
  assumes "smi_query cfg columns key s = (Inr rows, s')"
  shows "list_all row_clean rows \<and> more_keys (ss_reasons s) (ss_reasons s')"
proof -
  obtain out fl s1 where i: "smi_invoke cfg (query_arguments columns) s = (Inr (out, fl), s1)"
    using assms by (auto simp: smi_query_def cbind_def split: prod.splits sum.splits)
  then have r: "ss_reasons s1 = ss_reasons s"
    using smi_invoke_reasons [of cfg "query_arguments columns" s] by simp
  show ?thesis
    using assms i r parsed_rows_clean
    by (cases out) (auto simp: smi_query_def comp_defs on_reasons_def set_reason_def setdefault_reason_def
        Let_def more_keys_def split: if_splits)
qed

lemma on_reasons_eq:
  "m (ss_reasons s) = (r, q) \<Longrightarrow> on_reasons m s = (r, s\<lparr>ss_reasons := q\<rparr>)"
  by (simp add: on_reasons_def czoom_def)

section \<open>The sampling operation\<close>

lemma no_rows_keys: "no_rows_reason r = (Inr (), r') \<Longrightarrow> ''gpu'' \<in> dict_keys r' \<and> more_keys r r'"
  by (auto simp: no_rows_reason_def cmodify_def more_keys_def)

text \<open>
  The shape of a sampling run: the core query, then either no device, or one sample per indexed
  row.
\<close>

lemma smi_sample_Inr:
  assumes "smi_sample cfg s = (Inr gs, s')"
  obtains core s1 d where "smi_query cfg sample_fields ''gpu'' (s\<lparr>ss_reasons := []\<rparr>) = (Inr core, s1)"
    "rows_valid d" "dict_keys d = {i. 0 \<le> i \<and> i \<in> row_index ` set core}" "snd ` set d \<subseteq> set core"
    "map gs_index gs = map fst (dict_sorted d)"
    "list_all2 (\<lambda>(i, r) g. sample_of_row r g) (dict_sorted d) gs"
    "list_all gpu_sample_ok gs" "reading_explained (ss_reasons s') gs"
proof -
  let ?s0 = "s\<lparr>ss_reasons := []\<rparr>"
  have clear: "on_reasons clear_reasons s = (Inr (), ?s0)"
    by (simp add: on_reasons_def clear_reasons_def czoom_def cmodify_def)
  obtain core s1 where core: "smi_query cfg sample_fields ''gpu'' ?s0 = (Inr core, s1)"
    using assms by (auto simp: smi_sample_def clear cbind_def split: prod.splits sum.splits)
  then have "list_all row_clean core" using smi_query_Inr by blast
  then obtain d q1 where d: "rows_by_index core ''gpu.sample'' (ss_reasons s1) = (Inr d, q1)" "rows_valid d"
    "dict_keys d = {i. 0 \<le> i \<and> i \<in> row_index ` set core}" "snd ` set d \<subseteq> set core"
    using rows_by_index_eq by blast
  let ?s2 = "s1\<lparr>ss_reasons := q1\<rparr>"
  note run = clear core on_reasons_eq [of "rows_by_index core ''gpu.sample''", OF d(1)]
  note found = that [OF core d(2-4)]
  show ?thesis
  proof (cases "d = []")
    case True
    obtain r' where n: "no_rows_reason q1 = (Inr (), r')" by (simp add: no_rows_reason_def cmodify_def)
    then have "on_reasons no_rows_reason ?s2 = (Inr (), ?s2\<lparr>ss_reasons := r'\<rparr>)"
      by (intro on_reasons_eq) simp
    with assms True have "gs = []" "s' = ?s2\<lparr>ss_reasons := r'\<rparr>"
      by (auto simp: smi_sample_def run cbind_def creturn_def)
    with no_rows_keys [OF n] True show ?thesis
      by (intro found) (simp_all add: reading_explained_def dict_sorted_def)
  next
    case False
    obtain thr s3 where thr: "smi_query cfg throttle_columns ''gpu.throttle_reasons'' ?s2 = (Inr thr, s3)"
      using assms False by (auto simp: smi_sample_def run cbind_def split: prod.splits sum.splits)
    then have "list_all row_clean thr" using smi_query_Inr by blast
    then obtain t q3 where t: "rows_by_index thr ''gpu.throttle'' (ss_reasons s3) = (Inr t, q3)"
      using rows_by_index_eq by blast
    obtain hs q4 where hs: "ctraverse (smi_sample_row t) (dict_sorted d) q3 = (Inr hs, q4)"
      "map gs_index hs = map fst (dict_sorted d)" "list_all gpu_sample_ok hs" "list_all (explained q4) hs"
      "list_all2 (\<lambda>(i, r) g. sample_of_row r g) (dict_sorted d) hs"
      using sample_rows_eq [OF dict_sorted_valid(1) [OF d(2)]] by blast
    have "on_reasons (ctraverse (smi_sample_row t) (dict_sorted d)) (s3\<lparr>ss_reasons := q3\<rparr>)
        = (Inr hs, s3\<lparr>ss_reasons := q3, ss_reasons := q4\<rparr>)"
      by (rule on_reasons_eq) (simp add: hs(1))
    with assms False have gs: "gs = hs" "ss_reasons s' = q4"
      by (auto simp: smi_sample_def run thr
          on_reasons_eq [of "rows_by_index thr ''gpu.throttle''", OF t] cbind_def)
    moreover have "hs \<noteq> []" using hs(2) dict_sorted_valid(4) [OF d(2)] False by auto
    ultimately show ?thesis using hs by (intro found) (simp_all add: reading_explained_def)
  qed
qed

lemma smi_sample_ok:
  assumes "smi_sample cfg s = (Inr gs, s')"
  shows "samples_ok gs" "reading_explained (ss_reasons s') gs"
proof -
  obtain d where d: "rows_valid d" "map gs_index gs = map fst (dict_sorted d)"
    "list_all gpu_sample_ok gs" "reading_explained (ss_reasons s') gs"
    using smi_sample_Inr [OF assms] by metis
  then show "samples_ok gs" using dict_sorted_valid(2) [OF d(1)] by (simp add: samples_ok_def)
  show "reading_explained (ss_reasons s') gs" by (rule d(4))
qed

interpretation smi: gpu_reader "smi_sample cfg" ss_reasons "\<lambda>_. True" for cfg
  by unfold_locales (auto dest: smi_sample_ok)

section \<open>Totality\<close>

text \<open>
  The boundaries fail only the documented way: the resolver with errors of the operating system,
  the runner also with subprocess errors.
\<close>

definition boundary_documented :: "'w smi_config \<Rightarrow> bool" where
  "boundary_documented cfg \<longleftrightarrow>
     (\<forall>x w e w'. sc_resolver cfg x w = (Inl e, w') \<longrightarrow> is_os_error e)
     \<and> (\<forall>a opts w e w'. sc_runner cfg a opts w = (Inl e, w') \<longrightarrow> is_os_error e \<or> is_subprocess_error e)"

lemma smi_invoke_total:
  assumes "boundary_documented cfg"
  shows "\<exists>x s'. smi_invoke cfg arguments s = (Inr x, s')"
proof -
  have "sc_resolver cfg x w = (Inl e, w') \<Longrightarrow> resolve_failure e \<noteq> None" for x w e w'
    using assms by (auto simp: boundary_documented_def resolve_failure_def)
  moreover have "sc_runner cfg a opts w = (Inl e, w') \<Longrightarrow> command_failure e \<noteq> None" for a opts w e w'
    using assms unfolding boundary_documented_def command_failure_def by (metis option.distinct(1))
  ultimately show ?thesis
    by (fastforce simp: smi_invoke_def Let_def split: prod.splits sum.splits option.splits)
qed

lemma smi_query_total:
  assumes "boundary_documented cfg"
  shows "\<exists>rows s'. smi_query cfg columns key s = (Inr rows, s') \<and> list_all row_clean rows"
proof -
  obtain out fl s1 where "smi_invoke cfg (query_arguments columns) s = (Inr (out, fl), s1)"
    using smi_invoke_total [OF assms, of "query_arguments columns" s] by auto
  then have "\<exists>rows s'. smi_query cfg columns key s = (Inr rows, s')"
    by (cases out) (auto simp: smi_query_def comp_defs on_reasons_def set_reason_def
        setdefault_reason_def Let_def)
  then show ?thesis using smi_query_Inr by blast
qed

lemma smi_sample_total:
  assumes "boundary_documented cfg"
  shows "\<exists>gs s'. smi_sample cfg s = (Inr gs, s')"
proof -
  let ?s0 = "s\<lparr>ss_reasons := []\<rparr>"
  have clear: "on_reasons clear_reasons s = (Inr (), ?s0)"
    by (simp add: on_reasons_def clear_reasons_def czoom_def cmodify_def)
  obtain core s1 where core: "smi_query cfg sample_fields ''gpu'' ?s0 = (Inr core, s1)"
    "list_all row_clean core" using smi_query_total [OF assms] by blast
  obtain d q1 where d: "rows_by_index core ''gpu.sample'' (ss_reasons s1) = (Inr d, q1)" "rows_valid d"
    using rows_by_index_eq [OF core(2)] by blast
  let ?s2 = "s1\<lparr>ss_reasons := q1\<rparr>"
  obtain thr s3 where thr: "smi_query cfg throttle_columns ''gpu.throttle_reasons'' ?s2 = (Inr thr, s3)"
    "list_all row_clean thr" using smi_query_total [OF assms] by blast
  obtain t q3 where t: "rows_by_index thr ''gpu.throttle'' (ss_reasons s3) = (Inr t, q3)"
    using rows_by_index_eq [OF thr(2)] by blast
  obtain hs q4 where hs: "ctraverse (smi_sample_row t) (dict_sorted d) q3 = (Inr hs, q4)"
    using sample_rows_eq [OF dict_sorted_valid(1) [OF d(2)]] by blast
  have last: "on_reasons (ctraverse (smi_sample_row t) (dict_sorted d)) (s3\<lparr>ss_reasons := q3\<rparr>)
        = (Inr hs, s3\<lparr>ss_reasons := q3, ss_reasons := q4\<rparr>)"
    by (rule on_reasons_eq) (simp add: hs(1))
  obtain z where none: "on_reasons no_rows_reason ?s2 = (Inr (), z)"
    by (simp add: on_reasons_def no_rows_reason_def czoom_def cmodify_def)
  show ?thesis
    by (cases "d = []")
      (simp_all add: none smi_sample_def clear core(1) thr(1) last cbind_def creturn_def
        on_reasons_eq [of "rows_by_index core ''gpu.sample''", OF d(1)]
        on_reasons_eq [of "rows_by_index thr ''gpu.throttle''", OF t])
qed

section \<open>Commands\<close>

text \<open>The same reader with every started command recorded beside the world.\<close>

type_synonym command = "string list \<times> run_options"

definition logging :: "'w smi_config \<Rightarrow> ('w \<times> command list) smi_config" where
  "logging cfg =
     \<lparr>sc_executable = sc_executable cfg,
      sc_runner = (\<lambda>a opts (w, log). case sc_runner cfg a opts w of (r, w') \<Rightarrow> (r, (w', log @ [(a, opts)]))),
      sc_resolver = (\<lambda>x (w, log). case sc_resolver cfg x w of (r, w') \<Rightarrow> (r, (w', log))),
      sc_timeout_seconds = sc_timeout_seconds cfg, sc_max_output_bytes = sc_max_output_bytes cfg,
      sc_gpu_profile = sc_gpu_profile cfg\<rparr>"

text \<open>A read-only query without a shell, under the configured time limit.\<close>

definition safe_command :: "'w smi_config \<Rightarrow> string list list \<Rightarrow> command \<Rightarrow> bool" where
  "safe_command cfg queries = (\<lambda>(a, opts).
     a \<noteq> [] \<and> hd a \<noteq> [] \<and> tl a \<in> set queries \<and> \<not> ro_shell opts \<and> ro_capture_output opts
     \<and> ro_timeout opts = sc_timeout_seconds cfg)"

definition log_extends ::
  "'w smi_config \<Rightarrow> string list list \<Rightarrow> ('w \<times> command list) smi_state \<Rightarrow> ('w \<times> command list) smi_state \<Rightarrow> bool" where
  "log_extends cfg queries s s' \<longleftrightarrow>
     (\<exists>new. snd (ss_world s') = snd (ss_world s) @ new \<and> list_all (safe_command cfg queries) new)"

lemma log_extends_preorder [simp]: "reflp (log_extends cfg q)" "transp (log_extends cfg q)"
proof -
  show "transp (log_extends cfg q)"
    by (auto simp: log_extends_def transp_def)
qed (auto simp: log_extends_def reflp_def)

lemma keeps_on_reasons: "keeps (log_extends cfg q) (on_reasons m)"
  by (auto simp: keeps_def on_reasons_def czoom_def log_extends_def split: prod.splits)

lemma keeps_invoke:
  assumes "arguments \<in> set q"
  shows "keeps (log_extends cfg q) (smi_invoke (logging cfg) arguments)"
  using assms
  by (auto simp: keeps_def smi_invoke_def logging_def log_extends_def Let_def safe_command_def smi_options_def
      text_or_def split: prod.splits sum.splits option.splits)

lemma keeps_query:
  assumes "query_arguments columns \<in> set q"
  shows "keeps (log_extends cfg q) (smi_query (logging cfg) columns key)"
  unfolding smi_query_def
  using assms
  by (auto intro!: keeps_bind keeps_invoke keeps_pure keeps_on_reasons simp: Let_def split: option.splits)

section \<open>Reading a printed table\<close>

definition gpu_table :: "(string \<Rightarrow> string) list \<Rightarrow> string" where
  "gpu_table gpus = unlines (map (\<lambda>v. written_record (map v sample_fields)) gpus)"

definition printed_index :: "(string \<Rightarrow> string) \<Rightarrow> int option" where
  "printed_index v =
     (case normalize_cell (v ''index'') of
        Cell t \<Rightarrow> (case int_of_text t of Inr n \<Rightarrow> if 0 \<le> n then Some n else None | Inl _ \<Rightarrow> None)
      | CellUnsupported \<Rightarrow> None)"

definition printed_value :: "(string \<Rightarrow> string) \<Rightarrow> gpu_field \<Rightarrow> measurement" where
  "printed_value v f =
     (case cell_number (Some (normalize_cell (v (sample_column f)))) (field_maximum f) (f \<in> {VramUsed, VramTotal}) of
        Inl _ \<Rightarrow> Unsupported | Inr n \<Rightarrow> Num n)"

lemma distinct_sample_fields: "distinct sample_fields"
  by (simp add: sample_fields_def)

lemma sample_column_in: "sample_column f \<in> set sample_fields"
  by (cases f) (simp_all add: sample_fields_def)

lemma printed_row:
  assumes "\<forall>c. dict_get r c = (if c \<in> set sample_fields then Some (normalize_cell (v c)) else None)"
  shows "0 \<le> i \<Longrightarrow> row_index r = i \<longleftrightarrow> printed_index v = Some i" "field_value r f = printed_value v f"
proof -
  show "0 \<le> i \<Longrightarrow> row_index r = i \<longleftrightarrow> printed_index v = Some i"
    using assms by (auto simp: row_index_def printed_index_def sample_fields_def
        split: parsed_cell.splits sum.splits)
  show "field_value r f = printed_value v f"
    using assms sample_column_in [of f]
    by (simp add: field_value_def field_cell_def printed_value_def field_maximum_def)
qed

lemma smi_query_table:
  assumes "sc_resolver cfg (sc_executable cfg) (ss_world s) = (Inr (Some exe), w)" "exe \<noteq> []"
    and "sc_runner cfg (exe # query_arguments sample_fields) (smi_options cfg) w =
           (Inr \<lparr>returncode = 0, stdout = Some (gpu_table gpus)\<rparr>, w')"
    and "utf8_length (gpu_table gpus) \<le> sc_max_output_bytes cfg"
    and "list_all (\<lambda>v. printable_row (map v sample_fields)) gpus"
  shows "\<exists>rows s1. smi_query cfg sample_fields key s = (Inr rows, s1)
    \<and> list_all2 (\<lambda>r v. \<forall>c. dict_get r c =
        (if c \<in> set sample_fields then Some (normalize_cell (v c)) else None)) rows gpus"
proof -
  have out: "text_or [] (Some (gpu_table gpus)) = gpu_table gpus" by (simp add: text_or_def)
  have "smi_invoke cfg (query_arguments sample_fields) s =
      (Inr (Some (gpu_table gpus), None), s\<lparr>ss_world := w'\<rparr>)"
    using assms(1-4) by (simp add: smi_invoke_def Let_def text_or_def completed_output_def)
  then show ?thesis
    using csv_table_read [OF distinct_sample_fields assms(5)]
    by (simp add: smi_query_def comp_defs gpu_table_def parse_nvidia_csv_def Let_def)
qed

text \<open>The rows of a table and the devices printed in it.\<close>

lemma table_rows_forward:
  assumes "list_all2 (\<lambda>r v. \<forall>c. dict_get r c =
      (if c \<in> set sample_fields then Some (normalize_cell (v c)) else None)) core gpus"
    and "r \<in> set core"
  shows "\<exists>v \<in> set gpus. (0 \<le> row_index r \<longrightarrow> printed_index v = Some (row_index r))
      \<and> (\<forall>f. field_value r f = printed_value v f)"
proof -
  obtain n where n: "n < length core" "r = core ! n" using assms(2) by (auto simp: in_set_conv_nth)
  have len: "length core = length gpus" using assms(1) by (rule list_all2_lengthD)
  have "\<forall>c. dict_get r c = (if c \<in> set sample_fields then Some (normalize_cell ((gpus ! n) c)) else None)"
    using list_all2_nthD [OF assms(1) n(1)] n(2) by simp
  from printed_row [OF this] show ?thesis using n len by (intro bexI [of _ "gpus ! n"]) auto
qed

lemma table_rows_backward:
  assumes "list_all2 (\<lambda>r v. \<forall>c. dict_get r c =
      (if c \<in> set sample_fields then Some (normalize_cell (v c)) else None)) core gpus"
    and "v \<in> set gpus" "printed_index v = Some i"
  shows "i \<in> row_index ` set core"
proof -
  obtain n where n: "n < length gpus" "v = gpus ! n" using assms(2) by (auto simp: in_set_conv_nth)
  have len: "length core = length gpus" using assms(1) by (rule list_all2_lengthD)
  have "\<forall>c. dict_get (core ! n) c = (if c \<in> set sample_fields then Some (normalize_cell (v c)) else None)"
    using list_all2_nthD2 [OF assms(1) n(1)] n(2) by simp
  moreover have "0 \<le> i" using assms(3) by (auto simp: printed_index_def split: parsed_cell.splits sum.splits if_splits)
  ultimately have "row_index (core ! n) = i" using printed_row(1) assms(3) by blast
  then show ?thesis using n len by (intro image_eqI [of _ _ "core ! n"]) auto
qed

text \<open>The samples of a run in which the tool answered with a table, and the rows they come from.\<close>

lemma smi_sample_table:
  assumes "sc_resolver cfg (sc_executable cfg) (ss_world s) = (Inr (Some exe), w)" "exe \<noteq> []"
    and "sc_runner cfg (exe # query_arguments sample_fields) (smi_options cfg) w =
           (Inr \<lparr>returncode = 0, stdout = Some (gpu_table gpus)\<rparr>, w')"
    and "utf8_length (gpu_table gpus) \<le> sc_max_output_bytes cfg"
    and "list_all (\<lambda>v. printable_row (map v sample_fields)) gpus"
    and "smi_sample cfg s = (Inr gs, s')"
  obtains core where "list_all2 (\<lambda>r v. \<forall>c. dict_get r c =
        (if c \<in> set sample_fields then Some (normalize_cell (v c)) else None)) core gpus"
    and "sorted_wrt (<) (map gs_index gs)"
    and "gs_index ` set gs = {i. 0 \<le> i \<and> i \<in> row_index ` set core}"
    and "\<And>g. g \<in> set gs \<Longrightarrow> \<exists>r \<in> set core. row_index r = gs_index g \<and> 0 \<le> gs_index g \<and> sample_of_row r g"
proof -
  let ?s0 = "s\<lparr>ss_reasons := []\<rparr>"
  obtain core s1 d where d: "smi_query cfg sample_fields ''gpu'' ?s0 = (Inr core, s1)" "rows_valid d"
    "dict_keys d = {i. 0 \<le> i \<and> i \<in> row_index ` set core}" "snd ` set d \<subseteq> set core"
    "map gs_index gs = map fst (dict_sorted d)"
    "list_all2 (\<lambda>(i, r) g. sample_of_row r g) (dict_sorted d) gs"
    by (rule smi_sample_Inr [OF assms(6)])
  have "sc_resolver cfg (sc_executable cfg) (ss_world ?s0) = (Inr (Some exe), w)" using assms(1) by simp
  from smi_query_table [OF this assms(2-5), of "''gpu''"] d(1)
  have rows: "list_all2 (\<lambda>r v. \<forall>c. dict_get r c =
      (if c \<in> set sample_fields then Some (normalize_cell (v c)) else None)) core gpus"
    by auto
  have idx: "gs_index ` set gs = {i. 0 \<le> i \<and> i \<in> row_index ` set core}"
    using d(3,5) dict_sorted_valid(3) [OF d(2)] by (metis list.set_map)
  have row: "\<exists>r \<in> set core. row_index r = gs_index g \<and> 0 \<le> gs_index g \<and> sample_of_row r g" if g: "g \<in> set gs" for g
  proof -
    obtain n where n: "n < length gs" "gs ! n = g" using g by (auto simp: in_set_conv_nth)
    obtain i r where ir: "dict_sorted d ! n = (i, r)" by (cases "dict_sorted d ! n")
    have len: "length (dict_sorted d) = length gs" using d(6) by (rule list_all2_lengthD)
    then have mem: "(i, r) \<in> set (dict_sorted d)" using n(1) ir nth_mem by metis
    have "i = gs_index g" using d(5) n ir len by (metis fst_conv nth_map)
    moreover have "0 \<le> i \<and> row_index r = i"
      using mem dict_sorted_valid(1) [OF d(2)] by (auto simp: list_all_iff)
    moreover have "r \<in> set core" using mem d(4) by (force simp: dict_sorted_def)
    moreover have "sample_of_row r g" using d(6) n ir len by (auto simp: list_all2_conv_all_nth)
    ultimately show ?thesis by blast
  qed
  have "sorted_wrt (<) (map gs_index gs)" unfolding d(5) by (rule dict_sorted_valid(2) [OF d(2)])
  from that [OF rows this idx row] show thesis .
qed

section \<open>What the reader promises\<close>

text \<open>
  C23: whatever the tool prints, a sample has its devices in strictly ascending order of non-negative
  indices, every supported value is finite and in the range of its field, throttle reasons are
  honest, and every value left out (or the absence of any device) has a reason among the reported
  diagnostics.
\<close>

theorem smi_sample_wellformed:
  assumes "smi_sample cfg s = (Inr gs, s')"
  shows "samples_ok gs \<and> reading_explained (smi_unavailable_reasons s') gs"
  using smi.sample_ok [OF _ assms] smi.sample_explained [OF _ assms]
  by (auto simp: smi_unavailable_reasons_def intro: reading_explained_keys)

definition demo_values :: "string \<Rightarrow> string" where
  "demo_values c =
     (if c = ''index'' then ''1'' else if c = ''uuid'' then ''GPU-a'' else if c = ''power.draw'' then ''70.5''
      else if c = ''memory.used'' then ''3'' else if c = ''fan.speed'' then ''[N/A]'' else ''40'')"

definition demo_smi :: "string \<Rightarrow> unit smi_config" where
  "demo_smi throttle =
     \<lparr>sc_executable = ''nvidia-smi'',
      sc_runner = (\<lambda>a _ w. (Inr \<lparr>returncode = 0, stdout = Some
         (if tl a = query_arguments sample_fields then gpu_table [demo_values] else throttle)\<rparr>, w)),
      sc_resolver = (\<lambda>x w. (Inr (Some (''/usr/bin/'' @ x)), w)),
      sc_timeout_seconds = PFlt (Fin 5), sc_max_output_bytes = 1000000, sc_gpu_profile = Inr\<rparr>"

definition demo_smi_init :: "unit smi_state" where
  "demo_smi_init = \<lparr>ss_reasons = [], ss_world = ()\<rparr>"

definition demo_smi_throttle :: string where
  "demo_smi_throttle = ''1, Not Active, Active''"

text \<open>The witness: one device whose fan is not available and whose application clocks are set.\<close>

theorem smi_sample_wellformed_witness:
  "case smi_sample (demo_smi demo_smi_throttle) demo_smi_init of
     (Inr gs, s') \<Rightarrow>
        samples_ok gs \<and> map gs_power_watts gs = [Num (PFlt (Fin (141 / 2)))]
        \<and> map gs_vram_used_bytes gs = [Num (PInt 3145728)]
        \<and> map gs_throttle_reasons gs = [[''applications_clocks_setting'']]
        \<and> ''gpu.1.fan_percent'' \<in> dict_keys (smi_unavailable_reasons s')
   | _ \<Rightarrow> False"
proof -
  let ?run = "smi_sample (demo_smi demo_smi_throttle) demo_smi_init"
  have run: "case fst ?run of Inr gs \<Rightarrow> map gs_power_watts gs = [Num (PFlt (Fin (141 / 2)))]
        \<and> map gs_vram_used_bytes gs = [Num (PInt 3145728)]
        \<and> map gs_throttle_reasons gs = [[''applications_clocks_setting'']]
        \<and> map gs_index gs = [1] \<and> map gs_fan_percent gs = [Unsupported] | _ \<Rightarrow> False"
    by code_simp
  then obtain gs where gs: "?run = (Inr gs, snd ?run)"
    by (cases ?run) (auto split: sum.splits)
  then have fst: "fst ?run = Inr gs" by (metis fst_conv)
  note ok = smi_sample_wellformed [OF gs]
  from run fst obtain g where g: "gs = [g]" "gs_index g = 1" "gs_fan_percent g = Unsupported"
    by auto
  have "gpu_key 1 (field_name Fan) \<in> dict_keys (smi_unavailable_reasons (snd ?run))"
    using ok g explainedD [of _ g Fan] by (auto simp: reading_explained_def)
  moreover have "gpu_key 1 (field_name Fan) = ''gpu.1.fan_percent''" by code_simp
  ultimately show ?thesis using ok run unfolding fst by (subst gs) simp
qed



text \<open>
  C25: documented failures never escape. When the resolver raises only errors of the operating system
  and the runner only those and subprocess errors, sampling returns, in any state of the reader.
\<close>

theorem smi_sample_returns:
  assumes "boundary_documented cfg"
  shows "\<exists>gs s'. smi_sample cfg s = (Inr gs, s')"
  using smi_sample_total [OF assms] .

definition failing_smi :: "exn \<Rightarrow> unit smi_config" where
  "failing_smi e = (demo_smi [])\<lparr>sc_runner := (\<lambda>_ _ w. (Inl e, w))\<rparr>"

theorem smi_sample_returns_witness:
  "boundary_documented (failing_smi TimeoutExpired) \<and>
   (\<exists>s'. smi_sample (failing_smi TimeoutExpired) demo_smi_init = (Inr [], s')
      \<and> dict_get (smi_unavailable_reasons s') ''gpu'' = Some ''nvidia_smi_timeout'')"
proof -
  have b: "boundary_documented (failing_smi TimeoutExpired)"
    by (auto simp: boundary_documented_def failing_smi_def demo_smi_def)
  obtain gs s' where r: "smi_sample (failing_smi TimeoutExpired) demo_smi_init = (Inr gs, s')"
    using smi_sample_returns [OF b] by blast
  have "case smi_sample (failing_smi TimeoutExpired) demo_smi_init of
      (Inr gs, s') \<Rightarrow> gs = [] \<and> dict_get (smi_unavailable_reasons s') ''gpu'' = Some ''nvidia_smi_timeout''
    | _ \<Rightarrow> False"
    by code_simp
  with r b show ?thesis by simp
qed

text \<open>
  C26: every command a sampling run starts is one of the two read-only queries, for a resolved
  executable, without a shell, with captured output and under the configured time limit.
\<close>

theorem smi_sample_commands:
  "\<exists>new. snd (ss_world (snd (smi_sample (logging cfg) s))) = snd (ss_world s) @ new
    \<and> list_all (safe_command cfg [query_arguments sample_fields, query_arguments throttle_columns]) new"
proof -
  have "keeps (log_extends cfg [query_arguments sample_fields, query_arguments throttle_columns])
      (smi_sample (logging cfg))"
    unfolding smi_sample_def
    by (auto intro!: keeps_bind keeps_query keeps_on_reasons keeps_pure split: if_splits)
  then show ?thesis by (auto simp: keeps_def log_extends_def)
qed

lemma smi_positive_finite_Inr:
  "smi_positive_finite x = Inr t \<longleftrightarrow> x = ONum t \<and> num_isfinite t = Inr True \<and> \<not> num_le t (PInt 0)"
  by (cases x) (auto simp: smi_positive_finite_def ebind_Inr_iff)

text \<open>An integer time limit beyond the range of a float is not refused with a validation error.\<close>

lemma smi_init_overflow:
  assumes "float_of_int k = Inl OverflowError" "strip exe \<noteq> []"
  shows "smi_init (OStr exe) (ONum (PInt k)) m = Inl OverflowError"
  using assms by (simp add: smi_init_def smi_positive_finite_def)

text \<open>
  The settings. Construction succeeds exactly for a non-blank executable, a positive finite
  time limit and a positive integer output limit, and keeps the three as they were given.
\<close>

theorem smi_settings_validated:
  "smi_init executable timeout_seconds max_output_bytes = Inr (exe, t, n) \<longleftrightarrow>
     executable = OStr exe \<and> strip exe \<noteq> [] \<and> timeout_seconds = ONum t \<and> num_isfinite t = Inr True
     \<and> \<not> num_le t (PInt 0) \<and> max_output_bytes = ONum (PInt n) \<and> 0 < n"
proof (cases executable)
  case (OStr x)
  show ?thesis
  proof (cases "\<exists>k. max_output_bytes = ONum (PInt k)")
    case True
    with OStr show ?thesis
      by (auto simp: smi_init_def ebind_Inr_iff smi_positive_finite_Inr split: if_splits)
  next
    case False
    then have "(case max_output_bytes of ONum (PInt n) \<Rightarrow> if n \<le> 0 then Inl ValidationError else Inr (x, y, n)
        | _ \<Rightarrow> Inl ValidationError) = Inl ValidationError" for y :: pynum
      by (auto split: obj.splits pynum.splits)
    with False OStr show ?thesis by (auto simp: smi_init_def ebind_Inr_iff)
  qed
qed (simp_all add: smi_init_def)

section \<open>The version in the banner\<close>

text \<open>A dotted version, and the shape of what the search finds.\<close>

definition dotted_version :: "string \<Rightarrow> bool" where
  "dotted_version v \<longleftrightarrow> (\<exists>ds gs. v = ds @ concat (map (\<lambda>g. CHR ''.'' # g) gs)
     \<and> ds \<noteq> [] \<and> list_all is_digit ds \<and> list_all (\<lambda>g. g \<noteq> [] \<and> list_all is_digit g) gs)"

lemma version_groups_sound:
  "version_groups s = Some v \<Longrightarrow>
     \<exists>gs post. s = v @ post \<and> v = concat (map (\<lambda>g. CHR ''.'' # g) gs)
       \<and> list_all (\<lambda>g. g \<noteq> [] \<and> list_all is_digit g) gs \<and> at_word_end post"
proof (induction s arbitrary: v rule: version_groups.induct)
  case (1 rest)
  have none: "rest = v @ rest \<and> v = concat (map (\<lambda>g. CHR ''.'' # g) []) \<Longrightarrow> ?case" if "at_word_end rest"
    using that by (intro exI [of _ "[]"] exI [of _ rest]) auto
  show ?case
  proof (cases rest)
    case Nil
    with 1(2) show ?thesis by (intro none) (simp_all add: at_word_end_def version_groups.simps)
  next
    case (Cons c after)
    let ?d = "takeWhile is_digit after"
    show ?thesis
    proof (cases "c = CHR ''.'' \<and> ?d \<noteq> []")
      case dot: True
      then have e: "at_word_end rest" by (simp add: at_word_end_def Cons is_word_def)
      show ?thesis
      proof (cases "version_groups (dropWhile is_digit after)")
        case None
        with 1(2) Cons dot have "v = []" by (subst (asm) version_groups.simps) (simp add: Let_def)
        with none [OF e] show ?thesis by simp
      next
        case (Some w)
        with 1(2) Cons dot have v: "v = c # ?d @ w" by (subst (asm) version_groups.simps) (simp add: Let_def)
        from 1(1) [OF Cons refl dot Some] obtain gs post where
          "dropWhile is_digit after = w @ post" "w = concat (map (\<lambda>g. CHR ''.'' # g) gs)"
          "list_all (\<lambda>g. g \<noteq> [] \<and> list_all is_digit g) gs" "at_word_end post" by blast
        moreover have "list_all is_digit ?d" by (auto simp: list_all_iff dest: set_takeWhileD)
        moreover have "after = ?d @ dropWhile is_digit after" by simp
        ultimately show ?thesis using v Cons dot
          by (intro exI [of _ "?d # gs"] exI [of _ post]) auto
      qed
    next
      case False
      with 1(2) Cons have "at_word_end rest \<and> v = []"
        by (subst (asm) version_groups.simps) (auto simp: Let_def split: if_splits)
      with none show ?thesis by simp
    qed
  qed
qed

lemma cuda_match_sound:
  assumes "cuda_match_here s = Some v"
  shows "\<exists>blank post. s = cuda_marker @ blank @ v @ post \<and> list_all is_space blank
    \<and> dotted_version v \<and> at_word_end post"
proof -
  let ?a = "drop (length cuda_marker) s"
  let ?b = "dropWhile is_space ?a"
  let ?d = "takeWhile is_digit ?b"
  from assms obtain w where w: "is_prefix cuda_marker s" "?d \<noteq> []"
    "version_groups (dropWhile is_digit ?b) = Some w" "v = ?d @ w"
    by (auto simp: cuda_match_here_def Let_def split: if_splits)
  obtain gs post where g: "dropWhile is_digit ?b = w @ post" "w = concat (map (\<lambda>g. CHR ''.'' # g) gs)"
    "list_all (\<lambda>g. g \<noteq> [] \<and> list_all is_digit g) gs" "at_word_end post"
    using version_groups_sound [OF w(3)] by blast
  have "s = cuda_marker @ ?a" using w(1) by (metis append_take_drop_id is_prefix_def)
  also have "?a = takeWhile is_space ?a @ ?d @ w @ post"
    using g(1) by (metis takeWhile_dropWhile_id)
  finally have "s = cuda_marker @ takeWhile is_space ?a @ v @ post" using w(4) by simp
  moreover have "list_all is_space (takeWhile is_space ?a)" "list_all is_digit ?d"
    by (auto simp: list_all_iff dest: set_takeWhileD)
  moreover have "dotted_version v"
    unfolding dotted_version_def w(4)
    using w(2) g(2,3) \<open>list_all is_digit ?d\<close> by (intro exI [of _ ?d] exI [of _ gs]) simp
  ultimately show ?thesis using g(4) by blast
qed

lemma cuda_search_sound:
  assumes "cuda_search inside s = Some v"
  shows "\<exists>pre blank post. s = pre @ cuda_marker @ blank @ v @ post \<and> list_all is_space blank
    \<and> dotted_version v \<and> at_word_end post"
  using assms
proof (induction s arbitrary: inside)
  case (Cons c cs)
  show ?case
  proof (cases "if inside then None else cuda_match_here (c # cs)")
    case None
    with Cons.prems have "cuda_search (is_word c) cs = Some v" by simp
    from Cons.IH [OF this] obtain pre blank post where
      "cs = pre @ cuda_marker @ blank @ v @ post \<and> list_all is_space blank
        \<and> dotted_version v \<and> at_word_end post" by blast
    then show ?thesis by (intro exI [of _ "c # pre"] exI [of _ blank] exI [of _ post]) auto
  next
    case (Some w)
    with Cons.prems have "cuda_match_here (c # cs) = Some v" by (auto split: if_splits)
    from cuda_match_sound [OF this] show ?thesis by (metis append_Nil)
  qed
qed simp

text \<open>
  C37: a version read from the banner is a dotted number that stands in it, right after the
  words that announce it and up to the end of the word.
\<close>

theorem cuda_version_sound:
  assumes "cuda_search False banner = Some v"
  shows "\<exists>pre blank post. banner = pre @ ''CUDA Version:'' @ blank @ v @ post
    \<and> list_all is_space blank \<and> dotted_version v \<and> at_word_end post"
  using cuda_search_sound [OF assms] by (simp add: cuda_marker_def)

theorem cuda_version_sound_witness:
  "cuda_search False ''| Driver: 550.1  CUDA Version: 12.4.1b |'' = Some ''12.4''
   \<and> dotted_version ''12.4''"
proof -
  have run: "cuda_search False ''| Driver: 550.1  CUDA Version: 12.4.1b |'' = Some ''12.4''" by code_simp
  with cuda_version_sound [OF run] show ?thesis by blast
qed

end
