(* ===== verification/Nvml.thy ===== *)
theory Nvml
  imports Gpu_Contract
begin

unbundle bit_operations_syntax

text \<open>
  \<open>NvmlGpuReader\<close> of src/sweatmeter/readers/nvml.py. The binding (the package pynvml or
  another object of its shape) is a parameter: its attributes may be absent or not callable, and
  its operations act on a world and may raise. So are importing the binding and constructing a
  \<open>GpuProfile\<close> of baseaicore. The state is the binding in use, the initialization flag, the
  diagnostics and the world.
\<close>

section \<open>The binding\<close>

datatype 'f attribute = NoAttribute | NotCallable | Callable 'f

text \<open>
  Results the code inspects are dynamic values; a memory or utilization structure is the pair of
  attributes read from it (\<open>ONone\<close> for one that is absent), a handle may be \<open>None\<close>.
\<close>

record ('w, 'h) nvml_binding =
  nb_Init :: "('w, unit) comp attribute"
  nb_Shutdown :: "('w, unit) comp attribute"
  nb_SystemGetDriverVersion :: "('w, obj) comp attribute"
  nb_SystemGetCudaDriverVersion :: "('w, obj) comp attribute"
  nb_DeviceGetCount :: "('w, obj) comp attribute"
  nb_DeviceGetHandleByIndex :: "(int \<Rightarrow> ('w, 'h option) comp) attribute"
  nb_DeviceGetName :: "('h \<Rightarrow> ('w, obj) comp) attribute"
  nb_DeviceGetUUID :: "('h \<Rightarrow> ('w, obj) comp) attribute"
  nb_DeviceGetMemoryInfo :: "('h \<Rightarrow> ('w, obj \<times> obj) comp) attribute"
  nb_DeviceGetUtilizationRates :: "('h \<Rightarrow> ('w, obj \<times> obj) comp) attribute"
  nb_DeviceGetTemperature :: "('h \<Rightarrow> obj \<Rightarrow> ('w, obj) comp) attribute"
  nb_DeviceGetPowerUsage :: "('h \<Rightarrow> ('w, obj) comp) attribute"
  nb_DeviceGetEnforcedPowerLimit :: "('h \<Rightarrow> ('w, obj) comp) attribute"
  nb_DeviceGetFanSpeed :: "('h \<Rightarrow> ('w, obj) comp) attribute"
  nb_DeviceGetClockInfo :: "('h \<Rightarrow> obj \<Rightarrow> ('w, obj) comp) attribute"
  nb_DeviceGetCudaComputeCapability :: "('h \<Rightarrow> ('w, obj) comp) attribute"
  nb_DeviceGetCurrentClocksThrottleReasons :: "('h \<Rightarrow> ('w, obj) comp) attribute"
  nb_DeviceGetSupportedClocksThrottleReasons :: "('h \<Rightarrow> ('w, obj) comp) attribute"
  nb_TEMPERATURE_GPU :: "obj option"
  nb_CLOCK_SM :: "obj option"
  nb_CLOCK_MEM :: "obj option"

record ('w, 'h) nvml_env =
  ne_import_module :: "('w, ('w, 'h) nvml_binding) comp"
  ne_find_spec :: "('w, bool) comp"
  ne_gpu_profile :: "gpu_profile \<Rightarrow> gpu_profile result"

record ('w, 'h) nvml_state =
  ns_binding :: "('w, 'h) nvml_binding option"
  ns_initialized :: bool
  ns_reasons :: reasons
  ns_world :: 'w

definition nvml_init :: "('w, 'h) nvml_binding option \<Rightarrow> 'w \<Rightarrow> ('w, 'h) nvml_state" where
  "nvml_init binding w =
     \<lparr>ns_binding = binding, ns_initialized = False, ns_reasons = [], ns_world = w\<rparr>"

section \<open>Reasons by exception class\<close>

definition attribute_error :: exn where
  "attribute_error = NamedError ''AttributeError''"

text \<open>The class name; the built-in classes have names that the table does not list.\<close>

fun exn_class :: "exn \<Rightarrow> string" where
  "exn_class (NamedError c) = c"
| "exn_class DependencyUnavailableError = ''DependencyUnavailableError''"
| "exn_class _ = []"

definition error_reasons :: "(string, string) dict" where
  "error_reasons =
     [(''NVMLError_NotSupported'', ''sensor_unsupported''),
      (''NVMLError_InvalidArgument'', ''sensor_unsupported''),
      (''NVMLError_FunctionNotFound'', ''sensor_unsupported''),
      (''NVMLError_NoPermission'', ''permission_denied''),
      (''NVMLError_LibraryNotFound'', ''nvml_library_not_found''),
      (''NVMLError_DriverNotLoaded'', ''nvml_driver_not_loaded''),
      (''NVMLError_Uninitialized'', ''nvml_not_initialized''),
      (''NVMLError_GpuIsLost'', ''gpu_lost''),
      (''NVMLError_Timeout'', ''nvml_timeout'')]"

definition failure_reason :: "exn \<Rightarrow> string" where
  "failure_reason e =
     (case dict_get error_reasons (exn_class e) of Some r \<Rightarrow> r | None \<Rightarrow> ''nvml_error'')"

section \<open>Normalizing values\<close>

definition nvml_text :: "obj \<Rightarrow> string option result" where
  "nvml_text v =
     ebind (case v of
              OBytes raw \<Rightarrow> safe_result (emap OStr raw) ONone
            | _ \<Rightarrow> Inr v)
       (\<lambda>decoded. Inr (case decoded of
          OStr t \<Rightarrow> if strip t = [] then None else Some (strip t)
        | _ \<Rightarrow> None))"

definition nvml_number :: "obj \<Rightarrow> pyfloat \<Rightarrow> pyfloat \<Rightarrow> pyfloat option \<Rightarrow> measurement result" where
  "nvml_number v scale minimum maximum =
     (case v of
        ONum n \<Rightarrow>
          ebind (num_isfinite n) (\<lambda>finite.
            if \<not> finite then Inr Unsupported
            else ebind (if scale \<noteq> Fin 1 then num_div n (PFlt scale) else Inr n) (\<lambda>scaled.
              ebind (num_isfinite scaled) (\<lambda>finite.
                if \<not> finite \<or> num_less scaled (PFlt minimum) then Inr Unsupported
                else if (case maximum of None \<Rightarrow> False | Some hi \<Rightarrow> num_less (PFlt hi) scaled)
                then Inr Unsupported
                else Inr (Num scaled))))
      | _ \<Rightarrow> Inr Unsupported)"

definition plain_number :: "obj \<Rightarrow> measurement result" where
  "plain_number v = nvml_number v (Fin 1) (Fin 0) None"

definition percent_number :: "obj \<Rightarrow> measurement result" where
  "percent_number v = nvml_number v (Fin 1) (Fin 0) (Some (Fin 100))"

definition milli_number :: "obj \<Rightarrow> measurement result" where
  "milli_number v = nvml_number v (Fin 1000) (Fin 0) None"

definition celsius_number :: "obj \<Rightarrow> measurement result" where
  "celsius_number v = nvml_number v (Fin 1) absolute_zero None"

section \<open>One call\<close>

definition nvml_set :: "string \<Rightarrow> string \<Rightarrow> (('w, 'h) nvml_state, unit) comp" where
  "nvml_set key reason = cmodify (\<lambda>s. s\<lparr>ns_reasons := dict_set key reason (ns_reasons s)\<rparr>)"

definition nvml_setdefault :: "string \<Rightarrow> string \<Rightarrow> (('w, 'h) nvml_state, unit) comp" where
  "nvml_setdefault key reason =
     cmodify (\<lambda>s. s\<lparr>ns_reasons := dict_setdefault key reason (ns_reasons s)\<rparr>)"

definition on_world :: "('w, 'a) comp \<Rightarrow> (('w, 'h) nvml_state, 'a) comp" where
  "on_world = czoom ns_world (\<lambda>w s. s\<lparr>ns_world := w\<rparr>)"

text \<open>\<open>_attempt\<close> of a callable: its value, or \<open>None\<close> with the reason of its failure.\<close>

definition nvml_attempt :: "('w, 'a) comp \<Rightarrow> string \<Rightarrow> (('w, 'h) nvml_state, 'a option) comp" where
  "nvml_attempt operation reason_key =
     cbind (on_world (safe_call (cbind operation (\<lambda>v. creturn (Some v))) None)) (\<lambda>(v, failure).
       case failure of
         None \<Rightarrow> creturn v
       | Some e \<Rightarrow> cbind (nvml_set reason_key (failure_reason e)) (\<lambda>_. creturn None))"

text \<open>Calling an attribute inside a deferred expression.\<close>

fun attribute_call :: "'f attribute \<Rightarrow> ('f \<Rightarrow> ('w, 'a) comp) \<Rightarrow> ('w, 'a) comp" where
  "attribute_call NoAttribute k = craise attribute_error"
| "attribute_call NotCallable k = craise TypeError"
| "attribute_call (Callable f) k = k f"

text \<open>\<open>_attempt(binding.name, ...)\<close>: the attribute itself is read before the call is guarded.\<close>

definition nvml_attempt_attribute ::
  "('w, 'a) comp attribute \<Rightarrow> string \<Rightarrow> (('w, 'h) nvml_state, 'a option) comp" where
  "nvml_attempt_attribute attr reason_key =
     (case attr of
        NoAttribute \<Rightarrow> craise attribute_error
      | NotCallable \<Rightarrow> cbind (nvml_set reason_key ''nvml_binding_incomplete'') (\<lambda>_. creturn None)
      | Callable operation \<Rightarrow> nvml_attempt operation reason_key)"

definition value_or_none :: "obj option \<Rightarrow> obj" where
  "value_or_none v = (case v of None \<Rightarrow> ONone | Some x \<Rightarrow> x)"

definition nvml_value :: "('w, obj) comp \<Rightarrow> string \<Rightarrow> (('w, 'h) nvml_state, obj) comp" where
  "nvml_value operation reason_key =
     cbind (nvml_attempt operation reason_key) (\<lambda>v. creturn (value_or_none v))"

definition nvml_device_value ::
  "('h \<Rightarrow> ('w, obj) comp) attribute \<Rightarrow> 'h \<Rightarrow> string \<Rightarrow> (('w, 'h) nvml_state, obj) comp" where
  "nvml_device_value attr handle reason_key =
     nvml_value (attribute_call attr (\<lambda>f. f handle)) reason_key"

text \<open>A call with a constant of the binding as its second argument.\<close>

definition nvml_selected_value ::
  "('h \<Rightarrow> obj \<Rightarrow> ('w, obj) comp) attribute \<Rightarrow> 'h \<Rightarrow> obj option \<Rightarrow> string \<Rightarrow> (('w, 'h) nvml_state, obj) comp" where
  "nvml_selected_value attr handle selector reason_key =
     nvml_value
       (case selector of
          None \<Rightarrow> craise attribute_error
        | Some c \<Rightarrow> attribute_call attr (\<lambda>f. f handle c)) reason_key"

section \<open>Lifecycle\<close>

definition load_nvml_binding :: "('w, 'h) nvml_env \<Rightarrow> ('w, ('w, 'h) nvml_binding) comp" where
  "load_nvml_binding env =
     cbind (safe_call (cbind (ne_import_module env) (\<lambda>b. creturn (Some b))) None) (\<lambda>(module, failure).
       case module of None \<Rightarrow> craise DependencyUnavailableError | Some b \<Rightarrow> creturn b)"

definition nvml_binding_available :: "('w, 'h) nvml_env \<Rightarrow> ('w, bool) comp" where
  "nvml_binding_available env = safe (ne_find_spec env) False"

text \<open>The rest of \<open>_ready\<close> once a binding is installed in the reader.\<close>

definition nvml_initialize ::
  "('w, 'h) nvml_binding \<Rightarrow> (('w, 'h) nvml_state, ('w, 'h) nvml_binding option) comp" where
  "nvml_initialize b =
     cbind (cgets ns_initialized) (\<lambda>initialized.
       if initialized then creturn (Some b)
       else case nb_Init b of
         Callable initializer \<Rightarrow>
           cbind (on_world (safe_call initializer ())) (\<lambda>(_, failure).
             case failure of
               Some e \<Rightarrow> cbind (nvml_set ''gpu'' (failure_reason e)) (\<lambda>_. creturn None)
             | None \<Rightarrow> cbind (cmodify (\<lambda>s. s\<lparr>ns_initialized := True\<rparr>)) (\<lambda>_. creturn (Some b)))
       | _ \<Rightarrow> cbind (nvml_set ''gpu'' ''nvml_binding_incomplete'') (\<lambda>_. creturn None))"

definition nvml_ready ::
  "('w, 'h) nvml_env \<Rightarrow> (('w, 'h) nvml_state, ('w, 'h) nvml_binding option) comp" where
  "nvml_ready env =
     cbind (cgets ns_binding) (\<lambda>current.
       case current of
         Some b \<Rightarrow> nvml_initialize b
       | None \<Rightarrow>
           cbind (on_world (safe_call (cbind (load_nvml_binding env) (\<lambda>b. creturn (Some b))) None))
             (\<lambda>(loaded, failure).
               case loaded of
                 None \<Rightarrow>
                   cbind (nvml_set ''gpu''
                       (if failure = Some DependencyUnavailableError then ''pynvml_not_installed''
                        else ''nvml_error''))
                     (\<lambda>_. creturn None)
               | Some b \<Rightarrow>
                   cbind (cmodify (\<lambda>s. s\<lparr>ns_binding := Some b\<rparr>)) (\<lambda>_. nvml_initialize b)))"

definition nvml_close :: "(('w, 'h) nvml_state, unit) comp" where
  "nvml_close =
     cbind (cgets (\<lambda>s. (ns_binding s, ns_initialized s))) (\<lambda>(binding, initialized).
     cbind (cmodify (\<lambda>s. s\<lparr>ns_initialized := False\<rparr>)) (\<lambda>_.
       case binding of
         None \<Rightarrow> creturn ()
       | Some b \<Rightarrow>
           if initialized
           then cbind (nvml_attempt_attribute (nb_Shutdown b) ''gpu'') (\<lambda>_. creturn ())
           else creturn ()))"

definition nvml_clear :: "(('w, 'h) nvml_state, unit) comp" where
  "nvml_clear = cmodify (\<lambda>s. s\<lparr>ns_reasons := []\<rparr>)"

definition nvml_unavailable_reasons :: "('w, 'h) nvml_state \<Rightarrow> reasons" where
  "nvml_unavailable_reasons s = dict_sorted (ns_reasons s)"

section \<open>Device queries\<close>

definition device_count :: "('w, 'h) nvml_binding \<Rightarrow> (('w, 'h) nvml_state, int) comp" where
  "device_count b =
     cbind (nvml_attempt_attribute (nb_DeviceGetCount b) ''gpu'') (\<lambda>count.
       let malformed = cbind (nvml_setdefault ''gpu'' ''malformed_value'') (\<lambda>_. creturn 0) in
       case value_or_none count of
         ONum (PInt n) \<Rightarrow> if n < 0 then malformed else creturn n
       | _ \<Rightarrow> malformed)"

definition device_key :: "int \<Rightarrow> string" where
  "device_key index = ''gpu.'' @ show_int index"

definition device_handle ::
  "('w, 'h) nvml_binding \<Rightarrow> int \<Rightarrow> (('w, 'h) nvml_state, 'h option) comp" where
  "device_handle b index =
     cbind (nvml_attempt (attribute_call (nb_DeviceGetHandleByIndex b) (\<lambda>f. f index)) (device_key index))
       (\<lambda>h. creturn (Option.bind h (\<lambda>x. x)))"

definition unsupported_default ::
  "measurement \<Rightarrow> string \<Rightarrow> (('w, 'h) nvml_state, unit) comp" where
  "unsupported_default m key =
     (if m = Unsupported then nvml_setdefault key ''sensor_unsupported'' else creturn ())"

definition device_memory ::
  "('w, 'h) nvml_binding \<Rightarrow> 'h \<Rightarrow> int \<Rightarrow> (('w, 'h) nvml_state, measurement \<times> measurement) comp" where
  "device_memory b handle index =
     cbind (nvml_attempt (attribute_call (nb_DeviceGetMemoryInfo b) (\<lambda>f. f handle))
              (gpu_key index ''vram_used_bytes'')) (\<lambda>info.
     let (used_attr, total_attr) = (case info of None \<Rightarrow> (ONone, ONone) | Some p \<Rightarrow> p) in
     cbind (clift (plain_number used_attr)) (\<lambda>used.
     cbind (clift (plain_number total_attr)) (\<lambda>total_bytes.
     cbind (unsupported_default used (gpu_key index ''vram_used_bytes'')) (\<lambda>_.
     cbind (unsupported_default total_bytes (gpu_key index ''vram_total_bytes'')) (\<lambda>_.
       creturn (used, total_bytes))))))"

definition nvml_cuda_version ::
  "('w, 'h) nvml_binding \<Rightarrow> (('w, 'h) nvml_state, string option) comp" where
  "nvml_cuda_version b =
     cbind (nvml_attempt_attribute (nb_SystemGetCudaDriverVersion b) ''gpu.cuda_version'') (\<lambda>raw.
       let malformed = cbind (nvml_setdefault ''gpu.cuda_version'' ''malformed_value'') (\<lambda>_. creturn None) in
       case value_or_none raw of
         ONum (PInt n) \<Rightarrow>
           if n \<le> 0 then malformed
           else creturn (Some (show_int (n div 1000) @ ''.'' @ show_int (n mod 1000 div 10)))
       | _ \<Rightarrow> malformed)"

definition compute_capability ::
  "('w, 'h) nvml_binding \<Rightarrow> 'h \<Rightarrow> int \<Rightarrow> (('w, 'h) nvml_state, string option) comp" where
  "compute_capability b handle index =
     (let key = gpu_key index ''compute_capability'' in
      cbind (nvml_device_value (nb_DeviceGetCudaComputeCapability b) handle key) (\<lambda>raw.
        case raw of
          OSeq [major, minor] \<Rightarrow>
            (case (major, minor) of
               (ONum (PInt a), ONum (PInt c)) \<Rightarrow> creturn (Some (show_int a @ ''.'' @ show_int c))
             | _ \<Rightarrow> cbind (nvml_set key ''malformed_value'') (\<lambda>_. creturn None))
        | _ \<Rightarrow> cbind (nvml_setdefault key ''malformed_value'') (\<lambda>_. creturn None)))"

definition throttle_bits :: "(string \<times> int) list" where
  "throttle_bits =
     [(''gpu_idle'', 1), (''applications_clocks_setting'', 2), (''sw_power_cap'', 4),
      (''hw_slowdown'', 8), (''sync_boost'', 16), (''sw_thermal_slowdown'', 32),
      (''hw_thermal_slowdown'', 64), (''hw_power_brake_slowdown'', 128)]"

definition active_bits :: "int \<Rightarrow> int \<Rightarrow> string list" where
  "active_bits supported current =
     map fst (filter (\<lambda>(_, bit). (supported AND bit) \<noteq> 0 \<and> (current AND bit) \<noteq> 0) throttle_bits)"

definition nvml_throttle_reasons ::
  "('w, 'h) nvml_binding \<Rightarrow> 'h \<Rightarrow> int \<Rightarrow> (('w, 'h) nvml_state, string list \<times> bool) comp" where
  "nvml_throttle_reasons b handle index =
     (let key = gpu_key index ''throttle_reasons'' in
      cbind (nvml_device_value (nb_DeviceGetSupportedClocksThrottleReasons b) handle key) (\<lambda>supported.
      cbind (nvml_device_value (nb_DeviceGetCurrentClocksThrottleReasons b) handle key) (\<lambda>current.
        let unknown = cbind (nvml_setdefault key ''sensor_unsupported'') (\<lambda>_. creturn ([], False)) in
        case (supported, current) of
          (ONum (PInt a), ONum (PInt c)) \<Rightarrow>
            if a \<le> 0 \<or> c < 0 then unknown else creturn (active_bits a c, True)
        | _ \<Rightarrow> unknown)))"

section \<open>Samples\<close>

definition nvml_late_fields :: "gpu_field list" where
  "nvml_late_fields = [Utilization, MemoryUtilization, Temperature, Power, PowerLimit, Fan, CoreClock, MemoryClock]"

fun default_fields ::
  "gpu_sample \<Rightarrow> int \<Rightarrow> gpu_field list \<Rightarrow> (('w, 'h) nvml_state, unit) comp" where
  "default_fields g index [] = creturn ()"
| "default_fields g index (f # fs) =
     cbind (unsupported_default (gpu_get f g) (gpu_key index (field_name f)))
       (\<lambda>_. default_fields g index fs)"

definition sample_device ::
  "('w, 'h) nvml_binding \<Rightarrow> 'h \<Rightarrow> int \<Rightarrow> (('w, 'h) nvml_state, gpu_sample) comp" where
  "sample_device b h index =
     cbind (device_memory b h index) (\<lambda>(used_bytes, total_bytes).
     cbind (nvml_attempt (attribute_call (nb_DeviceGetUtilizationRates b) (\<lambda>f. f h))
              (gpu_key index ''utilization_percent'')) (\<lambda>rates.
     let (gpu_rate, memory_rate) = (case rates of None \<Rightarrow> (ONone, ONone) | Some p \<Rightarrow> p) in
     cbind (nvml_throttle_reasons b h index) (\<lambda>(throttle, throttle_available).
     cbind (nvml_device_value (nb_DeviceGetUUID b) h (gpu_key index ''uuid'')) (\<lambda>raw_uuid.
     cbind (clift (nvml_text raw_uuid)) (\<lambda>uuid.
     cbind (clift (percent_number gpu_rate)) (\<lambda>utilization.
     cbind (clift (percent_number memory_rate)) (\<lambda>memory_utilization.
     cbind (nvml_selected_value (nb_DeviceGetTemperature b) h (nb_TEMPERATURE_GPU b)
              (gpu_key index ''temperature_c'')) (\<lambda>raw_temperature.
     cbind (clift (celsius_number raw_temperature)) (\<lambda>temperature.
     cbind (nvml_device_value (nb_DeviceGetPowerUsage b) h (gpu_key index ''power_watts'')) (\<lambda>raw_power.
     cbind (clift (milli_number raw_power)) (\<lambda>power.
     cbind (nvml_device_value (nb_DeviceGetEnforcedPowerLimit b) h
              (gpu_key index ''power_limit_watts'')) (\<lambda>raw_limit.
     cbind (clift (milli_number raw_limit)) (\<lambda>power_limit.
     cbind (nvml_device_value (nb_DeviceGetFanSpeed b) h (gpu_key index ''fan_percent'')) (\<lambda>raw_fan.
     cbind (clift (percent_number raw_fan)) (\<lambda>fan.
     cbind (nvml_selected_value (nb_DeviceGetClockInfo b) h (nb_CLOCK_SM b)
              (gpu_key index ''core_clock_mhz'')) (\<lambda>raw_core.
     cbind (clift (plain_number raw_core)) (\<lambda>core_clock.
     cbind (nvml_selected_value (nb_DeviceGetClockInfo b) h (nb_CLOCK_MEM b)
              (gpu_key index ''memory_clock_mhz'')) (\<lambda>raw_memory_clock.
     cbind (clift (plain_number raw_memory_clock)) (\<lambda>memory_clock.
     let g = \<lparr>gs_index = index, gs_uuid = uuid, gs_utilization_percent = utilization,
           gs_memory_utilization_percent = memory_utilization, gs_vram_used_bytes = used_bytes,
           gs_vram_total_bytes = total_bytes, gs_temperature_c = temperature,
           gs_memory_temperature_c = Unsupported, gs_power_watts = power,
           gs_power_limit_watts = power_limit, gs_fan_percent = fan, gs_core_clock_mhz = core_clock,
           gs_memory_clock_mhz = memory_clock, gs_throttle_reasons = throttle,
           gs_throttle_reasons_available = throttle_available\<rparr> in
     cbind (nvml_setdefault (gpu_key index ''memory_temperature_c'') ''sensor_unsupported'') (\<lambda>_.
     cbind (default_fields g index nvml_late_fields) (\<lambda>_.
       creturn g)))))))))))))))))))))"

text \<open>The devices in turn; one without a handle is skipped.\<close>

fun each_device ::
  "('w, 'h) nvml_binding \<Rightarrow> ('h \<Rightarrow> int \<Rightarrow> (('w, 'h) nvml_state, 'a) comp) \<Rightarrow> int list \<Rightarrow>
     (('w, 'h) nvml_state, 'a list) comp" where
  "each_device b read [] = creturn []"
| "each_device b read (index # indices) =
     cbind (device_handle b index) (\<lambda>handle.
       case handle of
         None \<Rightarrow> each_device b read indices
       | Some h \<Rightarrow>
           cbind (read h index) (\<lambda>x. cbind (each_device b read indices) (\<lambda>xs. creturn (x # xs))))"

definition or_no_gpus :: "'a list \<Rightarrow> (('w, 'h) nvml_state, 'a list) comp" where
  "or_no_gpus xs =
     cbind (if xs = [] then nvml_setdefault ''gpu'' ''no_nvidia_gpus'' else creturn ())
       (\<lambda>_. creturn xs)"

definition nvml_sample :: "('w, 'h) nvml_env \<Rightarrow> (('w, 'h) nvml_state, gpu_sample list) comp" where
  "nvml_sample env =
     cbind nvml_clear (\<lambda>_.
     cbind (nvml_ready env) (\<lambda>binding.
       case binding of
         None \<Rightarrow> creturn []
       | Some b \<Rightarrow>
           cbind (device_count b) (\<lambda>count.
           cbind (each_device b (sample_device b) [0..count - 1]) or_no_gpus)))"

definition nvml_available :: "('w, 'h) nvml_env \<Rightarrow> (('w, 'h) nvml_state, bool) comp" where
  "nvml_available env =
     cbind nvml_clear (\<lambda>_.
     cbind (nvml_ready env) (\<lambda>binding.
       case binding of
         None \<Rightarrow> creturn False
       | Some b \<Rightarrow>
           cbind (device_count b) (\<lambda>count.
             if count \<le> 0
             then cbind (nvml_setdefault ''gpu'' ''no_nvidia_gpus'') (\<lambda>_. creturn False)
             else creturn True)))"

definition profile_device ::
  "('w, 'h) nvml_env \<Rightarrow> ('w, 'h) nvml_binding \<Rightarrow> string option \<Rightarrow> string option \<Rightarrow> 'h \<Rightarrow> int \<Rightarrow>
     (('w, 'h) nvml_state, gpu_profile) comp" where
  "profile_device env b driver_version cuda_version h index =
     cbind (nvml_device_value (nb_DeviceGetName b) h (gpu_key index ''name'')) (\<lambda>raw_name.
     cbind (clift (nvml_text raw_name)) (\<lambda>name.
     cbind (nvml_device_value (nb_DeviceGetUUID b) h (gpu_key index ''uuid'')) (\<lambda>raw_uuid.
     cbind (clift (nvml_text raw_uuid)) (\<lambda>uuid.
     cbind (device_memory b h index) (\<lambda>(_, total_bytes).
     cbind (compute_capability b h index) (\<lambda>capability.
     clift (ne_gpu_profile env \<lparr>gp_index = index, gp_name = name, gp_uuid = uuid,
       gp_vram_total_bytes = total_bytes, gp_driver_version = driver_version,
       gp_cuda_version = cuda_version, gp_compute_capability = capability,
       gp_vendor = VendorNvidia\<rparr>)))))))"

definition nvml_static_info :: "('w, 'h) nvml_env \<Rightarrow> (('w, 'h) nvml_state, gpu_profile list) comp" where
  "nvml_static_info env =
     cbind nvml_clear (\<lambda>_.
     cbind (nvml_ready env) (\<lambda>binding.
       case binding of
         None \<Rightarrow> creturn []
       | Some b \<Rightarrow>
           cbind (nvml_attempt_attribute (nb_SystemGetDriverVersion b) ''gpu.driver_version'') (\<lambda>raw.
           cbind (clift (nvml_text (value_or_none raw))) (\<lambda>driver_version.
           cbind (nvml_cuda_version b) (\<lambda>cuda_version.
           cbind (device_count b) (\<lambda>count.
           cbind (each_device b (profile_device env b driver_version cuda_version) [0..count - 1])
             or_no_gpus))))))"

section \<open>Values and diagnostics of a run\<close>

text \<open>
  \<open>yields m P D\<close>: a normal return of \<open>m\<close> satisfies \<open>P\<close>, keeps every diagnostic
  key and leaves at least the keys \<open>D\<close> of its value.
\<close>

definition yields ::
  "(('w, 'h) nvml_state, 'a) comp \<Rightarrow> ('a \<Rightarrow> bool) \<Rightarrow> ('a \<Rightarrow> string set) \<Rightarrow> bool" where
  "yields m P D \<longleftrightarrow>
     (\<forall>s x s'. m s = (Inr x, s') \<longrightarrow> P x \<and> dict_keys (ns_reasons s) \<union> D x \<subseteq> dict_keys (ns_reasons s'))"

lemma yieldsD:
  "yields m P D \<Longrightarrow> m s = (Inr x, s') \<Longrightarrow>
     P x \<and> dict_keys (ns_reasons s) \<union> D x \<subseteq> dict_keys (ns_reasons s')"
  by (simp add: yields_def)

lemma yields_bind:
  assumes "yields m P D" and "\<And>x. P x \<Longrightarrow> yields (f x) Q (\<lambda>y. F y - D x)"
  shows "yields (cbind m f) Q F"
  unfolding yields_def
proof (intro allI impI)
  fix s y s'
  assume "cbind m f s = (Inr y, s')"
  then obtain x s1 where x: "m s = (Inr x, s1)" "f x s1 = (Inr y, s')"
    by (auto simp: cbind_def split: prod.splits sum.splits)
  from yieldsD [OF assms(1) x(1)] have 1: "P x" "dict_keys (ns_reasons s) \<union> D x \<subseteq> dict_keys (ns_reasons s1)"
    by auto
  from yieldsD [OF assms(2) [OF 1(1)] x(2)] 1(2)
  show "Q y \<and> dict_keys (ns_reasons s) \<union> F y \<subseteq> dict_keys (ns_reasons s')" by auto
qed

lemma yields_weaken:
  assumes "yields m P D" "\<And>x. P x \<Longrightarrow> Q x" "\<And>x. P x \<Longrightarrow> F x \<subseteq> D x"
  shows "yields m Q F"
  using assms unfolding yields_def by blast

lemma yields_creturn: "P x \<Longrightarrow> D x = {} \<Longrightarrow> yields (creturn x) P D"
  by (simp add: yields_def creturn_def)

lemma yields_clift: "yields (clift r) (\<lambda>x. r = Inr x) (\<lambda>_. {})"
  by (simp add: yields_def clift_def)

lemma yields_craise: "yields (craise e) P D"
  by (simp add: yields_def craise_def)

lemma yields_on_world: "yields (on_world m) (\<lambda>_. True) (\<lambda>_. {})"
  by (auto simp: yields_def on_world_def czoom_def split: prod.splits)

lemma yields_set:
  "yields (nvml_set k v) (\<lambda>_. True) (\<lambda>_. {k})" "yields (nvml_setdefault k v) (\<lambda>_. True) (\<lambda>_. {k})"
  by (auto simp: yields_def nvml_set_def nvml_setdefault_def cmodify_def)

lemma yields_unsupported_default:
  "yields (unsupported_default m k) (\<lambda>_. True) (\<lambda>_. if m = Unsupported then {k} else {})"
  by (auto simp: unsupported_default_def yields_set yields_creturn)

lemma yields_set_return: "yields (cbind (nvml_set k r) (\<lambda>_. creturn x)) (\<lambda>_. True) (\<lambda>_. {})"
  by (rule yields_bind [OF yields_set(1)]) (simp add: yields_creturn)

lemma yields_attempt: "yields (nvml_attempt m k) (\<lambda>_. True) (\<lambda>_. {})"
  unfolding nvml_attempt_def
  by (rule yields_bind [OF yields_on_world])
    (auto simp: yields_creturn yields_set_return split: prod.split option.split)

lemma yields_attempt_attribute: "yields (nvml_attempt_attribute a k) (\<lambda>_. True) (\<lambda>_. {})"
  by (cases a)
    (simp_all add: nvml_attempt_attribute_def yields_craise yields_attempt yields_set_return)

lemma yields_value: "yields (nvml_value m k) (\<lambda>_. True) (\<lambda>_. {})"
  unfolding nvml_value_def by (rule yields_bind [OF yields_attempt]) (simp add: yields_creturn)

lemma yields_device_value: "yields (nvml_device_value a h k) (\<lambda>_. True) (\<lambda>_. {})"
  unfolding nvml_device_value_def by (rule yields_value)

lemma yields_selected_value: "yields (nvml_selected_value a h c k) (\<lambda>_. True) (\<lambda>_. {})"
  unfolding nvml_selected_value_def by (rule yields_value)

section \<open>Numbers and throttle reasons\<close>

lemma nvml_number_ok:
  assumes "nvml_number v scale lo hi = Inr m" "lo \<noteq> NaN" "hi \<noteq> Some NaN"
  shows "measurement_ok lo hi m"
proof (cases m)
  case (Num x)
  have "num_isfinite x = Inr True" "\<not> num_less x (PFlt lo)"
    "case hi of None \<Rightarrow> True | Some h \<Rightarrow> \<not> num_less (PFlt h) x"
    using assms(1) Num
    by (auto simp: nvml_number_def ebind_Inr_iff split: obj.splits if_splits option.splits)
  moreover from this(1) have "\<not> num_is_nan x" by (auto simp: num_is_nan_def)
  moreover have "\<not> num_is_nan (PFlt lo)" "hi = Some h \<Longrightarrow> \<not> num_is_nan (PFlt h)" for h
    using assms(2,3) by (auto simp: num_is_nan_def)
  ultimately show ?thesis
    using Num num_not_less by (auto simp: number_ok_def split: option.splits)
qed simp

lemma field_numbers_ok:
  "percent_number v = Inr m \<Longrightarrow> measurement_ok (Fin 0) (Some (Fin 100)) m"
  "plain_number v = Inr m \<Longrightarrow> measurement_ok (Fin 0) None m"
  "milli_number v = Inr m \<Longrightarrow> measurement_ok (Fin 0) None m"
  "celsius_number v = Inr m \<Longrightarrow> measurement_ok absolute_zero None m"
  unfolding percent_number_def plain_number_def milli_number_def celsius_number_def
  by (auto intro: nvml_number_ok simp: absolute_zero_def)

lemma nvml_text_nonempty: "nvml_text v = Inr u \<Longrightarrow> u \<noteq> Some []"
proof -
  have "(case d of OStr t \<Rightarrow> if strip t = [] then None else Some (strip t) | _ \<Rightarrow> None) \<noteq> Some []" for d
    by (cases d) auto
  moreover assume "nvml_text v = Inr u"
  ultimately show ?thesis by (auto simp: nvml_text_def ebind_Inr_iff)
qed

lemma active_bits_honest:
  "set (active_bits a c) \<subseteq> set throttle_vocabulary" "distinct (active_bits a c)"
proof -
  show "set (active_bits a c) \<subseteq> set throttle_vocabulary"
  proof -
    have "set (active_bits a c) \<subseteq> fst ` set throttle_bits" by (auto simp: active_bits_def)
    also have "fst ` set throttle_bits \<subseteq> set throttle_vocabulary"
      by (simp add: throttle_bits_def throttle_vocabulary_def)
    finally show ?thesis .
  qed
  show "distinct (active_bits a c)"
    unfolding active_bits_def by (rule distinct_map_filter) (simp add: throttle_bits_def)
qed

text \<open>The throttle state of a device: honest, and explained when it is unknown.\<close>

definition throttle_state_ok :: "string list \<times> bool \<Rightarrow> bool" where
  "throttle_state_ok = (\<lambda>(t, a).
     set t \<subseteq> set throttle_vocabulary \<and> distinct t \<and> (\<not> a \<longrightarrow> t = []))"

lemma yields_throttle:
  "yields (nvml_throttle_reasons b h i) throttle_state_ok
     (\<lambda>(_, a). if a then {} else {gpu_key i ''throttle_reasons''})"
proof -
  let ?k = "gpu_key i ''throttle_reasons''"
  have unknown: "yields (cbind (nvml_setdefault ?k ''sensor_unsupported'') (\<lambda>_. creturn ([], False)))
      throttle_state_ok (\<lambda>(_, a). if a then {} else {?k})"
    by (rule yields_bind [OF yields_set(2)]) (simp add: yields_creturn throttle_state_ok_def)
  have known: "yields (creturn (active_bits a c, True)) throttle_state_ok (\<lambda>(_, a). if a then {} else {?k})" for a c
    using active_bits_honest by (intro yields_creturn) (simp_all add: throttle_state_ok_def)
  show ?thesis
    unfolding nvml_throttle_reasons_def Let_def
    by (rule yields_bind [OF yields_device_value], rule yields_bind [OF yields_device_value])
      (auto simp: unknown known split: obj.split pynum.split)
qed

lemma yields_memory:
  "yields (device_memory b h i)
     (\<lambda>(u, t). measurement_ok (Fin 0) None u \<and> measurement_ok (Fin 0) None t)
     (\<lambda>(u, t). (if u = Unsupported then {gpu_key i ''vram_used_bytes''} else {})
        \<union> (if t = Unsupported then {gpu_key i ''vram_total_bytes''} else {}))"
proof -
  have "yields (cbind (clift (plain_number ua)) (\<lambda>used.
     cbind (clift (plain_number ta)) (\<lambda>total_bytes.
     cbind (unsupported_default used (gpu_key i ''vram_used_bytes'')) (\<lambda>_.
     cbind (unsupported_default total_bytes (gpu_key i ''vram_total_bytes'')) (\<lambda>_.
       creturn (used, total_bytes))))))
     (\<lambda>(u, t). measurement_ok (Fin 0) None u \<and> measurement_ok (Fin 0) None t)
     (\<lambda>(u, t). (if u = Unsupported then {gpu_key i ''vram_used_bytes''} else {})
        \<union> (if t = Unsupported then {gpu_key i ''vram_total_bytes''} else {}))" for ua ta
    by (rule yields_bind [OF yields_clift], rule yields_bind [OF yields_clift],
        rule yields_bind [OF yields_unsupported_default], rule yields_bind [OF yields_unsupported_default])
      (auto intro!: yields_creturn dest: field_numbers_ok(2))
  then show ?thesis
    unfolding device_memory_def
    by (rule_tac yields_bind [OF yields_attempt]) (auto simp: Let_def split: option.split prod.split)
qed

lemma yields_default_fields:
  "yields (default_fields g i fs) (\<lambda>_. True)
     (\<lambda>_. (\<lambda>f. gpu_key i (field_name f)) ` {f \<in> set fs. gpu_get f g = Unsupported})"
proof (induction fs)
  case (Cons f fs)
  show ?case
    unfolding default_fields.simps
    by (rule yields_bind [OF yields_unsupported_default], rule yields_weaken [OF Cons]) auto
qed (simp add: yields_creturn)

section \<open>One device\<close>

lemma all_nvml_fields: "f \<in> set nvml_late_fields \<or> f \<in> {VramUsed, VramTotal, MemoryTemperature}"
  by (cases f) (simp_all add: nvml_late_fields_def)

lemma nvml_missing_keys:
  "missing_keys g \<subseteq>
     (\<lambda>f. gpu_key (gs_index g) (field_name f)) ` {f \<in> set nvml_late_fields. gpu_get f g = Unsupported}
     \<union> (if gs_vram_used_bytes g = Unsupported then {gpu_key (gs_index g) ''vram_used_bytes''} else {})
     \<union> (if gs_vram_total_bytes g = Unsupported then {gpu_key (gs_index g) ''vram_total_bytes''} else {})
     \<union> {gpu_key (gs_index g) ''memory_temperature_c''}
     \<union> (if gs_throttle_reasons_available g then {} else {gpu_key (gs_index g) ''throttle_reasons''})"
proof
  fix k
  assume "k \<in> missing_keys g"
  then consider (field) f where "k = gpu_key (gs_index g) (field_name f)" "gpu_get f g = Unsupported"
    | (throttle) "k = gpu_key (gs_index g) ''throttle_reasons''" "\<not> gs_throttle_reasons_available g"
    by (auto simp: missing_keys_def split: if_splits)
  then show "k \<in> (\<lambda>f. gpu_key (gs_index g) (field_name f)) ` {f \<in> set nvml_late_fields. gpu_get f g = Unsupported}
     \<union> (if gs_vram_used_bytes g = Unsupported then {gpu_key (gs_index g) ''vram_used_bytes''} else {})
     \<union> (if gs_vram_total_bytes g = Unsupported then {gpu_key (gs_index g) ''vram_total_bytes''} else {})
     \<union> {gpu_key (gs_index g) ''memory_temperature_c''}
     \<union> (if gs_throttle_reasons_available g then {} else {gpu_key (gs_index g) ''throttle_reasons''})"
  proof cases
    case field
    with all_nvml_fields [of f] show ?thesis by auto
  qed simp
qed

lemma yields_sample_device:
  "yields (sample_device b h i) (\<lambda>g. gs_index g = i \<and> (0 \<le> i \<longrightarrow> gpu_sample_ok g)) missing_keys"
  unfolding sample_device_def Let_def case_prod_unfold
  apply ((rule yields_bind, rule yields_memory yields_attempt yields_throttle yields_device_value
        yields_selected_value yields_clift yields_set(2) yields_default_fields)+)
  apply (rule yields_creturn)
  subgoal
    by (auto simp: gpu_sample_ok_def gpu_field_list_def field_minimum_def field_maximum_def
        throttle_honest_def throttle_state_ok_def case_prod_unfold
        dest!: field_numbers_ok nvml_text_nonempty)
  subgoal by (auto dest!: subsetD [OF nvml_missing_keys] simp: case_prod_unfold split: if_splits)
  done

section \<open>All devices\<close>

lemma yields_handle: "yields (device_handle b i) (\<lambda>_. True) (\<lambda>_. {})"
  unfolding device_handle_def by (rule yields_bind [OF yields_attempt]) (simp add: yields_creturn)

lemma yields_each_device:
  assumes "sorted_wrt (<) indices" "list_all ((\<le>) 0) indices"
  shows "yields (each_device b (sample_device b) indices)
    (\<lambda>gs. set (map gs_index gs) \<subseteq> set indices \<and> sorted_wrt (<) (map gs_index gs) \<and> list_all gpu_sample_ok gs)
    (\<lambda>gs. \<Union> (missing_keys ` set gs))"
  using assms
proof (induction indices)
  case (Cons i indices)
  then have IH: "yields (each_device b (sample_device b) indices)
    (\<lambda>gs. set (map gs_index gs) \<subseteq> set indices \<and> sorted_wrt (<) (map gs_index gs) \<and> list_all gpu_sample_ok gs)
    (\<lambda>gs. \<Union> (missing_keys ` set gs))"
    and i: "0 \<le> i" "\<forall>j \<in> set indices. i < j" by simp_all
  let ?Q = "\<lambda>gs. set (map gs_index gs) \<subseteq> set (i # indices) \<and> sorted_wrt (<) (map gs_index gs)
      \<and> list_all gpu_sample_ok gs"
  have skip: "yields (each_device b (sample_device b) indices) ?Q (\<lambda>gs. \<Union> (missing_keys ` set gs))"
    by (rule yields_weaken [OF IH]) auto
  have here: "yields (cbind (sample_device b h i)
        (\<lambda>x. cbind (each_device b (sample_device b) indices) (\<lambda>xs. creturn (x # xs)))) ?Q
      (\<lambda>gs. \<Union> (missing_keys ` set gs))" for h
  proof (rule yields_bind [OF yields_sample_device], rule yields_bind [OF IH], rule yields_creturn)
    fix g gs
    assume g: "gs_index g = i \<and> (0 \<le> i \<longrightarrow> gpu_sample_ok g)"
      "set (map gs_index gs) \<subseteq> set indices \<and> sorted_wrt (<) (map gs_index gs) \<and> list_all gpu_sample_ok gs"
    then show "?Q (g # gs)" using i by auto
    show "\<Union> (missing_keys ` set (g # gs)) - missing_keys g - \<Union> (missing_keys ` set gs) = {}" by auto
  qed
  show ?case
    unfolding each_device.simps
    by (rule yields_bind [OF yields_handle]) (use skip here in \<open>simp split: option.split\<close>)
qed (simp add: yields_creturn)

lemma yields_initialize: "yields (nvml_initialize b) (\<lambda>_. True) (\<lambda>x. if x = None then {''gpu''} else {})"
proof -
  have fail: "yields (cbind (nvml_set ''gpu'' r) (\<lambda>_. creturn None)) (\<lambda>_. True)
      (\<lambda>x :: ('a, 'b) nvml_binding option. if x = None then {''gpu''} else {})" for r
    by (rule yields_bind [OF yields_set(1)]) (simp add: yields_creturn)
  have gets: "yields (cgets ns_initialized) (\<lambda>_. True) (\<lambda>_. {})"
    by (simp add: yields_def cgets_def)
  have flag: "yields (cmodify (\<lambda>s. s\<lparr>ns_initialized := True\<rparr>)) (\<lambda>_. True) (\<lambda>_. {})"
    by (simp add: yields_def cmodify_def)
  have ok: "yields (cbind (cmodify (\<lambda>s. s\<lparr>ns_initialized := True\<rparr>)) (\<lambda>_. creturn (Some b))) (\<lambda>_. True)
      (\<lambda>x. if x = None then {''gpu''} else {})"
    by (rule yields_bind [OF flag]) (simp add: yields_creturn)
  have run: "yields (cbind (on_world (safe_call m ())) (\<lambda>(_, failure).
      case failure of Some e \<Rightarrow> cbind (nvml_set ''gpu'' (failure_reason e)) (\<lambda>_. creturn None)
      | None \<Rightarrow> cbind (cmodify (\<lambda>s. s\<lparr>ns_initialized := True\<rparr>)) (\<lambda>_. creturn (Some b)))) (\<lambda>_. True)
      (\<lambda>x. if x = None then {''gpu''} else {})" for m
    by (rule yields_bind [OF yields_on_world]) (auto simp: fail ok split: option.split)
  show ?thesis
    unfolding nvml_initialize_def
    by (rule yields_bind [OF gets]) (auto simp: fail run yields_creturn split: attribute.split)
qed

lemma yields_ready: "yields (nvml_ready env) (\<lambda>_. True) (\<lambda>x. if x = None then {''gpu''} else {})"
proof -
  have fail: "yields (cbind (nvml_set ''gpu'' r) (\<lambda>_. creturn None)) (\<lambda>_. True)
      (\<lambda>x :: ('a, 'b) nvml_binding option. if x = None then {''gpu''} else {})" for r
    by (rule yields_bind [OF yields_set(1)]) (simp add: yields_creturn)
  have gets: "yields (cgets ns_binding) (\<lambda>_. True) (\<lambda>_. {})"
    by (simp add: yields_def cgets_def)
  have store: "yields (cmodify (\<lambda>s. s\<lparr>ns_binding := Some b\<rparr>)) (\<lambda>_. True) (\<lambda>_. {})" for b :: "('a, 'b) nvml_binding"
    by (simp add: yields_def cmodify_def)
  have ok: "yields (cbind (cmodify (\<lambda>s. s\<lparr>ns_binding := Some b\<rparr>)) (\<lambda>_. nvml_initialize b)) (\<lambda>_. True)
      (\<lambda>x. if x = None then {''gpu''} else {})" for b :: "('a, 'b) nvml_binding"
    by (rule yields_bind [OF store]) (simp add: yields_initialize)
  have load: "yields (cbind (on_world m) (\<lambda>(loaded, failure).
      case loaded of
        None \<Rightarrow> cbind (nvml_set ''gpu''
            (if failure = Some DependencyUnavailableError then ''pynvml_not_installed'' else ''nvml_error''))
            (\<lambda>_. creturn None)
      | Some b \<Rightarrow> cbind (cmodify (\<lambda>s. s\<lparr>ns_binding := Some b\<rparr>)) (\<lambda>_. nvml_initialize b))) (\<lambda>_. True)
      (\<lambda>x :: ('a, 'b) nvml_binding option. if x = None then {''gpu''} else {})" for m
    by (rule yields_bind [OF yields_on_world]) (auto simp: fail ok split: option.split)
  show ?thesis
    unfolding nvml_ready_def
    by (rule yields_bind [OF gets]) (auto simp: load yields_initialize split: option.split)
qed

lemma yields_count: "yields (device_count b) (\<lambda>n. 0 \<le> n) (\<lambda>_. {})"
proof -
  have bad: "yields (cbind (nvml_setdefault ''gpu'' ''malformed_value'') (\<lambda>_. creturn 0)) (\<lambda>n :: int. 0 \<le> n) (\<lambda>_. {})"
    by (rule yields_bind [OF yields_set(2)]) (simp add: yields_creturn)
  show ?thesis
    unfolding device_count_def Let_def
    by (rule yields_bind [OF yields_attempt_attribute])
      (auto simp: bad yields_creturn split: obj.split pynum.split)
qed

lemma yields_or_no_gpus:
  "yields (or_no_gpus xs) (\<lambda>ys. ys = xs) (\<lambda>ys. if ys = [] then {''gpu''} else {})"
  unfolding or_no_gpus_def
  by (rule yields_bind [of _ "\<lambda>_. True" "\<lambda>_. if xs = [] then {''gpu''} else {}"])
    (simp_all add: yields_set yields_creturn)

definition reading_keys :: "gpu_sample list \<Rightarrow> string set" where
  "reading_keys gs = \<Union> (missing_keys ` set gs) \<union> (if gs = [] then {''gpu''} else {})"

lemma reading_keys_explained: "reading_keys gs \<subseteq> dict_keys r \<Longrightarrow> reading_explained r gs"
  by (auto simp: reading_keys_def reading_explained_def explained_missing list_all_iff)

lemma sorted_upto: "sorted_wrt (<) [0..n]" "list_all ((\<le>) 0) [0..n]" for n :: int
  by (simp_all add: strict_sorted_iff list_all_iff)

lemma yields_devices:
  "yields (cbind (each_device b (sample_device b) [0..n - 1]) or_no_gpus) samples_ok reading_keys"
proof (rule yields_bind [OF yields_each_device [OF sorted_upto]])
  fix gs
  assume gs: "set (map gs_index gs) \<subseteq> set [0..n - 1] \<and> sorted_wrt (<) (map gs_index gs) \<and> list_all gpu_sample_ok gs"
  show "yields (or_no_gpus gs) samples_ok (\<lambda>y. reading_keys y - \<Union> (missing_keys ` set gs))"
    by (rule yields_weaken [OF yields_or_no_gpus]) (use gs in \<open>auto simp: samples_ok_def reading_keys_def\<close>)
qed

lemma yields_no_devices: "yields (creturn []) samples_ok (\<lambda>y. reading_keys y - {''gpu''})"
  by (rule yields_creturn) (simp_all add: samples_ok_def reading_keys_def)

lemma yields_counted_devices:
  "yields (cbind (device_count b) (\<lambda>count.
     cbind (each_device b (sample_device b) [0..count - 1]) or_no_gpus)) samples_ok reading_keys"
  by (rule yields_bind [OF yields_count]) (simp add: yields_devices)

lemma nvml_sample_ok:
  assumes "nvml_sample env s = (Inr gs, s')"
  shows "samples_ok gs" "reading_explained (ns_reasons s') gs"
proof -
  let ?rest = "cbind (nvml_ready env) (\<lambda>binding.
       case binding of
         None \<Rightarrow> creturn []
       | Some b \<Rightarrow> cbind (device_count b) (\<lambda>count.
           cbind (each_device b (sample_device b) [0..count - 1]) or_no_gpus))"
  have run: "yields ?rest samples_ok reading_keys"
    by (intro yields_bind [OF yields_ready])
      (simp add: yields_no_devices yields_counted_devices split: option.split)
  have "?rest (s\<lparr>ns_reasons := []\<rparr>) = (Inr gs, s')"
    using assms by (simp only: nvml_sample_def nvml_clear_def cbind_cmodify)
  note end_state = yieldsD [OF run this]
  then show "samples_ok gs" by (rule conjunct1)
  show "reading_explained (ns_reasons s') gs"
    by (rule reading_keys_explained) (use end_state in simp)
qed

interpretation nvml: gpu_reader "nvml_sample env" ns_reasons "\<lambda>_. True" for env
  by unfold_locales (auto dest: nvml_sample_ok)

section \<open>Exceptions that escape\<close>

definition raises_only :: "(('w, 'h) nvml_state, 'a) comp \<Rightarrow> bool" where
  "raises_only m \<longleftrightarrow>
     (\<forall>s e s'. m s = (Inl e, s') \<longrightarrow> e = OverflowError \<or> e = attribute_error \<or> \<not> ordinary e)"

lemma raises_bind: "raises_only m \<Longrightarrow> (\<And>x. raises_only (f x)) \<Longrightarrow> raises_only (cbind m f)"
  by (fastforce simp: raises_only_def cbind_def split: prod.splits sum.splits)

lemma raises_pure:
  "raises_only (creturn x)" "raises_only (cmodify g)" "raises_only (cgets h)"
  "raises_only (nvml_set k v)" "raises_only (nvml_setdefault k v)" "raises_only (craise attribute_error)"
  by (simp_all add: raises_only_def comp_defs nvml_set_def nvml_setdefault_def)

lemma raises_on_world: "contained m \<Longrightarrow> raises_only (on_world m)"
  by (auto simp: raises_only_def on_world_def czoom_def contained_def split: prod.splits)

lemma raises_attempt: "raises_only (nvml_attempt m k)"
  unfolding nvml_attempt_def
  by (intro raises_bind raises_on_world contained_safe_call)
    (auto intro!: raises_pure raises_bind split: option.split)

lemma raises_attempt_attribute: "raises_only (nvml_attempt_attribute a k)"
  unfolding nvml_attempt_attribute_def
  by (auto intro!: raises_pure raises_bind raises_attempt split: attribute.split)

lemma raises_value:
  "raises_only (nvml_value m k)" "raises_only (nvml_device_value a h k)" "raises_only (nvml_selected_value c h' i k)"
  unfolding nvml_device_value_def nvml_selected_value_def nvml_value_def
  by (intro raises_bind raises_attempt raises_pure)+

lemma num_isfinite_error: "num_isfinite n = Inl e \<Longrightarrow> e = OverflowError"
  by (cases n) (auto simp: float_of_int_def split: pyfloat.splits)

lemma nvml_number_error:
  assumes "nvml_number v scale lo hi = Inl e" "scale \<in> {Fin 1, Fin 1000}"
  shows "e = OverflowError"
proof -
  have "float_op fdiv n (PFlt (Fin 1000)) = Inl e \<Longrightarrow> e = OverflowError" for n
    by (cases n) (auto simp: float_op_def ebind_Inl_iff float_of_int_def emap_Inr_iff split: pyfloat.splits)
  then have "num_div n (PFlt (Fin 1000)) = Inl e \<Longrightarrow> e = OverflowError" for n by (cases n) auto
  with assms show ?thesis
    by (auto simp: nvml_number_def ebind_Inl_iff dest: num_isfinite_error split: obj.splits if_splits)
qed

lemma raises_numbers:
  "raises_only (clift (percent_number v))" "raises_only (clift (plain_number v))"
  "raises_only (clift (milli_number v))" "raises_only (clift (celsius_number v))"
  by (auto simp: raises_only_def clift_def percent_number_def plain_number_def milli_number_def
      celsius_number_def dest!: nvml_number_error)

lemma raises_text: "raises_only (clift (nvml_text v))"
  by (auto simp: raises_only_def clift_def nvml_text_def ebind_Inl_iff dest: safe_result_ordinary split: obj.splits)

lemma raises_unsupported_default: "raises_only (unsupported_default m k)"
  by (simp add: unsupported_default_def raises_pure)

lemma raises_default_fields: "raises_only (default_fields g i fs)"
  by (induction fs) (auto intro!: raises_pure raises_bind raises_unsupported_default)

lemmas raises_intros = raises_bind raises_pure raises_attempt raises_attempt_attribute raises_value raises_numbers
  raises_text raises_unsupported_default raises_default_fields

lemma raises_throttle: "raises_only (nvml_throttle_reasons b h i)"
  unfolding nvml_throttle_reasons_def Let_def
  by (auto intro!: raises_intros split: obj.split pynum.split)

lemma raises_memory: "raises_only (device_memory b h i)"
  unfolding device_memory_def Let_def by (auto intro!: raises_intros split: prod.split)

lemma raises_sample_device: "raises_only (sample_device b h i)"
  unfolding sample_device_def Let_def
  by (intro raises_intros raises_memory raises_throttle | simp only: split: prod.split | intro allI impI)+

lemma raises_each_device: "(\<And>h i. raises_only (read h i)) \<Longrightarrow> raises_only (each_device b read is)"
  by (induction "is") (auto intro!: raises_intros simp: device_handle_def split: option.split)

lemma raises_initialize: "raises_only (nvml_initialize b)"
  unfolding nvml_initialize_def
  by (auto intro!: raises_intros raises_on_world contained_safe_call split: attribute.split option.split)

lemma raises_ready: "raises_only (nvml_ready env)"
  unfolding nvml_ready_def
  by (auto intro!: raises_intros raises_on_world contained_safe_call raises_initialize split: option.split)

lemma raises_sample: "raises_only (nvml_sample env)"
  unfolding nvml_sample_def nvml_clear_def device_count_def or_no_gpus_def Let_def
  by (auto intro!: raises_intros raises_ready raises_each_device raises_sample_device
      split: option.split obj.split pynum.split)

section \<open>The life of the library\<close>

text \<open>
  The same binding with the successful initializations and the attempted shutdowns recorded beside
  the world.
\<close>

datatype library_event = Initialized | ShutDown

type_synonym 'w logged = "'w \<times> library_event list"

definition lifted :: "('w, 'a) comp \<Rightarrow> ('w logged, 'a) comp" where
  "lifted m = (\<lambda>(w, log). case m w of (r, w') \<Rightarrow> (r, (w', log)))"

definition logged_init :: "('w, unit) comp \<Rightarrow> ('w logged, unit) comp" where
  "logged_init m = (\<lambda>(w, log). case m w of
     (Inr u, w') \<Rightarrow> (Inr u, (w', log @ [Initialized])) | (Inl e, w') \<Rightarrow> (Inl e, (w', log)))"

definition logged_shutdown :: "('w, unit) comp \<Rightarrow> ('w logged, unit) comp" where
  "logged_shutdown m = (\<lambda>(w, log). case m w of (r, w') \<Rightarrow> (r, (w', log @ [ShutDown])))"

definition logged_binding :: "('w, 'h) nvml_binding \<Rightarrow> ('w logged, 'h) nvml_binding" where
  "logged_binding b =
     \<lparr>nb_Init = map_attribute logged_init (nb_Init b),
      nb_Shutdown = map_attribute logged_shutdown (nb_Shutdown b),
      nb_SystemGetDriverVersion = map_attribute lifted (nb_SystemGetDriverVersion b),
      nb_SystemGetCudaDriverVersion = map_attribute lifted (nb_SystemGetCudaDriverVersion b),
      nb_DeviceGetCount = map_attribute lifted (nb_DeviceGetCount b),
      nb_DeviceGetHandleByIndex = map_attribute (\<lambda>f i. lifted (f i)) (nb_DeviceGetHandleByIndex b),
      nb_DeviceGetName = map_attribute (\<lambda>f h. lifted (f h)) (nb_DeviceGetName b),
      nb_DeviceGetUUID = map_attribute (\<lambda>f h. lifted (f h)) (nb_DeviceGetUUID b),
      nb_DeviceGetMemoryInfo = map_attribute (\<lambda>f h. lifted (f h)) (nb_DeviceGetMemoryInfo b),
      nb_DeviceGetUtilizationRates = map_attribute (\<lambda>f h. lifted (f h)) (nb_DeviceGetUtilizationRates b),
      nb_DeviceGetTemperature = map_attribute (\<lambda>f h c. lifted (f h c)) (nb_DeviceGetTemperature b),
      nb_DeviceGetPowerUsage = map_attribute (\<lambda>f h. lifted (f h)) (nb_DeviceGetPowerUsage b),
      nb_DeviceGetEnforcedPowerLimit = map_attribute (\<lambda>f h. lifted (f h)) (nb_DeviceGetEnforcedPowerLimit b),
      nb_DeviceGetFanSpeed = map_attribute (\<lambda>f h. lifted (f h)) (nb_DeviceGetFanSpeed b),
      nb_DeviceGetClockInfo = map_attribute (\<lambda>f h c. lifted (f h c)) (nb_DeviceGetClockInfo b),
      nb_DeviceGetCudaComputeCapability = map_attribute (\<lambda>f h. lifted (f h)) (nb_DeviceGetCudaComputeCapability b),
      nb_DeviceGetCurrentClocksThrottleReasons =
        map_attribute (\<lambda>f h. lifted (f h)) (nb_DeviceGetCurrentClocksThrottleReasons b),
      nb_DeviceGetSupportedClocksThrottleReasons =
        map_attribute (\<lambda>f h. lifted (f h)) (nb_DeviceGetSupportedClocksThrottleReasons b),
      nb_TEMPERATURE_GPU = nb_TEMPERATURE_GPU b, nb_CLOCK_SM = nb_CLOCK_SM b,
      nb_CLOCK_MEM = nb_CLOCK_MEM b\<rparr>"

text \<open>
  The log read as an automaton: an initialization only while the library is down, a shutdown only
  while it is up; \<open>None\<close> marks a violation.
\<close>

fun library_step :: "library_event \<Rightarrow> bool option \<Rightarrow> bool option" where
  "library_step Initialized (Some False) = Some True"
| "library_step ShutDown (Some True) = Some False"
| "library_step _ _ = None"

definition library_state :: "library_event list \<Rightarrow> bool option" where
  "library_state events = fold library_step events (Some False)"

text \<open>Steps that leave the library, the flag and the binding alone.\<close>

definition quiet :: "('w logged, 'h) nvml_state \<Rightarrow> ('w logged, 'h) nvml_state \<Rightarrow> bool" where
  "quiet s s' \<longleftrightarrow> snd (ns_world s') = snd (ns_world s) \<and> ns_initialized s' = ns_initialized s
     \<and> ns_binding s' = ns_binding s"

lemma quiet_preorder [simp]: "reflp quiet" "transp quiet"
  by (auto simp: quiet_def reflp_def transp_def)

definition silent :: "('w logged, 'a) comp \<Rightarrow> bool" where
  "silent m \<longleftrightarrow> (\<forall>w. snd (snd (m w)) = snd w)"

lemma silent_lifted: "silent (lifted m)"
  by (auto simp: silent_def lifted_def split: prod.splits)

lemma silentD: "silent m \<Longrightarrow> m w = (r, w') \<Longrightarrow> snd w' = snd w"
  by (metis silent_def snd_conv)

lemma silent_pure: "silent (creturn x)" "silent (craise e)"
  by (simp_all add: silent_def comp_defs)

lemma silent_device_call: "silent (attribute_call (map_attribute (\<lambda>f x. lifted (f x)) a) (\<lambda>f. f h))"
  by (cases a) (simp_all add: silent_lifted silent_pure)

lemma silent_selected_call:
  "silent (attribute_call (map_attribute (\<lambda>f x y. lifted (f x y)) a) (\<lambda>f. f h i))"
  by (cases a) (simp_all add: silent_lifted silent_pure)

lemmas silent_call = silent_device_call silent_selected_call

lemma silent_bind: "silent m \<Longrightarrow> (\<And>x. silent (f x)) \<Longrightarrow> silent (cbind m f)"
  by (auto simp: silent_def cbind_def split: prod.splits sum.splits) (metis snd_conv)+

lemma silent_safe_call: "silent m \<Longrightarrow> silent (safe_call m d)"
  by (auto simp: silent_def safe_call_def split: prod.splits sum.splits) (metis snd_conv)+

lemma quiet_on_world: "silent m \<Longrightarrow> keeps quiet (on_world m)"
  by (auto simp: keeps_def quiet_def on_world_def czoom_def dest: silentD split: prod.splits)

lemma quiet_reasons:
  "keeps quiet (nvml_set k v)" "keeps quiet (nvml_setdefault k v)" "keeps quiet nvml_clear"
  by (simp_all add: keeps_def quiet_def nvml_set_def nvml_setdefault_def nvml_clear_def cmodify_def)

lemma quiet_attempt: "silent m \<Longrightarrow> keeps quiet (nvml_attempt m k)"
  unfolding nvml_attempt_def
  by (intro keeps_bind quiet_on_world silent_safe_call silent_bind)
    (auto intro!: grows_intros quiet_reasons silent_pure split: option.split)

lemma quiet_attempt_attribute: "keeps quiet (nvml_attempt_attribute (map_attribute lifted a) k)"
  by (cases a) (auto simp: nvml_attempt_attribute_def silent_lifted intro!: grows_intros quiet_reasons quiet_attempt)

lemma quiet_values:
  "keeps quiet (nvml_device_value (map_attribute (\<lambda>f h. lifted (f h)) a) h k)"
  "keeps quiet (nvml_selected_value (map_attribute (\<lambda>f h c. lifted (f h c)) c) h i k)"
  unfolding nvml_device_value_def nvml_selected_value_def nvml_value_def
  by (auto intro!: grows_intros quiet_attempt silent_call silent_pure split: option.split)

lemma quiet_unsupported_default: "keeps quiet (unsupported_default m k)"
  by (auto simp: unsupported_default_def intro!: grows_intros quiet_reasons)

lemma quiet_default_fields: "keeps quiet (default_fields g i fs)"
  by (induction fs) (auto intro!: grows_intros quiet_unsupported_default)

lemma logged_binding_simps:
  "nb_SystemGetDriverVersion (logged_binding b) = map_attribute lifted (nb_SystemGetDriverVersion b)"
  "nb_SystemGetCudaDriverVersion (logged_binding b) = map_attribute lifted (nb_SystemGetCudaDriverVersion b)"
  "nb_DeviceGetCount (logged_binding b) = map_attribute lifted (nb_DeviceGetCount b)"
  "nb_DeviceGetHandleByIndex (logged_binding b) = map_attribute (\<lambda>f i. lifted (f i)) (nb_DeviceGetHandleByIndex b)"
  "nb_DeviceGetName (logged_binding b) = map_attribute (\<lambda>f h. lifted (f h)) (nb_DeviceGetName b)"
  "nb_DeviceGetUUID (logged_binding b) = map_attribute (\<lambda>f h. lifted (f h)) (nb_DeviceGetUUID b)"
  "nb_DeviceGetMemoryInfo (logged_binding b) = map_attribute (\<lambda>f h. lifted (f h)) (nb_DeviceGetMemoryInfo b)"
  "nb_DeviceGetUtilizationRates (logged_binding b) =
     map_attribute (\<lambda>f h. lifted (f h)) (nb_DeviceGetUtilizationRates b)"
  "nb_DeviceGetTemperature (logged_binding b) = map_attribute (\<lambda>f h c. lifted (f h c)) (nb_DeviceGetTemperature b)"
  "nb_DeviceGetPowerUsage (logged_binding b) = map_attribute (\<lambda>f h. lifted (f h)) (nb_DeviceGetPowerUsage b)"
  "nb_DeviceGetEnforcedPowerLimit (logged_binding b) =
     map_attribute (\<lambda>f h. lifted (f h)) (nb_DeviceGetEnforcedPowerLimit b)"
  "nb_DeviceGetFanSpeed (logged_binding b) = map_attribute (\<lambda>f h. lifted (f h)) (nb_DeviceGetFanSpeed b)"
  "nb_DeviceGetClockInfo (logged_binding b) = map_attribute (\<lambda>f h c. lifted (f h c)) (nb_DeviceGetClockInfo b)"
  "nb_DeviceGetCudaComputeCapability (logged_binding b) =
     map_attribute (\<lambda>f h. lifted (f h)) (nb_DeviceGetCudaComputeCapability b)"
  "nb_DeviceGetCurrentClocksThrottleReasons (logged_binding b) =
     map_attribute (\<lambda>f h. lifted (f h)) (nb_DeviceGetCurrentClocksThrottleReasons b)"
  "nb_DeviceGetSupportedClocksThrottleReasons (logged_binding b) =
     map_attribute (\<lambda>f h. lifted (f h)) (nb_DeviceGetSupportedClocksThrottleReasons b)"
  by (simp_all add: logged_binding_def)

lemmas quiet_intros = keeps_bind keeps_pure quiet_reasons quiet_attempt quiet_attempt_attribute quiet_values
  quiet_unsupported_default quiet_default_fields silent_call quiet_preorder

lemma quiet_throttle: "keeps quiet (nvml_throttle_reasons (logged_binding b) h i)"
  unfolding nvml_throttle_reasons_def Let_def logged_binding_simps
  by (auto intro!: quiet_intros split: obj.split pynum.split)

lemma quiet_memory: "keeps quiet (device_memory (logged_binding b) h i)"
  unfolding device_memory_def Let_def logged_binding_simps
  by (auto intro!: quiet_intros split: prod.split)

lemma quiet_sample_device: "keeps quiet (sample_device (logged_binding b) h i)"
  unfolding sample_device_def Let_def logged_binding_simps
  by (intro quiet_intros quiet_memory quiet_throttle | simp only: split: prod.split | intro allI impI)+

lemma quiet_count: "keeps quiet (device_count (logged_binding b))"
  unfolding device_count_def Let_def logged_binding_simps
  by (auto intro!: quiet_intros split: obj.split pynum.split)

lemma quiet_each_device:
  "(\<And>h i. keeps quiet (read h i)) \<Longrightarrow> keeps quiet (each_device (logged_binding b) read is)"
  by (induction "is")
    (auto intro!: quiet_intros simp: device_handle_def logged_binding_simps split: option.split)

lemma quiet_or_no_gpus: "keeps quiet (or_no_gpus xs)"
  by (auto simp: or_no_gpus_def intro!: quiet_intros)

lemma quiet_cuda_version: "keeps quiet (nvml_cuda_version (logged_binding b))"
  unfolding nvml_cuda_version_def Let_def logged_binding_simps
  by (auto intro!: quiet_intros split: obj.split pynum.split)

lemma quiet_compute_capability: "keeps quiet (compute_capability (logged_binding b) h i)"
  unfolding compute_capability_def Let_def logged_binding_simps
  by (auto intro!: quiet_intros split: obj.split list.split pynum.split prod.split)

lemma quiet_profile_device: "keeps quiet (profile_device env (logged_binding b) v c h i)"
  unfolding profile_device_def logged_binding_simps
  by (auto intro!: quiet_intros quiet_memory quiet_compute_capability split: prod.split)

text \<open>What every operation does to the library.\<close>

definition follows :: "('w logged, 'h) nvml_binding \<Rightarrow> ('w logged, 'h) nvml_state \<Rightarrow> bool" where
  "follows b s \<longleftrightarrow>
     ns_binding s = Some b \<and> library_state (snd (ns_world s)) = Some (ns_initialized s)"

definition preserves :: "('s \<Rightarrow> bool) \<Rightarrow> ('s, 'a) comp \<Rightarrow> bool" where
  "preserves I m \<longleftrightarrow> (\<forall>s. I s \<longrightarrow> I (snd (m s)))"

lemma preserves_bind: "preserves I m \<Longrightarrow> (\<And>x. preserves I (f x)) \<Longrightarrow> preserves I (cbind m f)"
  by (auto simp: preserves_def cbind_def split: prod.splits sum.splits)

lemma preserves_quiet: "keeps quiet m \<Longrightarrow> preserves (follows b) m"
  by (auto simp: preserves_def keeps_def follows_def quiet_def)

lemma follows_initialize: "preserves (follows (logged_binding b)) (nvml_initialize (logged_binding b))"
proof (cases "nb_Init b")
  case (Callable m)
  then have i: "nb_Init (logged_binding b) = Callable (logged_init m)" by (simp add: logged_binding_def)
  show ?thesis
    unfolding preserves_def
  proof (intro allI impI)
    fix s
    assume f: "follows (logged_binding b) s"
    obtain w events where w: "ns_world s = (w, events)" by (cases "ns_world s")
    obtain r w' where m: "m w = (r, w')" by (cases "m w")
    show "follows (logged_binding b) (snd (nvml_initialize (logged_binding b) s))"
      using f w m i
      by (cases r; cases "ns_initialized s")
        (auto simp: nvml_initialize_def logged_init_def on_world_def czoom_def safe_call_def comp_defs
          follows_def library_state_def nvml_set_def)
  qed
qed (auto simp: preserves_def nvml_initialize_def logged_binding_def comp_defs follows_def nvml_set_def)

lemma follows_ready: "preserves (follows (logged_binding b)) (nvml_ready env)"
  using follows_initialize [of b]
  by (auto simp: preserves_def nvml_ready_def cbind_def cgets_def follows_def)

lemma ready_binding:
  assumes "follows b s" "nvml_ready env s = (Inr (Some b'), s')"
  shows "b' = b"
  using assms
  by (auto simp: nvml_ready_def follows_def nvml_initialize_def comp_defs nvml_set_def
      split: attribute.splits prod.splits sum.splits option.splits if_splits)

lemma follows_after_ready:
  assumes "preserves (follows (logged_binding b)) (rest (logged_binding b))"
  shows "preserves (follows (logged_binding b))
    (cbind (nvml_ready env) (\<lambda>binding. case binding of None \<Rightarrow> creturn d | Some b' \<Rightarrow> rest b'))"
  unfolding preserves_def
proof (intro allI impI)
  fix s
  assume f: "follows (logged_binding b) s"
  obtain r s1 where r: "nvml_ready env s = (r, s1)" by (cases "nvml_ready env s")
  with f follows_ready [of b env] have f1: "follows (logged_binding b) s1"
    by (metis preserves_def snd_conv)
  show "follows (logged_binding b)
    (snd (cbind (nvml_ready env) (\<lambda>binding. case binding of None \<Rightarrow> creturn d | Some b' \<Rightarrow> rest b') s))"
  proof (cases r)
    case (Inr x)
    show ?thesis
    proof (cases x)
      case (Some b')
      with ready_binding [OF f] r Inr have "b' = logged_binding b" by blast
      with Some Inr r f1 assms show ?thesis by (simp add: cbind_def preserves_def)
    qed (simp add: cbind_def r Inr creturn_def f1)
  qed (simp add: cbind_def r f1)
qed

lemma follows_sample: "preserves (follows (logged_binding b)) (nvml_sample env)"
  unfolding nvml_sample_def
  by (intro preserves_bind [OF preserves_quiet [OF quiet_reasons(3)]] follows_after_ready preserves_quiet)
    (auto intro!: quiet_intros quiet_count quiet_each_device quiet_sample_device quiet_or_no_gpus)

lemma follows_available: "preserves (follows (logged_binding b)) (nvml_available env)"
  unfolding nvml_available_def
  by (intro preserves_bind [OF preserves_quiet [OF quiet_reasons(3)]] follows_after_ready preserves_quiet)
    (auto intro!: quiet_intros quiet_count)

lemma follows_static_info: "preserves (follows (logged_binding b)) (nvml_static_info env)"
  unfolding nvml_static_info_def
  by (intro preserves_bind [OF preserves_quiet [OF quiet_reasons(3)]] follows_after_ready preserves_quiet)
    (auto intro!: quiet_intros quiet_count quiet_each_device quiet_profile_device quiet_or_no_gpus quiet_cuda_version
      simp: logged_binding_simps)

text \<open>A callable shutdown is attempted exactly once per initialization.\<close>

lemma follows_close:
  assumes "nb_Shutdown b = Callable m"
  shows "preserves (follows (logged_binding b)) nvml_close"
  unfolding preserves_def
proof (intro allI impI)
  fix s
  assume f: "follows (logged_binding b) s"
  obtain w events where w: "ns_world s = (w, events)" by (cases "ns_world s")
  obtain r w' where m: "m w = (r, w')" by (cases "m w")
  have i: "nb_Shutdown (logged_binding b) = Callable (logged_shutdown m)"
    using assms by (simp add: logged_binding_def)
  show "follows (logged_binding b) (snd (nvml_close s))"
    using f w m i
    by (cases r; cases "ns_initialized s")
      (auto simp: nvml_close_def nvml_attempt_attribute_def nvml_attempt_def logged_shutdown_def on_world_def
        czoom_def safe_call_def comp_defs follows_def library_state_def nvml_set_def)
qed

datatype nvml_operation = Sample | Available | StaticInfo | Close

fun run_operation :: "('w, 'h) nvml_env \<Rightarrow> nvml_operation \<Rightarrow> ('w, 'h) nvml_state \<Rightarrow> ('w, 'h) nvml_state" where
  "run_operation env Sample s = snd (nvml_sample env s)"
| "run_operation env Available s = snd (nvml_available env s)"
| "run_operation env StaticInfo s = snd (nvml_static_info env s)"
| "run_operation env Close s = snd (nvml_close s)"

definition nvml_history ::
  "('w logged, 'h) nvml_env \<Rightarrow> ('w, 'h) nvml_binding \<Rightarrow> 'w \<Rightarrow> nvml_operation list \<Rightarrow> ('w logged, 'h) nvml_state" where
  "nvml_history env b w operations =
     fold (run_operation env) operations (nvml_init (Some (logged_binding b)) (w, []))"

section \<open>What the reader promises\<close>

text \<open>
  C38: whatever the binding answers, a sample has its devices in strictly ascending order, every
  supported value is finite and in the range of its field, throttle reasons are honest, and every
  value left out (or the absence of any device) has a reason among the reported diagnostics.
\<close>

theorem nvml_sample_wellformed:
  assumes "nvml_sample env s = (Inr gs, s')"
  shows "samples_ok gs \<and> reading_explained (nvml_unavailable_reasons s') gs"
  using nvml.sample_ok [OF _ assms] nvml.sample_explained [OF _ assms]
  by (auto simp: nvml_unavailable_reasons_def intro: reading_explained_keys)

text \<open>
  A binding with one device, whose memory call is not permitted and whose power limit is missing
  from the binding.
\<close>

abbreviation answer :: "'a \<Rightarrow> (unit, 'a) comp" where
  "answer x \<equiv> creturn x"

definition demo_binding :: "(unit, int) nvml_binding" where
  "demo_binding =
     \<lparr>nb_Init = Callable (answer ()), nb_Shutdown = Callable (answer ()),
      nb_SystemGetDriverVersion = Callable (answer (OStr ''550.1'')),
      nb_SystemGetCudaDriverVersion = Callable (answer (ONum (PInt 12040))),
      nb_DeviceGetCount = Callable (answer (ONum (PInt 1))),
      nb_DeviceGetHandleByIndex = Callable (\<lambda>i. answer (Some i)),
      nb_DeviceGetName = Callable (\<lambda>h. answer (OStr ''GPU'')),
      nb_DeviceGetUUID = Callable (\<lambda>h. answer (OBytes (Inr ''GPU-a''))),
      nb_DeviceGetMemoryInfo = Callable (\<lambda>h. craise (NamedError ''NVMLError_NoPermission'')),
      nb_DeviceGetUtilizationRates = Callable (\<lambda>h. answer (ONum (PInt 110), ONum (PInt 3))),
      nb_DeviceGetTemperature = Callable (\<lambda>h c. answer (ONum (PInt 61))),
      nb_DeviceGetPowerUsage = Callable (\<lambda>h. answer (ONum (PInt 70500))),
      nb_DeviceGetEnforcedPowerLimit = NoAttribute,
      nb_DeviceGetFanSpeed = Callable (\<lambda>h. answer (ONum (PInt 30))),
      nb_DeviceGetClockInfo = Callable (\<lambda>h c. answer (ONum (PInt 1500))),
      nb_DeviceGetCudaComputeCapability = Callable (\<lambda>h. answer (OSeq [ONum (PInt 8), ONum (PInt 6)])),
      nb_DeviceGetCurrentClocksThrottleReasons = Callable (\<lambda>h. answer (ONum (PInt 5))),
      nb_DeviceGetSupportedClocksThrottleReasons = Callable (\<lambda>h. answer (ONum (PInt 255))),
      nb_TEMPERATURE_GPU = Some (ONum (PInt 0)), nb_CLOCK_SM = Some (ONum (PInt 1)), nb_CLOCK_MEM = None\<rparr>"

definition demo_nvml_env :: "(unit, int) nvml_env" where
  "demo_nvml_env =
     \<lparr>ne_import_module = answer demo_binding, ne_find_spec = answer True, ne_gpu_profile = Inr\<rparr>"

text \<open>Running a concrete binding: continuations stay folded until their turn.\<close>

lemma cbind_apply:
  "cbind m f s = (case m s of (Inl e, s') \<Rightarrow> (Inl e, s') | (Inr x, s') \<Rightarrow> f x s')"
  by (simp add: cbind_def)

lemma cbind_hold: "cbind m f s = cbind m f s" ..

lemma creturn_apply: "creturn x = Pair (Inr x)" and craise_apply: "craise e = Pair (Inl e)"
    and clift_apply: "clift r = Pair r"
  by (simp_all add: creturn_def craise_def clift_def)

text \<open>One call of a binding without a world of its own.\<close>

lemma attempt_answer: "nvml_attempt (Pair (Inr v)) key s = (Inr (Some v), s)"
  by (simp add: nvml_attempt_def on_world_def safe_call_def comp_defs)

lemma attempt_failure:
  "ordinary e \<Longrightarrow> nvml_attempt (Pair (Inl e)) key s =
     (Inr None, s\<lparr>ns_reasons := dict_set key (failure_reason e) (ns_reasons s)\<rparr>)"
  by (simp add: nvml_attempt_def on_world_def safe_call_def comp_defs nvml_set_def)

lemma value_answer:
  "f h = Pair (Inr v) \<Longrightarrow> nvml_device_value (Callable f) h key s = (Inr v, s)"
  "g h c = Pair (Inr v) \<Longrightarrow> nvml_selected_value (Callable g) h (Some c) key s = (Inr v, s)"
  by (simp_all add: nvml_device_value_def nvml_selected_value_def nvml_value_def cbind_apply attempt_answer
      creturn_apply craise_apply value_or_none_def)

lemma value_missing:
  "nvml_device_value NoAttribute h key s =
     (Inr ONone, s\<lparr>ns_reasons := dict_set key (failure_reason attribute_error) (ns_reasons s)\<rparr>)"
  "nvml_selected_value a h None key s =
     (Inr ONone, s\<lparr>ns_reasons := dict_set key (failure_reason attribute_error) (ns_reasons s)\<rparr>)"
  by (simp_all add: nvml_device_value_def nvml_selected_value_def nvml_value_def cbind_apply attempt_failure
      creturn_apply craise_apply value_or_none_def attribute_error_def ordinary_def)

lemmas call_simps = attempt_answer attempt_failure value_answer value_missing

lemma demo_numbers:
  "milli_number (ONum (PInt 70500)) = Inr (Num (PFlt (Fin (141 / 2))))"
  "milli_number ONone = Inr Unsupported" "percent_number (ONum (PInt 110)) = Inr Unsupported"
  "percent_number (ONum (PInt 3)) = Inr (Num (PInt 3))" "percent_number (ONum (PInt 30)) = Inr (Num (PInt 30))"
  "celsius_number (ONum (PInt 61)) = Inr (Num (PInt 61))" "plain_number (ONum (PInt 1500)) = Inr (Num (PInt 1500))"
  "plain_number ONone = Inr Unsupported" "nvml_text (OBytes (Inr ''GPU-a'')) = Inr (Some ''GPU-a'')"
  "active_bits 255 5 = [''gpu_idle'', ''sw_power_cap'']" 
  by code_simp+

lemma unsupported_default_apply:
  "unsupported_default (Num v) key s = (Inr (), s)"
  "unsupported_default Unsupported key s = (Inr (), s\<lparr>ns_reasons := dict_setdefault key ''sensor_unsupported'' (ns_reasons s)\<rparr>)"
  by (simp_all add: unsupported_default_def creturn_apply nvml_setdefault_def cmodify_def)

lemma setdefault_apply: "nvml_setdefault key r s = (Inr (), s\<lparr>ns_reasons := dict_setdefault key r (ns_reasons s)\<rparr>)"
  by (simp add: nvml_setdefault_def cmodify_def)

lemma demo_memory:
  "\<exists>s'. device_memory demo_binding 0 0 s = (Inr (Unsupported, Unsupported), s')"
  by (simp add: device_memory_def demo_binding_def call_simps cbind_apply clift_apply demo_numbers ordinary_def
      unsupported_default_apply creturn_apply craise_apply cong: cbind_hold)

lemma demo_throttle:
  "nvml_throttle_reasons demo_binding 0 0 s = (Inr ([''gpu_idle'', ''sw_power_cap''], True), s)"
  by (simp add: nvml_throttle_reasons_def demo_binding_def call_simps cbind_apply Let_def demo_numbers
      creturn_apply craise_apply cong: cbind_hold)

lemma demo_binding_simps:
  "nb_Init demo_binding = Callable (Pair (Inr ()))"
  "nb_DeviceGetCount demo_binding = Callable (Pair (Inr (ONum (PInt 1))))"
  "nb_DeviceGetHandleByIndex demo_binding = Callable (\<lambda>i. Pair (Inr (Some i)))"
  "nb_DeviceGetUUID demo_binding = Callable (\<lambda>h. Pair (Inr (OBytes (Inr ''GPU-a''))))"
  "nb_DeviceGetUtilizationRates demo_binding = Callable (\<lambda>h. Pair (Inr (ONum (PInt 110), ONum (PInt 3))))"
  "nb_DeviceGetTemperature demo_binding = Callable (\<lambda>h c. Pair (Inr (ONum (PInt 61))))"
  "nb_DeviceGetPowerUsage demo_binding = Callable (\<lambda>h. Pair (Inr (ONum (PInt 70500))))"
  "nb_DeviceGetEnforcedPowerLimit demo_binding = NoAttribute"
  "nb_DeviceGetFanSpeed demo_binding = Callable (\<lambda>h. Pair (Inr (ONum (PInt 30))))"
  "nb_DeviceGetClockInfo demo_binding = Callable (\<lambda>h c. Pair (Inr (ONum (PInt 1500))))"
  "nb_TEMPERATURE_GPU demo_binding = Some (ONum (PInt 0))"
  "nb_CLOCK_SM demo_binding = Some (ONum (PInt 1))" "nb_CLOCK_MEM demo_binding = None"
  by (simp_all add: demo_binding_def creturn_apply)

lemma demo_device:
  "\<exists>g s'. sample_device demo_binding 0 0 s = (Inr g, s') \<and> gs_power_watts g = Num (PFlt (Fin (141 / 2)))
     \<and> gs_utilization_percent g = Unsupported \<and> gs_throttle_reasons g = [''gpu_idle'', ''sw_power_cap'']
     \<and> gs_vram_used_bytes g = Unsupported \<and> gs_index g = 0"
proof -
  obtain s1 where m: "device_memory demo_binding 0 0 s = (Inr (Unsupported, Unsupported), s1)"
    using demo_memory by blast
  show ?thesis
    by (simp add: sample_device_def m demo_throttle cbind_apply creturn_apply clift_apply demo_binding_simps
        call_simps demo_numbers setdefault_apply unsupported_default_apply nvml_late_fields_def cong: cbind_hold)
qed

lemma demo_sample:
  "\<exists>g s'. nvml_sample demo_nvml_env (nvml_init None ()) = (Inr [g], s')
     \<and> gs_power_watts g = Num (PFlt (Fin (141 / 2)))
     \<and> gs_utilization_percent g = Unsupported \<and> gs_throttle_reasons g = [''gpu_idle'', ''sw_power_cap'']
     \<and> gs_vram_used_bytes g = Unsupported \<and> gs_index g = 0"
proof -
  define s0 where "s0 = \<lparr>ns_binding = Some demo_binding, ns_initialized = True, ns_reasons = [], ns_world = ()\<rparr>"
  obtain g s' where g: "sample_device demo_binding 0 0 s0 = (Inr g, s')"
    "gs_power_watts g = Num (PFlt (Fin (141 / 2)))" "gs_utilization_percent g = Unsupported"
    "gs_throttle_reasons g = [''gpu_idle'', ''sw_power_cap'']" "gs_vram_used_bytes g = Unsupported" "gs_index g = 0"
    using demo_device by blast
  have ready: "nvml_ready demo_nvml_env ((nvml_init None ())\<lparr>ns_reasons := []\<rparr>) = (Inr (Some demo_binding), s0)"
    by (simp add: nvml_ready_def nvml_init_def demo_nvml_env_def load_nvml_binding_def nvml_initialize_def
        demo_binding_simps on_world_def safe_call_def comp_defs s0_def)
  show ?thesis using g
    by (simp add: nvml_sample_def cbind_apply nvml_clear_def cmodify_def ready device_count_def nvml_attempt_attribute_def demo_binding_simps
        call_simps value_or_none_def device_handle_def or_no_gpus_def creturn_apply Let_def cong: cbind_hold)
qed
theorem nvml_sample_wellformed_witness:
  "\<exists>g s'. nvml_sample demo_nvml_env (nvml_init None ()) = (Inr [g], s')
     \<and> gpu_sample_ok g \<and> gs_power_watts g = Num (PFlt (Fin (141 / 2)))
     \<and> gs_utilization_percent g = Unsupported \<and> gs_throttle_reasons g = [''gpu_idle'', ''sw_power_cap'']
     \<and> gpu_key 0 ''vram_used_bytes'' \<in> dict_keys (nvml_unavailable_reasons s')"
proof -
  obtain g s' where g: "nvml_sample demo_nvml_env (nvml_init None ()) = (Inr [g], s')"
    "gs_power_watts g = Num (PFlt (Fin (141 / 2)))" "gs_utilization_percent g = Unsupported"
    "gs_throttle_reasons g = [''gpu_idle'', ''sw_power_cap'']" "gs_vram_used_bytes g = Unsupported" "gs_index g = 0"
    using demo_sample by blast
  note ok = nvml_sample_wellformed [OF g(1)]
  then have "explained (nvml_unavailable_reasons s') g" by (simp add: reading_explained_def)
  then have "gpu_key 0 ''vram_used_bytes'' \<in> dict_keys (nvml_unavailable_reasons s')"
    using explainedD [of _ g VramUsed] g(5,6) by auto
  with ok g show ?thesis by (auto simp: samples_ok_def)
qed

text \<open>
  C39: no ordinary failure of the binding escapes a sampling run: the only exceptions are a missing
  attribute of the binding, an integer that no float can hold, and those that do not inherit from
  \<open>Exception\<close>.
\<close>

theorem nvml_sample_escapes:
  "case fst (nvml_sample env s) of
     Inl e \<Rightarrow> e = attribute_error \<or> e = OverflowError \<or> e = KeyboardInterrupt \<or> e = SystemExit
   | Inr _ \<Rightarrow> True"
  using raises_sample [of env]
  by (auto simp: raises_only_def ordinary_def split: sum.split) (metis prod.collapse)

text \<open>
  C40: the library is initialized and shut down in turn. Over any sequence of operations on one
  binding whose shutdown is callable, whatever fails, an initialization happens only while the
  library is down, a shutdown only while it is up, and the flag of the reader always says which.
\<close>

theorem nvml_lifecycle:
  assumes "nb_Shutdown b = Callable m"
  shows "library_state (snd (ns_world (nvml_history env b w operations))) =
    Some (ns_initialized (nvml_history env b w operations))"
proof -
  have step: "follows (logged_binding b) (run_operation env x s)" if "follows (logged_binding b) s" for x s
    using that follows_sample [of b env] follows_available [of b env] follows_static_info [of b env]
      follows_close [OF assms(1)]
    by (cases x) (auto simp: preserves_def)
  have "follows (logged_binding b) (fold (run_operation env) operations s)"
    if "follows (logged_binding b) s" for s
    using that by (induction operations arbitrary: s) (auto simp: step)
  from this [of "nvml_init (Some (logged_binding b)) (w, [])"] show ?thesis
    by (simp add: nvml_history_def follows_def nvml_init_def library_state_def)
qed

definition logged_env :: "(unit logged, int) nvml_env" where
  "logged_env =
     \<lparr>ne_import_module = craise OSError, ne_find_spec = creturn False, ne_gpu_profile = Inr\<rparr>"

theorem nvml_lifecycle_witness:
  "snd (ns_world (nvml_history logged_env demo_binding () [Available, Available, Close, Close, StaticInfo])) =
     [Initialized, ShutDown, Initialized]
   \<and> ns_initialized (nvml_history logged_env demo_binding () [Available, Available, Close, Close, StaticInfo])"
proof -
  have "nb_Shutdown demo_binding = Callable (creturn ())" by (simp add: demo_binding_def)
  note flag = nvml_lifecycle [OF this, of logged_env "()" "[Available, Available, Close, Close, StaticInfo]"]
  have "snd (ns_world (nvml_history logged_env demo_binding () [Available, Available, Close, Close, StaticInfo])) =
     [Initialized, ShutDown, Initialized]"
    by code_simp
  with flag show ?thesis by (simp add: library_state_def)
qed

end
