(* ===== verification/Platform.thy ===== *)
theory Platform
  imports Readers Linux_Host Nvidia_Smi Nvml
begin

text \<open>
  src/sweatmeter/platform.py: the null readers that stand for a deliberate absence of telemetry,
  and the two factories. A factory's result names the class it constructs; the adapters give the
  concrete readers the shape the collector uses.
\<close>

section \<open>Null readers\<close>

definition host_live_fields :: "string list" where
  "host_live_fields =
     [''cpu_percent'', ''load_average_1m'', ''ram_used_bytes'', ''ram_available_bytes'',
      ''ram_total_bytes'', ''cpu_temperature_c'', ''disk_read_bytes_per_sec'',
      ''disk_write_bytes_per_sec'', ''process_rss_bytes'']"

definition host_static_fields :: "string list" where
  "host_static_fields =
     [''hostname'', ''os_name'', ''os_version'', ''kernel'', ''architecture'', ''cpu_model'',
      ''physical_cores'', ''logical_cores'', ''ram_bytes'']"

definition null_reason :: "obj \<Rightarrow> string result" where
  "null_reason reason =
     (case reason of
        OStr t \<Rightarrow> if strip t = [] then Inl ValidationError else Inr (strip t)
      | _ \<Rightarrow> Inl ValidationError)"

definition null_host_reasons :: "string \<Rightarrow> reasons" where
  "null_host_reasons reason =
     dict_update [] (map (\<lambda>f. (f, reason)) (host_live_fields @ host_static_fields))"

definition NullHostReader :: "string \<Rightarrow> unit host_reader" where
  "NullHostReader reason =
     \<lparr>hr_cpu_percent = creturn OUnsupported, hr_load_average_1m = creturn OUnsupported,
      hr_memory = creturn (Some (raw_memory_of MemoryReading)),
      hr_cpu_temperature = creturn OUnsupported,
      hr_disk_throughput = creturn (Some (raw_disk_of DiskThroughput)),
      hr_process_rss_bytes = creturn OUnsupported,
      hr_static_facts = creturn (Some (raw_facts_of HostFacts)),
      hr_unavailable_reasons = Some (creturn (reported_of (null_host_reasons reason)))\<rparr>"

definition null_gpu_sample :: "(unit, gpu_sample list) comp" where
  "null_gpu_sample = creturn []"

definition null_gpu_reasons :: "string \<Rightarrow> reasons" where
  "null_gpu_reasons reason = [(''gpu'', reason)]"

definition NullGpuReader :: "string \<Rightarrow> unit gpu_operations" where
  "NullGpuReader reason =
     gpu_operations_of (creturn False) null_gpu_sample (creturn []) (\<lambda>_. null_gpu_reasons reason)"

interpretation null_gpu: gpu_reader null_gpu_sample "\<lambda>_. null_gpu_reasons reason" "\<lambda>_. True" for reason
  by unfold_locales
    (simp_all add: null_gpu_sample_def creturn_def samples_ok_def reading_explained_def
      null_gpu_reasons_def dict_keys_def)

section \<open>The implemented readers\<close>

definition linux_host_reader :: "linux_config \<Rightarrow> linux_env \<Rightarrow> linux_state host_reader" where
  "linux_host_reader cfg env =
     \<lparr>hr_cpu_percent = cmap obj_of_measurement (cpu_percent cfg env),
      hr_load_average_1m = cmap obj_of_measurement (load_average_1m cfg env),
      hr_memory = cmap (\<lambda>m. Some (raw_memory_of m)) (linux_memory cfg env),
      hr_cpu_temperature = cmap obj_of_measurement (cpu_temperature cfg env),
      hr_disk_throughput = cmap (\<lambda>d. Some (raw_disk_of d)) (Linux_Host.disk_throughput cfg env),
      hr_process_rss_bytes = cmap obj_of_measurement (process_rss_bytes cfg env),
      hr_static_facts = cmap (\<lambda>f. Some (raw_facts_of f)) (static_facts cfg env),
      hr_unavailable_reasons = None\<rparr>"

definition smi_reader :: "'w smi_config \<Rightarrow> 'w smi_state gpu_operations" where
  "smi_reader cfg =
     gpu_operations_of (smi_available cfg) (smi_sample cfg) (smi_static_info cfg) smi_unavailable_reasons"

definition nvml_reader :: "('w, 'h) nvml_env \<Rightarrow> ('w, 'h) nvml_state gpu_operations" where
  "nvml_reader env =
     gpu_operations_of (nvml_available env) (nvml_sample env) (nvml_static_info env) nvml_unavailable_reasons"

section \<open>Factories\<close>

datatype gpu_backend = NVIDIA_SMI | PYNVML

datatype host_class = LinuxClass | WindowsClass | DarwinClass

definition create_host_reader :: "string \<Rightarrow> string option \<Rightarrow> host_class result" where
  "create_host_reader sys_platform platform_name =
     (let selected = (case platform_name of None \<Rightarrow> sys_platform | Some p \<Rightarrow> p) in
      if selected = ''linux'' then Inr LinuxClass
      else if selected = ''win32'' then Inr WindowsClass
      else if selected = ''darwin'' then Inr DarwinClass
      else Inl UnsupportedPlatformError)"

text \<open>A preference outside the enumeration is \<open>PreferOther\<close>.\<close>

datatype preference = PreferNone | Prefer gpu_backend | PreferOther

definition create_gpu_reader :: "('w, 'h) nvml_env \<Rightarrow> preference \<Rightarrow> ('w, gpu_backend) comp" where
  "create_gpu_reader env prefer =
     (case prefer of
        PreferNone \<Rightarrow>
          cbind (nvml_binding_available env) (\<lambda>installed.
            creturn (if installed then PYNVML else NVIDIA_SMI))
      | Prefer NVIDIA_SMI \<Rightarrow> creturn NVIDIA_SMI
      | Prefer PYNVML \<Rightarrow>
          cbind (nvml_binding_available env) (\<lambda>installed.
            if \<not> installed then craise DependencyUnavailableError else creturn PYNVML)
      | PreferOther \<Rightarrow> craise ValidationError)"

section \<open>What the factories promise\<close>

text \<open>
  The factory answers a preference honestly. Without one it never fails for an ordinary reason
  and chooses NVML exactly when the import system reports the extra; a named backend is either the
  one returned or refused, never replaced by the other.
\<close>

theorem create_gpu_reader_honest:
  "(case create_gpu_reader env PreferNone w of
      (Inl e, _) \<Rightarrow> e = KeyboardInterrupt \<or> e = SystemExit
    | (Inr b, _) \<Rightarrow> (b = PYNVML) = (fst (nvml_binding_available env w) = Inr True))
   \<and> fst (create_gpu_reader env (Prefer b) w) \<in>
       {Inr b, Inl DependencyUnavailableError, Inl KeyboardInterrupt, Inl SystemExit}
   \<and> fst (create_gpu_reader env PreferOther w) = Inl ValidationError"
  by (cases b)
    (auto simp: create_gpu_reader_def nvml_binding_available_def safe_eq comp_defs ordinary_def
      safe_result_def split: prod.split sum.split)

text \<open>
  A platform name selects its own reader and any other name is refused with the platform error,
  the running platform standing in for a missing name.
\<close>

theorem create_host_reader_cases:
  "create_host_reader sys_platform platform_name =
     (case map_of [(''linux'', LinuxClass), (''win32'', WindowsClass), (''darwin'', DarwinClass)]
             (case platform_name of None \<Rightarrow> sys_platform | Some p \<Rightarrow> p) of
        Some c \<Rightarrow> Inr c | None \<Rightarrow> Inl UnsupportedPlatformError)"
  by (simp add: create_host_reader_def Let_def split: option.split)

end
