(* ===== verification/Testing.thy ===== *)
theory Testing
  imports Platform
begin

text \<open>
  src/sweatmeter/testing.py: the scripted readers, whose state is their script and their cursors,
  and the wrapper that injects one fault. The locks serialize single operations and are not part of
  the state; the constructor of \<open>GpuProfile\<close> is a parameter.
\<close>

section \<open>Scripted host reader\<close>

definition host_operations :: "string list" where
  "host_operations =
     [''cpu_percent'', ''load_average_1m'', ''memory'', ''cpu_temperature'', ''disk_throughput'',
      ''process_rss_bytes'', ''static_facts'']"

definition gpu_operation_names :: "string list" where
  "gpu_operation_names = [''available'', ''sample'', ''static_info'']"

record host_reading =
  hd_cpu_percent :: measurement
  hd_load_average_1m :: measurement
  hd_memory :: "measurement memory_reading"
  hd_cpu_temperature_c :: measurement
  hd_disk_throughput :: "measurement disk_throughput"
  hd_process_rss_bytes :: measurement
  hd_static_facts :: "(reported_text, measurement, storage_device list) host_facts"

definition HostReading :: host_reading where
  "HostReading =
     \<lparr>hd_cpu_percent = Unsupported, hd_load_average_1m = Unsupported, hd_memory = MemoryReading,
      hd_cpu_temperature_c = Unsupported, hd_disk_throughput = DiskThroughput,
      hd_process_rss_bytes = Unsupported, hd_static_facts = HostFacts\<rparr>"

record scripted_host =
  sh_samples :: "host_reading list"
  sh_positions :: "(string, nat) dict"

definition scripted_host_init :: "host_reading list \<Rightarrow> scripted_host" where
  "scripted_host_init samples =
     \<lparr>sh_samples = samples, sh_positions = map (\<lambda>operation. (operation, 0)) host_operations\<rparr>"

text \<open>Every operation asks for its own name, so the cursor is always present.\<close>

definition cursor :: "string \<Rightarrow> scripted_host \<Rightarrow> nat" where
  "cursor operation s = (case dict_get (sh_positions s) operation of None \<Rightarrow> 0 | Some n \<Rightarrow> n)"

definition script_next :: "string \<Rightarrow> (scripted_host, host_reading) comp" where
  "script_next operation = (\<lambda>s.
     let position = cursor operation s in
     if length (sh_samples s) \<le> position then (Inl IndexError, s)
     else (Inr (sh_samples s ! position),
           s\<lparr>sh_positions := dict_set operation (position + 1) (sh_positions s)\<rparr>))"

definition ScriptedHostReader :: "scripted_host host_reader" where
  "ScriptedHostReader =
     \<lparr>hr_cpu_percent = cmap (\<lambda>r. obj_of_measurement (hd_cpu_percent r)) (script_next ''cpu_percent''),
      hr_load_average_1m =
        cmap (\<lambda>r. obj_of_measurement (hd_load_average_1m r)) (script_next ''load_average_1m''),
      hr_memory = cmap (\<lambda>r. Some (raw_memory_of (hd_memory r))) (script_next ''memory''),
      hr_cpu_temperature =
        cmap (\<lambda>r. obj_of_measurement (hd_cpu_temperature_c r)) (script_next ''cpu_temperature''),
      hr_disk_throughput =
        cmap (\<lambda>r. Some (raw_disk_of (hd_disk_throughput r))) (script_next ''disk_throughput''),
      hr_process_rss_bytes =
        cmap (\<lambda>r. obj_of_measurement (hd_process_rss_bytes r)) (script_next ''process_rss_bytes''),
      hr_static_facts = cmap (\<lambda>r. Some (raw_facts_of (hd_static_facts r))) (script_next ''static_facts''),
      hr_unavailable_reasons = None\<rparr>"

section \<open>Scripted GPU reader\<close>

record scripted_gpu =
  sg_samples :: "gpu_sample list list"
  sg_position :: nat

definition scripted_gpu_init :: "gpu_sample list list \<Rightarrow> scripted_gpu" where
  "scripted_gpu_init samples = \<lparr>sg_samples = samples, sg_position = 0\<rparr>"

definition scripted_available :: "(scripted_gpu, bool) comp" where
  "scripted_available =
     cgets (\<lambda>s. sg_position s < length (sg_samples s) \<and> sg_samples s ! sg_position s \<noteq> [])"

definition scripted_sample :: "(scripted_gpu, gpu_sample list) comp" where
  "scripted_sample = (\<lambda>s.
     let position = sg_position s in
     if length (sg_samples s) \<le> position then (Inl IndexError, s)
     else (Inr (sg_samples s ! position), s\<lparr>sg_position := position + 1\<rparr>))"

definition scripted_profile :: "gpu_sample \<Rightarrow> gpu_profile" where
  "scripted_profile g =
     \<lparr>gp_index = gs_index g, gp_name = None, gp_uuid = gs_uuid g,
      gp_vram_total_bytes = gs_vram_total_bytes g, gp_driver_version = None,
      gp_cuda_version = None, gp_compute_capability = None, gp_vendor = VendorUnknown\<rparr>"

text \<open>The profile is constructed, and may be refused, also for an index that is present.\<close>

fun scripted_profiles ::
  "(gpu_profile \<Rightarrow> gpu_profile result) \<Rightarrow> gpu_sample list \<Rightarrow> (int, gpu_profile) dict \<Rightarrow>
     (int, gpu_profile) dict result" where
  "scripted_profiles mk [] profiles = Inr profiles"
| "scripted_profiles mk (g # gs) profiles =
     ebind (mk (scripted_profile g)) (\<lambda>p.
       scripted_profiles mk gs (dict_setdefault (gs_index g) p profiles))"

definition scripted_static_info ::
  "(gpu_profile \<Rightarrow> gpu_profile result) \<Rightarrow> (scripted_gpu, gpu_profile list) comp" where
  "scripted_static_info mk = (\<lambda>s.
     (emap (\<lambda>profiles. map snd (dict_sorted profiles))
        (scripted_profiles mk (concat (sg_samples s)) []), s))"

definition ScriptedGpuReader ::
  "(gpu_profile \<Rightarrow> gpu_profile result) \<Rightarrow> scripted_gpu gpu_operations" where
  "ScriptedGpuReader mk =
     \<lparr>gr_available = scripted_available,
      gr_sample = cmap (map (\<lambda>g. Some (raw_gpu_of g))) scripted_sample,
      gr_static_info = cmap (map Some) (scripted_static_info mk),
      gr_unavailable_reasons = None\<rparr>"

section \<open>Fault injection\<close>

text \<open>
  The wrapped object as the two protocols see it; an object without the operations of a protocol
  has no view for it. The diagnostics of a view belong to the object.
\<close>

record 's wrapped_reader =
  wr_host :: "'s host_reader option"
  wr_gpu :: "'s gpu_operations option"

record 's fault_reader =
  fr_wrapped :: "'s wrapped_reader"
  fr_fail :: string

definition fault_init :: "'s wrapped_reader \<Rightarrow> string \<Rightarrow> 's fault_reader result" where
  "fault_init wrapped fail =
     (let allowed = (if wr_host wrapped = None then [] else host_operations)
                  @ (if wr_gpu wrapped = None then [] else gpu_operation_names) in
      if allowed = [] then Inl ValidationError
      else if fail \<notin> set allowed then Inl ValidationError
      else Inr \<lparr>fr_wrapped = wrapped, fr_fail = fail\<rparr>)"

definition fault_call :: "'s fault_reader \<Rightarrow> string \<Rightarrow> ('s, 'a) comp \<Rightarrow> ('s, 'a) comp" where
  "fault_call r operation fn = (if operation = fr_fail r then craise RuntimeError else fn)"

definition fault_host_call ::
  "'s fault_reader \<Rightarrow> string \<Rightarrow> ('s host_reader \<Rightarrow> ('s, 'a) comp) \<Rightarrow> ('s, 'a) comp" where
  "fault_host_call r operation get =
     (case wr_host (fr_wrapped r) of
        None \<Rightarrow> craise ValidationError | Some h \<Rightarrow> fault_call r operation (get h))"

definition fault_gpu_call ::
  "'s fault_reader \<Rightarrow> string \<Rightarrow> ('s gpu_operations \<Rightarrow> ('s, 'a) comp) \<Rightarrow> ('s, 'a) comp" where
  "fault_gpu_call r operation get =
     (case wr_gpu (fr_wrapped r) of
        None \<Rightarrow> craise ValidationError | Some g \<Rightarrow> fault_call r operation (get g))"

definition fault_reporter :: "'s fault_reader \<Rightarrow> ('s, reported_reasons) comp" where
  "fault_reporter r =
     (case (case wr_host (fr_wrapped r) of
              Some h \<Rightarrow> hr_unavailable_reasons h
            | None \<Rightarrow> (case wr_gpu (fr_wrapped r) of Some g \<Rightarrow> gr_unavailable_reasons g | None \<Rightarrow> None)) of
        None \<Rightarrow> creturn (ItemsOf (Inr [])) | Some report \<Rightarrow> report)"

definition fault_host :: "'s fault_reader \<Rightarrow> 's host_reader" where
  "fault_host r =
     \<lparr>hr_cpu_percent = fault_host_call r ''cpu_percent'' hr_cpu_percent,
      hr_load_average_1m = fault_host_call r ''load_average_1m'' hr_load_average_1m,
      hr_memory = fault_host_call r ''memory'' hr_memory,
      hr_cpu_temperature = fault_host_call r ''cpu_temperature'' hr_cpu_temperature,
      hr_disk_throughput = fault_host_call r ''disk_throughput'' hr_disk_throughput,
      hr_process_rss_bytes = fault_host_call r ''process_rss_bytes'' hr_process_rss_bytes,
      hr_static_facts = fault_host_call r ''static_facts'' hr_static_facts,
      hr_unavailable_reasons = Some (fault_reporter r)\<rparr>"

definition fault_gpu :: "'s fault_reader \<Rightarrow> 's gpu_operations" where
  "fault_gpu r =
     \<lparr>gr_available = fault_gpu_call r ''available'' gr_available,
      gr_sample = fault_gpu_call r ''sample'' gr_sample,
      gr_static_info = fault_gpu_call r ''static_info'' gr_static_info,
      gr_unavailable_reasons = Some (fault_reporter r)\<rparr>"

section \<open>Replaying a script\<close>

text \<open>The reader after calls of the named operations.\<close>

fun after_calls :: "string list \<Rightarrow> scripted_host \<Rightarrow> scripted_host" where
  "after_calls [] s = s"
| "after_calls (operation # ks) s = after_calls ks (snd (script_next operation s))"

lemma cursor_advanced:
  "cursor k (s\<lparr>sh_positions := dict_set operation n (sh_positions s)\<rparr>) =
     (if k = operation then n else cursor k s)"
  by (simp add: cursor_def dict_simps)

lemma script_next_state:
  "sh_samples (snd (script_next operation s)) = sh_samples s"
  "cursor k (snd (script_next operation s)) =
     (if k = operation \<and> cursor k s < length (sh_samples s) then Suc (cursor k s) else cursor k s)"
  by (auto simp: script_next_def Let_def cursor_advanced)

lemma after_calls_state:
  "sh_samples (after_calls ks s) = sh_samples s
   \<and> (cursor k s \<le> length (sh_samples s) \<longrightarrow>
        cursor k (after_calls ks s) = min (length (sh_samples s)) (cursor k s + count_list ks k))"
  by (induction ks arbitrary: s) (auto simp: script_next_state)

lemma cursor_init [simp]: "cursor operation (scripted_host_init samples) = 0"
proof -
  have "map_of (map (\<lambda>k. (k, 0 :: nat)) ks) operation = (if operation \<in> set ks then Some 0 else None)" for ks
    by (induction ks) auto
  then show ?thesis by (simp add: cursor_def dict_get_def scripted_host_init_def)
qed

text \<open>
  A scripted host replays its script. After any calls, an operation returns the row that follows
  the ones it has already returned, however often the other operations were called, and once its
  rows are used up it raises IndexError for ever instead of repeating a stale one.
\<close>

theorem scripted_host_replay:
  "fst (hr_memory ScriptedHostReader (after_calls calls (scripted_host_init rows))) =
     (if count_list calls ''memory'' < length rows
      then Inr (Some (raw_memory_of (hd_memory (rows ! count_list calls ''memory''))))
      else Inl IndexError)
   \<and> fst (script_next operation (after_calls calls (scripted_host_init rows))) =
     (if count_list calls operation < length rows then Inr (rows ! count_list calls operation)
      else Inl IndexError)"
proof -
  have "sh_samples (after_calls calls (scripted_host_init rows)) = rows
      \<and> cursor k (after_calls calls (scripted_host_init rows)) = min (length rows) (count_list calls k)" for k
    using after_calls_state [of calls "scripted_host_init rows" k]
    by (simp del: cursor_init add: cursor_init [of k rows]) (simp add: scripted_host_init_def)
  then show ?thesis
    by (auto simp: ScriptedHostReader_def script_next_def cmap_def comp_defs Let_def)
qed

section \<open>The scripted GPU reader keeps the contract\<close>

text \<open>
  It has no diagnostics, so its contract holds for scripts that leave nothing to explain: every row
  is well formed, shows a device and misses no value.
\<close>

definition complete_row :: "gpu_sample list \<Rightarrow> bool" where
  "complete_row gs \<longleftrightarrow>
     gs \<noteq> [] \<and> samples_ok gs
     \<and> list_all (\<lambda>g. gs_throttle_reasons_available g
          \<and> list_all (\<lambda>f. gpu_get f g \<noteq> Unsupported) gpu_field_list) gs"

definition complete_script :: "scripted_gpu \<Rightarrow> bool" where
  "complete_script s \<longleftrightarrow> list_all complete_row (sg_samples s)"

lemma scripted_sample_cases:
  "scripted_sample s = (Inr gs, s') \<longleftrightarrow>
     sg_position s < length (sg_samples s) \<and> gs = sg_samples s ! sg_position s
     \<and> s' = s\<lparr>sg_position := sg_position s + 1\<rparr>"
  by (auto simp: scripted_sample_def Let_def)

interpretation scripted: gpu_reader scripted_sample "\<lambda>_. []" complete_script
proof unfold_locales
  fix s gs s'
  assume s: "complete_script s" and "scripted_sample s = (Inr gs, s')"
  then have gs: "complete_row gs"
    by (auto simp: scripted_sample_cases complete_script_def list_all_length)
  then show "samples_ok gs" by (simp add: complete_row_def)
  from gs show "reading_explained [] gs"
    by (auto simp: complete_row_def reading_explained_def explained_def list_all_iff)
next
  fix s
  assume "complete_script s"
  then show "complete_script (snd (scripted_sample s))"
    by (simp add: complete_script_def scripted_sample_def Let_def)
qed

section \<open>Static profiles of a script\<close>

lemma scripted_profiles_accepted:
  assumes "\<And>p. mk p = Inr p"
  shows "scripted_profiles mk gs d =
     Inr (foldl (\<lambda>d g. dict_setdefault (gs_index g) (scripted_profile g) d) d gs)"
  using assms by (induction gs arbitrary: d) auto

lemma setdefault_fold:
  "dict_get (foldl (\<lambda>d g. dict_setdefault (key g) (val g) d) d gs) k =
     (case dict_get d k of Some v \<Rightarrow> Some v
      | None \<Rightarrow> map_option val (find (\<lambda>g. key g = k) gs))"
  by (induction gs arbitrary: d) (auto simp: dict_simps split: option.splits)

lemma dict_setdefault_fold:
  "dict_ok d \<Longrightarrow> dict_ok (foldl (\<lambda>d g. dict_setdefault (key g) (val g) d) d gs)"
  "dict_keys (foldl (\<lambda>d g. dict_setdefault (key g) (val g) d) d gs) = dict_keys d \<union> key ` set gs"
  by (induction gs arbitrary: d) auto

text \<open>
  The static profiles of a script list every device that occurs in it once, in ascending order
  of the index, each described by its first occurrence. The hypothesis is that baseaicore accepts
  the profiles.
\<close>

theorem scripted_static_info_first:
  assumes "\<And>p. mk p = Inr p"
  shows "scripted_static_info mk s =
    (Inr (map (\<lambda>index. scripted_profile (the (find (\<lambda>g. gs_index g = index) (concat (sg_samples s)))))
            (sorted_list_of_set (gs_index ` set (concat (sg_samples s))))), s)"
proof -
  let ?gs = "concat (sg_samples s)"
  let ?d = "foldl (\<lambda>d g. dict_setdefault (gs_index g) (scripted_profile g) d) [] ?gs"
  have ok: "dict_ok ?d" and keys: "dict_keys ?d = gs_index ` set ?gs"
    by (simp_all only: dict_setdefault_fold dict_ok_Nil) (simp add: dict_keys_def)
  have "the (dict_get ?d index) = scripted_profile (the (find (\<lambda>g. gs_index g = index) ?gs))"
    if "index \<in> gs_index ` set ?gs" for index
  proof -
    have "find (\<lambda>g. gs_index g = index) ?gs \<noteq> None"
      using that by (auto simp only: find_None_all simp_thms image_iff)
    then show ?thesis by (auto simp: setdefault_fold)
  qed
  then have "map (\<lambda>k. the (dict_get ?d k)) (sorted_list_of_set (dict_keys ?d)) =
      map (\<lambda>index. scripted_profile (the (find (\<lambda>g. gs_index g = index) ?gs)))
        (sorted_list_of_set (gs_index ` set ?gs))"
    unfolding keys by (intro map_cong refl) (simp del: set_concat)
  with dict_sorted_values [OF ok] show ?thesis
    by (simp only: scripted_static_info_def scripted_profiles_accepted [OF assms] emap.simps)
qed

text \<open>A sample with every default of the class.\<close>

definition bare_sample :: "int \<Rightarrow> gpu_sample" where
  "bare_sample index =
     \<lparr>gs_index = index, gs_uuid = None, gs_utilization_percent = Unsupported,
      gs_memory_utilization_percent = Unsupported, gs_vram_used_bytes = Unsupported,
      gs_vram_total_bytes = Unsupported, gs_temperature_c = Unsupported,
      gs_memory_temperature_c = Unsupported, gs_power_watts = Unsupported,
      gs_power_limit_watts = Unsupported, gs_fan_percent = Unsupported,
      gs_core_clock_mhz = Unsupported, gs_memory_clock_mhz = Unsupported, gs_throttle_reasons = [],
      gs_throttle_reasons_available = False\<rparr>"

theorem scripted_static_info_first_witness:
  "fst (scripted_static_info Inr
     (scripted_gpu_init [[bare_sample 1, bare_sample 0], [(bare_sample 1)\<lparr>gs_uuid := Some ''GPU-b''\<rparr>]])) =
   Inr [scripted_profile (bare_sample 0), scripted_profile (bare_sample 1)]"
  by (simp add: scripted_static_info_first [OF refl] scripted_gpu_init_def bare_sample_def insert_commute)

section \<open>One injected fault\<close>

definition wrap_host :: "'s host_reader \<Rightarrow> 's wrapped_reader" where
  "wrap_host h = \<lparr>wr_host = Some h, wr_gpu = None\<rparr>"

definition wrap_gpu :: "'s gpu_operations \<Rightarrow> 's wrapped_reader" where
  "wrap_gpu g = \<lparr>wr_host = None, wr_gpu = Some g\<rparr>"

text \<open>
  A wrapper around a host reader accepts exactly the names of host operations. It raises
  RuntimeError at the named operation without touching the wrapped reader, passes every other host
  operation through unchanged, and rejects every GPU operation.
\<close>

theorem fault_injection_exact:
  "case fault_init (wrap_host h) fail of
     Inl e \<Rightarrow> e = ValidationError \<and> fail \<notin> set host_operations
   | Inr r \<Rightarrow> fail \<in> set host_operations
       \<and> hr_cpu_percent (fault_host r) = (if fail = ''cpu_percent'' then craise RuntimeError else hr_cpu_percent h)
       \<and> hr_load_average_1m (fault_host r) =
           (if fail = ''load_average_1m'' then craise RuntimeError else hr_load_average_1m h)
       \<and> hr_memory (fault_host r) = (if fail = ''memory'' then craise RuntimeError else hr_memory h)
       \<and> hr_cpu_temperature (fault_host r) =
           (if fail = ''cpu_temperature'' then craise RuntimeError else hr_cpu_temperature h)
       \<and> hr_disk_throughput (fault_host r) =
           (if fail = ''disk_throughput'' then craise RuntimeError else hr_disk_throughput h)
       \<and> hr_process_rss_bytes (fault_host r) =
           (if fail = ''process_rss_bytes'' then craise RuntimeError else hr_process_rss_bytes h)
       \<and> hr_static_facts (fault_host r) =
           (if fail = ''static_facts'' then craise RuntimeError else hr_static_facts h)
       \<and> gr_available (fault_gpu r) = craise ValidationError
       \<and> gr_sample (fault_gpu r) = craise ValidationError
       \<and> gr_static_info (fault_gpu r) = craise ValidationError"
  by (simp add: fault_init_def wrap_host_def fault_host_def fault_gpu_def fault_host_call_def
      fault_gpu_call_def fault_call_def Let_def host_operations_def)

end
