(* ===== verification/Collector.thy ===== *)
theory Collector
  imports Platform Testing
begin

text \<open>
  src/sweatmeter/collector.py. The two readers, the injected clock and \<open>utc_now\<close> of
  baseaicore act on one world, so readers that share a machine are covered; the constructors and
  the fingerprint of baseaicore are parameters too. A collection threads the world and the local
  dictionary \<open>reasons\<close>; the collector itself keeps only the diagnostics of its most recent
  operation. The lock that serializes the public operations is not part of the state: each
  operation is one computation.
\<close>

section \<open>Parameters and state\<close>

text \<open>A clock that returns no datetime is \<open>None\<close>.\<close>

record machine_identity =
  mi_hostname :: "string option"
  mi_os_name :: "string option"
  mi_architecture :: "string option"
  mi_cpu_model :: "string option"
  mi_physical_cores :: measurement
  mi_logical_cores :: measurement
  mi_ram_bytes :: measurement
  mi_gpus :: "gpu_profile list"

record machine_profile =
  mp_machine_fingerprint :: string
  mp_identity :: machine_identity
  mp_os_version :: "string option"
  mp_kernel :: "string option"
  mp_storage :: "storage_device list"
  mp_python_version :: "string option"
  mp_observed_at :: datetime

record 's collector =
  cl_host :: "'s host_reader"
  cl_gpu :: "'s gpu_operations"
  cl_clock :: "('s, datetime option) comp"
  cl_utc_now :: "('s, datetime option) comp"
  cl_local_offset :: "datetime \<Rightarrow> int result"
  cl_fingerprint :: "machine_identity \<Rightarrow> string result"
  cl_gpu_profile :: "gpu_profile \<Rightarrow> gpu_profile result"
  cl_machine_profile :: "machine_profile \<Rightarrow> machine_profile result"

record 's collector_state =
  co_world :: 's
  co_reasons :: reasons

definition collector_start :: "'s \<Rightarrow> 's collector_state" where
  "collector_start w = \<lparr>co_world = w, co_reasons = []\<rparr>"

text \<open>\<open>__init__\<close>: an injected reader is kept, a missing one comes from its factory.\<close>

definition collector_init ::
  "string \<Rightarrow> ('w, 'h) nvml_env \<Rightarrow> 'a option \<Rightarrow> 'b option \<Rightarrow>
     ('w, ('a + host_class) \<times> ('b + gpu_backend)) comp" where
  "collector_init sys_platform env host gpu =
     cbind (case host of
              Some h \<Rightarrow> creturn (Inl h)
            | None \<Rightarrow> clift (emap Inr (create_host_reader sys_platform None))) (\<lambda>h.
     cbind (case gpu of
              Some g \<Rightarrow> creturn (Inl g)
            | None \<Rightarrow> cmap Inr (create_gpu_reader env PreferNone)) (\<lambda>g.
     creturn (h, g)))"

section \<open>Boundary calls\<close>

text \<open>The world and the local reasons of one collection.\<close>

type_synonym ('s, 'a) collecting = "('s \<times> reasons, 'a) comp"

definition reading :: "('s, 'a) comp \<Rightarrow> ('s, 'a) collecting" where
  "reading m = czoom fst (\<lambda>w (_, r). (w, r)) m"

definition noting :: "(reasons, 'a) comp \<Rightarrow> ('s, 'a) collecting" where
  "noting m = czoom snd (\<lambda>r (w, _). (w, r)) m"

text \<open>\<open>for field in fields: reasons[field] = reason\<close>\<close>

fun set_reasons :: "string list \<Rightarrow> string \<Rightarrow> (reasons, unit) comp" where
  "set_reasons [] reason = creturn ()"
| "set_reasons (f # fs) reason = cbind (set_reason f reason) (\<lambda>_. set_reasons fs reason)"

text \<open>\<open>_safe(fn, _READ_FAILURE)\<close>: the sentinel is \<open>None\<close>.\<close>

definition safely :: "('s, 'a) comp \<Rightarrow> ('s, 'a option) comp" where
  "safely m = safe (cmap Some m) None"

definition read_boundary :: "('s, 'a) comp \<Rightarrow> 'a \<Rightarrow> string list \<Rightarrow> ('s, 'a) collecting" where
  "read_boundary fn fallback reason_fields =
     cbind (reading (safely fn)) (\<lambda>value.
       case value of
         None \<Rightarrow> cbind (noting (set_reasons reason_fields ''reader_error'')) (\<lambda>_. creturn fallback)
       | Some v \<Rightarrow> creturn v)"

section \<open>Normalizing values\<close>

definition collector_number :: "obj \<Rightarrow> pyfloat option \<Rightarrow> pyfloat option \<Rightarrow> measurement result" where
  "collector_number v minimum maximum =
     (case v of
        ONum n \<Rightarrow>
          ebind (num_isfinite n) (\<lambda>finite.
            if \<not> finite then Inr Unsupported
            else if (case minimum of None \<Rightarrow> False | Some lo \<Rightarrow> num_less n (PFlt lo)) then Inr Unsupported
            else if (case maximum of None \<Rightarrow> False | Some hi \<Rightarrow> num_less (PFlt hi) n) then Inr Unsupported
            else Inr (Num n))
      | _ \<Rightarrow> Inr Unsupported)"

definition profile_text :: "obj \<Rightarrow> string option" where
  "profile_text v = (case v of OStr t \<Rightarrow> if strip t = [] then None else Some (strip t) | _ \<Rightarrow> None)"

section \<open>Timestamps\<close>

text \<open>The years 1 to 9999, in microseconds from 1970.\<close>

definition min_datetime_us :: int where "min_datetime_us = - 62135596800000000"
definition max_datetime_us :: int where "max_datetime_us = 253402300799999999"

text \<open>
  \<open>value.astimezone(UTC)\<close>: a value without an offset is taken to be in the system's time
  zone, and an instant outside the range of datetime overflows.
\<close>

definition astimezone_utc :: "(datetime \<Rightarrow> int result) \<Rightarrow> datetime \<Rightarrow> datetime result" where
  "astimezone_utc local_offset t =
     ebind (case tz_offset t of
              Some (Inr (Some off)) \<Rightarrow> Inr off
            | Some (Inl e) \<Rightarrow> Inl e
            | _ \<Rightarrow> local_offset t)
       (\<lambda>off. let us = wall_us t - off in
          if min_datetime_us \<le> us \<and> us \<le> max_datetime_us then Inr (utc_instant us)
          else Inl OverflowError)"

definition fallback_instant :: datetime where
  "fallback_instant = utc_instant 0"

definition fallback_timestamp :: "'s collector \<Rightarrow> ('s, datetime) comp" where
  "fallback_timestamp cl =
     cbind (safe (cl_utc_now cl) (Some fallback_instant)) (\<lambda>value.
       case value of
         None \<Rightarrow> creturn fallback_instant
       | Some t \<Rightarrow> safe (clift (astimezone_utc (cl_local_offset cl) t)) fallback_instant)"

definition timestamp :: "'s collector \<Rightarrow> ('s, datetime) collecting" where
  "timestamp cl =
     (let invalid = cbind (noting (set_reason ''timestamp'' ''invalid_clock''))
                      (\<lambda>_. reading (fallback_timestamp cl)) in
      cbind (read_boundary (cl_clock cl) (Some fallback_instant) [''timestamp'']) (\<lambda>raw.
        case raw of
          None \<Rightarrow> invalid
        | Some t \<Rightarrow>
            (case tz_offset t of
               None \<Rightarrow> invalid
             | Some offset \<Rightarrow>
                 cbind (clift (safe_result offset None)) (\<lambda>known.
                   if known = None then invalid
                   else cbind (safely (clift (astimezone_utc (cl_local_offset cl) t)))
                     (\<lambda>converted. case converted of None \<Rightarrow> invalid | Some u \<Rightarrow> creturn u)))))"

section \<open>Diagnostics\<close>

definition well_formed_reasons :: "(obj \<times> obj) list \<Rightarrow> reasons" where
  "well_formed_reasons items =
     foldl (\<lambda>d (k, v). case (k, v) of
              (OStr key, OStr value) \<Rightarrow> if key \<noteq> [] \<and> value \<noteq> [] then dict_set key value d else d
            | _ \<Rightarrow> d) [] items"

definition reader_reasons :: "('s, reported_reasons) comp option \<Rightarrow> ('s, reasons) comp" where
  "reader_reasons reporter =
     (case reporter of
        None \<Rightarrow> creturn []
      | Some report \<Rightarrow>
          cbind (safe report (ItemsOf (Inr []))) (\<lambda>reported.
            case reported of
              NotMapping \<Rightarrow> creturn []
            | ItemsOf items \<Rightarrow>
                cbind (clift (safe_result items [])) (\<lambda>pairs. creturn (well_formed_reasons pairs))))"

fun mark_unsupported :: "(string \<times> measurement) list \<Rightarrow> string \<Rightarrow> (reasons, unit) comp" where
  "mark_unsupported [] reason = creturn ()"
| "mark_unsupported ((f, v) # vs) reason =
     cbind (if v = Unsupported then setdefault_reason f reason else creturn ())
       (\<lambda>_. mark_unsupported vs reason)"

section \<open>GPU samples\<close>

definition gpu_maximum :: "gpu_field \<Rightarrow> pyfloat option" where
  "gpu_maximum f = (if is_suffix ''percent'' (field_name f) then Some (Fin 100) else None)"

definition gpu_minimum :: "gpu_field \<Rightarrow> pyfloat option" where
  "gpu_minimum f = Some (if contains ''temperature'' (field_name f) then absolute_zero else Fin 0)"

definition measure_field :: "raw_gpu \<Rightarrow> int \<Rightarrow> gpu_field \<Rightarrow> (reasons, gpu_field \<times> measurement) comp" where
  "measure_field raw index f =
     cbind (clift (collector_number (gpu_get f raw) (gpu_minimum f) (gpu_maximum f))) (\<lambda>m.
     cbind (if m = Unsupported
            then setdefault_reason (gpu_key index (field_name f)) ''sensor_unsupported''
            else creturn ()) (\<lambda>_.
     creturn (f, m)))"

definition normal_uuid :: "obj \<Rightarrow> string option" where
  "normal_uuid v = (case v of OStr t \<Rightarrow> if t = [] then None else Some t | _ \<Rightarrow> None)"

definition normal_throttle :: "obj list \<Rightarrow> string list" where
  "normal_throttle vs = concat (map (\<lambda>v. case v of OStr t \<Rightarrow> if t = [] then [] else [t] | _ \<Rightarrow> []) vs)"

definition sample_of_measurements ::
  "int \<Rightarrow> raw_gpu \<Rightarrow> (gpu_field \<times> measurement) list \<Rightarrow> string list \<Rightarrow> gpu_sample" where
  "sample_of_measurements index raw ms throttle =
     (let m = (\<lambda>f. case map_of ms f of None \<Rightarrow> Unsupported | Some v \<Rightarrow> v) in
     \<lparr>gs_index = index, gs_uuid = normal_uuid (gs_uuid raw),
      gs_utilization_percent = m Utilization, gs_memory_utilization_percent = m MemoryUtilization,
      gs_vram_used_bytes = m VramUsed, gs_vram_total_bytes = m VramTotal,
      gs_temperature_c = m Temperature, gs_memory_temperature_c = m MemoryTemperature,
      gs_power_watts = m Power, gs_power_limit_watts = m PowerLimit, gs_fan_percent = m Fan,
      gs_core_clock_mhz = m CoreClock, gs_memory_clock_mhz = m MemoryClock,
      gs_throttle_reasons = throttle,
      gs_throttle_reasons_available = (gs_throttle_reasons_available raw = OBool True)\<rparr>)"

definition raw_index :: "obj \<Rightarrow> int option" where
  "raw_index v = (case v of ONum (PInt n) \<Rightarrow> if n < 0 then None else Some n | _ \<Rightarrow> None)"

text \<open>\<open>f"gpu.sample.{position}"\<close> and its siblings.\<close>

definition position_key :: "string \<Rightarrow> nat \<Rightarrow> string \<Rightarrow> string" where
  "position_key kind position suffix = ''gpu.'' @ kind @ ''.'' @ show_nat position @ suffix"

definition normalize_gpu_sample ::
  "nat \<Rightarrow> raw_gpu option \<Rightarrow> (int, gpu_sample) dict \<Rightarrow> (reasons, (int, gpu_sample) dict) comp" where
  "normalize_gpu_sample position value normalized =
     (case value of
        None \<Rightarrow> cbind (set_reason (position_key ''sample'' position []) ''malformed_reading'')
                  (\<lambda>_. creturn normalized)
      | Some raw \<Rightarrow>
          (case raw_index (gs_index raw) of
             None \<Rightarrow> cbind (set_reason (position_key ''sample'' position ''.index'') ''malformed_value'')
                       (\<lambda>_. creturn normalized)
           | Some index \<Rightarrow>
               if index \<in> dict_keys normalized
               then cbind (set_reason (position_key ''sample'' position ''.index'') ''duplicate_gpu_index'')
                      (\<lambda>_. creturn normalized)
               else
                 cbind (ctraverse (measure_field raw index) gpu_field_list) (\<lambda>ms.
                 cbind (clift (emap normal_throttle (gs_throttle_reasons raw))) (\<lambda>throttle.
                 creturn (dict_set index (sample_of_measurements index raw ms throttle) normalized)))))"

fun normalize_gpu_rows ::
  "nat \<Rightarrow> raw_gpu option list \<Rightarrow> (int, gpu_sample) dict \<Rightarrow> (reasons, (int, gpu_sample) dict) comp" where
  "normalize_gpu_rows position [] normalized = creturn normalized"
| "normalize_gpu_rows position (v # vs) normalized =
     cbind (normalize_gpu_sample position v normalized) (normalize_gpu_rows (Suc position) vs)"

definition normalize_gpu_samples :: "raw_gpu option list \<Rightarrow> (reasons, gpu_sample list) comp" where
  "normalize_gpu_samples vals =
     cmap (\<lambda>normalized. map snd (dict_sorted normalized)) (normalize_gpu_rows 0 vals [])"

section \<open>Snapshots\<close>

definition ram_fields :: "string list" where
  "ram_fields = [''ram_used_bytes'', ''ram_available_bytes'', ''ram_total_bytes'']"

definition disk_fields :: "string list" where
  "disk_fields = [''disk_read_bytes_per_sec'', ''disk_write_bytes_per_sec'']"

definition read_number ::
  "('s, obj) comp \<Rightarrow> string \<Rightarrow> pyfloat \<Rightarrow> pyfloat option \<Rightarrow> ('s, measurement) collecting" where
  "read_number fn field minimum maximum =
     cbind (read_boundary fn OUnsupported [field]) (\<lambda>v.
       clift (collector_number v (Some minimum) maximum))"

text \<open>A result of the wrong class is replaced and its fields are marked.\<close>

definition read_instance ::
  "('s, 'a option) comp \<Rightarrow> 'a \<Rightarrow> string list \<Rightarrow> string list \<Rightarrow> ('s, 'a) collecting" where
  "read_instance fn blank reason_fields malformed_fields =
     cbind (read_boundary fn (Some blank) reason_fields) (\<lambda>v.
       case v of
         None \<Rightarrow> cbind (noting (set_reasons malformed_fields ''malformed_reading'')) (\<lambda>_. creturn blank)
       | Some x \<Rightarrow> creturn x)"

definition blank_memory :: raw_memory where "blank_memory = raw_memory_of MemoryReading"
definition blank_disk :: raw_disk where "blank_disk = raw_disk_of DiskThroughput"

definition nonneg_number :: "obj \<Rightarrow> measurement result" where
  "nonneg_number v = collector_number v (Some (Fin 0)) None"

definition live_reasons :: "reasons \<Rightarrow> string list \<Rightarrow> reasons \<Rightarrow> reasons" where
  "live_reasons reported live r =
     foldl (\<lambda>d (k, v). if k \<in> set live then dict_set k v d else d) r reported"

text \<open>Mark what is missing and add what the readers say.\<close>

definition record_diagnostics ::
  "'s collector \<Rightarrow> (string \<times> measurement) list \<Rightarrow> gpu_sample list \<Rightarrow> ('s, reasons) collecting" where
  "record_diagnostics cl live gpus =
     cbind (noting (mark_unsupported live ''sensor_unsupported'')) (\<lambda>_.
     cbind (reading (reader_reasons (hr_unavailable_reasons (cl_host cl)))) (\<lambda>host_reported.
     cbind (noting (cmodify (live_reasons host_reported (map fst live)))) (\<lambda>_.
     cbind (reading (reader_reasons (gr_unavailable_reasons (cl_gpu cl)))) (\<lambda>gpu_reported.
     cbind (noting (cmodify (\<lambda>r. dict_update r gpu_reported))) (\<lambda>_.
     cbind (if gpus = [] then noting (setdefault_reason ''gpu'' ''no_gpus'') else creturn ()) (\<lambda>_.
     cgets snd))))))"

text \<open>Everything after the reads.\<close>

definition assemble_snapshot ::
  "'s collector \<Rightarrow> datetime \<Rightarrow> measurement \<Rightarrow> measurement \<Rightarrow> raw_memory \<Rightarrow> measurement \<Rightarrow>
     raw_disk \<Rightarrow> measurement \<Rightarrow> gpu_sample list \<Rightarrow> ('s, snapshot) collecting" where
  "assemble_snapshot cl t cpu load memory temperature disk rss gpus =
     cbind (clift (nonneg_number (mr_used_bytes memory))) (\<lambda>used.
     cbind (clift (nonneg_number (mr_available_bytes memory))) (\<lambda>avail.
     cbind (clift (nonneg_number (mr_total_bytes memory))) (\<lambda>total_bytes.
     cbind (clift (nonneg_number (dt_read_bytes_per_sec disk))) (\<lambda>reads.
     cbind (clift (nonneg_number (dt_write_bytes_per_sec disk))) (\<lambda>writes.
     cbind (record_diagnostics cl
       [(''cpu_percent'', cpu), (''load_average_1m'', load), (''ram_used_bytes'', used),
        (''ram_available_bytes'', avail), (''ram_total_bytes'', total_bytes),
        (''cpu_temperature_c'', temperature), (''disk_read_bytes_per_sec'', reads),
        (''disk_write_bytes_per_sec'', writes), (''process_rss_bytes'', rss)] gpus) (\<lambda>reasons.
     clift (make_snapshot
       \<lparr>ts_timestamp = t, ts_cpu_percent = cpu, ts_load_average_1m = load,
        ts_ram_used_bytes = used, ts_ram_available_bytes = avail, ts_ram_total_bytes = total_bytes,
        ts_cpu_temperature_c = temperature, ts_disk_read_bytes_per_sec = reads,
        ts_disk_write_bytes_per_sec = writes, ts_process_rss_bytes = rss, ts_gpus = gpus,
        ts_reasons = dict_sorted reasons\<rparr>)))))))"

definition collect_snapshot :: "'s collector \<Rightarrow> ('s, snapshot) collecting" where
  "collect_snapshot cl =
     cbind (timestamp cl) (\<lambda>t.
     cbind (read_number (hr_cpu_percent (cl_host cl)) ''cpu_percent'' (Fin 0) (Some (Fin 100))) (\<lambda>cpu.
     cbind (read_number (hr_load_average_1m (cl_host cl)) ''load_average_1m'' (Fin 0) None) (\<lambda>load.
     cbind (read_instance (hr_memory (cl_host cl)) blank_memory ram_fields ram_fields) (\<lambda>memory.
     cbind (read_number (hr_cpu_temperature (cl_host cl)) ''cpu_temperature_c'' absolute_zero None) (\<lambda>temperature.
     cbind (read_instance (hr_disk_throughput (cl_host cl)) blank_disk disk_fields disk_fields) (\<lambda>disk.
     cbind (read_number (hr_process_rss_bytes (cl_host cl)) ''process_rss_bytes'' (Fin 0) None) (\<lambda>rss.
     cbind (read_boundary (gr_sample (cl_gpu cl)) [] [''gpu'']) (\<lambda>vals.
     cbind (noting (normalize_gpu_samples vals)) (\<lambda>gpus.
     assemble_snapshot cl t cpu load memory temperature disk rss gpus)))))))))"

text \<open>A collection starts with no reasons and its local dictionary ends with it.\<close>

definition with_fresh_reasons :: "('s, 'a) collecting \<Rightarrow> ('s, 'a) comp" where
  "with_fresh_reasons m = (\<lambda>w. case m (w, []) of (r, (w', _)) \<Rightarrow> (r, w'))"

definition on_machine :: "('s, 'a) comp \<Rightarrow> ('s collector_state, 'a) comp" where
  "on_machine m = czoom co_world (\<lambda>w s. s\<lparr>co_world := w\<rparr>) m"

definition failed_snapshot :: "datetime \<Rightarrow> snapshot" where
  "failed_snapshot t =
     \<lparr>ts_timestamp = t, ts_cpu_percent = Unsupported, ts_load_average_1m = Unsupported,
      ts_ram_used_bytes = Unsupported, ts_ram_available_bytes = Unsupported,
      ts_ram_total_bytes = Unsupported, ts_cpu_temperature_c = Unsupported,
      ts_disk_read_bytes_per_sec = Unsupported, ts_disk_write_bytes_per_sec = Unsupported,
      ts_process_rss_bytes = Unsupported, ts_gpus = [],
      ts_reasons = [(''snapshot'', ''collector_error'')]\<rparr>"

definition failure_snapshot :: "'s collector \<Rightarrow> ('s collector_state, snapshot) comp" where
  "failure_snapshot cl =
     cbind (on_machine (fallback_timestamp cl)) (\<lambda>t. clift (make_snapshot (failed_snapshot t)))"

definition take_snapshot :: "'s collector \<Rightarrow> ('s collector_state, snapshot) comp" where
  "take_snapshot cl =
     cbind (on_machine (safely (with_fresh_reasons (collect_snapshot cl)))) (\<lambda>collected.
     cbind (case collected of Some s \<Rightarrow> creturn s | None \<Rightarrow> failure_snapshot cl)
       (\<lambda>s. cbind (cmodify (\<lambda>st. st\<lparr>co_reasons := snapshot_unavailable_reasons s\<rparr>)) (\<lambda>_. creturn s)))"

definition collector_unavailable_reasons :: "'s collector_state \<Rightarrow> reasons" where
  "collector_unavailable_reasons st = co_reasons st"

section \<open>Machine profiles\<close>

definition normalize_gpu_profile ::
  "'s collector \<Rightarrow> nat \<Rightarrow> gpu_profile option \<Rightarrow> (int, gpu_profile) dict \<Rightarrow>
     (reasons, (int, gpu_profile) dict) comp" where
  "normalize_gpu_profile cl position value normalized =
     (case value of
        None \<Rightarrow> cbind (set_reason (position_key ''profile'' position []) ''malformed_reading'')
                  (\<lambda>_. creturn normalized)
      | Some p \<Rightarrow>
          if gp_index p \<in> dict_keys normalized
          then cbind (set_reason (position_key ''profile'' position ''.index'') ''duplicate_gpu_index'')
                 (\<lambda>_. creturn normalized)
          else
            cbind (clift (nonneg_number (obj_of_measurement (gp_vram_total_bytes p)))) (\<lambda>vram.
            cbind (clift (cl_gpu_profile cl
              \<lparr>gp_index = gp_index p, gp_name = profile_text (obj_of_optional (gp_name p)),
               gp_uuid = profile_text (obj_of_optional (gp_uuid p)), gp_vram_total_bytes = vram,
               gp_driver_version = profile_text (obj_of_optional (gp_driver_version p)),
               gp_cuda_version = profile_text (obj_of_optional (gp_cuda_version p)),
               gp_compute_capability = profile_text (obj_of_optional (gp_compute_capability p)),
               gp_vendor = gp_vendor p\<rparr>)) (\<lambda>profile.
            creturn (dict_set (gp_index profile) profile normalized))))"

fun normalize_profile_rows ::
  "'s collector \<Rightarrow> nat \<Rightarrow> gpu_profile option list \<Rightarrow> (int, gpu_profile) dict \<Rightarrow>
     (reasons, (int, gpu_profile) dict) comp" where
  "normalize_profile_rows cl position [] normalized = creturn normalized"
| "normalize_profile_rows cl position (v # vs) normalized =
     cbind (normalize_gpu_profile cl position v normalized) (normalize_profile_rows cl (Suc position) vs)"

definition normalize_gpu_profiles ::
  "'s collector \<Rightarrow> gpu_profile option list \<Rightarrow> (reasons, gpu_profile list) comp" where
  "normalize_gpu_profiles cl vals =
     cmap (\<lambda>normalized. map snd (dict_sorted normalized)) (normalize_profile_rows cl 0 vals [])"

definition profile_fields :: "string list" where
  "profile_fields =
     [''hostname'', ''os_name'', ''os_version'', ''kernel'', ''architecture'', ''cpu_model'',
      ''physical_cores'', ''logical_cores'', ''ram_bytes'', ''storage'', ''python_version'']"

definition static_reasons :: "reasons \<Rightarrow> reasons \<Rightarrow> reasons" where
  "static_reasons reported r =
     foldl (\<lambda>d (k, v). if k \<notin> set host_live_fields then dict_set k v d else d) r reported"

fun mark_missing_text :: "(string \<times> string option) list \<Rightarrow> string \<Rightarrow> (reasons, unit) comp" where
  "mark_missing_text [] reason = creturn ()"
| "mark_missing_text ((f, v) # vs) reason =
     cbind (if v = None then setdefault_reason f reason else creturn ())
       (\<lambda>_. mark_missing_text vs reason)"

definition blank_facts :: raw_facts where "blank_facts = raw_facts_of HostFacts"

text \<open>The diagnostics of a profile, once it is assembled.\<close>

definition profile_diagnostics :: "'s collector \<Rightarrow> machine_identity \<Rightarrow> ('s, unit) collecting" where
  "profile_diagnostics cl ident =
     cbind (noting (mark_unsupported
       [(''physical_cores'', mi_physical_cores ident), (''logical_cores'', mi_logical_cores ident),
        (''ram_bytes'', mi_ram_bytes ident)] ''sensor_unsupported'')) (\<lambda>_.
     cbind (noting (mark_missing_text
       [(''hostname'', mi_hostname ident), (''os_name'', mi_os_name ident),
        (''architecture'', mi_architecture ident), (''cpu_model'', mi_cpu_model ident)]
       ''sensor_unsupported'')) (\<lambda>_.
     cbind (reading (reader_reasons (hr_unavailable_reasons (cl_host cl)))) (\<lambda>host_reported.
     cbind (noting (cmodify (static_reasons host_reported))) (\<lambda>_.
     cbind (reading (reader_reasons (gr_unavailable_reasons (cl_gpu cl)))) (\<lambda>gpu_reported.
     cbind (noting (cmodify (\<lambda>r. dict_update r gpu_reported))) (\<lambda>_.
     if mi_gpus ident = [] then noting (setdefault_reason ''gpu'' ''no_gpus'') else creturn ()))))))"

definition collect_profile :: "'s collector \<Rightarrow> ('s, machine_profile \<times> reasons) collecting" where
  "collect_profile cl =
     cbind (read_instance (hr_static_facts (cl_host cl)) blank_facts profile_fields [''host_profile'']) (\<lambda>facts.
     cbind (read_boundary (gr_static_info (cl_gpu cl)) [] [''gpu'']) (\<lambda>vals.
     cbind (noting (normalize_gpu_profiles cl vals)) (\<lambda>gpus.
     cbind (timestamp cl) (\<lambda>t.
     cbind (clift (nonneg_number (hf_physical_cores facts))) (\<lambda>physical.
     cbind (clift (nonneg_number (hf_logical_cores facts))) (\<lambda>logical.
     cbind (clift (nonneg_number (hf_ram_bytes facts))) (\<lambda>ram.
     let ident = \<lparr>mi_hostname = profile_text (hf_hostname facts),
           mi_os_name = profile_text (hf_os_name facts),
           mi_architecture = profile_text (hf_architecture facts),
           mi_cpu_model = profile_text (hf_cpu_model facts), mi_physical_cores = physical,
           mi_logical_cores = logical, mi_ram_bytes = ram, mi_gpus = gpus\<rparr> in
     cbind (clift (cl_fingerprint cl ident)) (\<lambda>fingerprint.
     cbind (clift (cl_machine_profile cl
       \<lparr>mp_machine_fingerprint = fingerprint, mp_identity = ident,
        mp_os_version = profile_text (hf_os_version facts), mp_kernel = profile_text (hf_kernel facts),
        mp_storage = (case hf_storage facts of Some ds \<Rightarrow> ds | None \<Rightarrow> []),
        mp_python_version = profile_text (hf_python_version facts), mp_observed_at = t\<rparr>)) (\<lambda>profile.
     cbind (profile_diagnostics cl ident) (\<lambda>_.
     cgets (\<lambda>(_, r). (profile, dict_sorted r))))))))))))"

definition unknown_identity :: machine_identity where
  "unknown_identity =
     \<lparr>mi_hostname = None, mi_os_name = None, mi_architecture = None, mi_cpu_model = None,
      mi_physical_cores = Unsupported, mi_logical_cores = Unsupported, mi_ram_bytes = Unsupported,
      mi_gpus = []\<rparr>"

definition emergency_profile :: "'s collector \<Rightarrow> ('s, machine_profile) comp" where
  "emergency_profile cl =
     cbind (clift (cl_fingerprint cl unknown_identity)) (\<lambda>fingerprint.
     cbind (fallback_timestamp cl) (\<lambda>t.
     clift (cl_machine_profile cl
       \<lparr>mp_machine_fingerprint = fingerprint, mp_identity = unknown_identity, mp_os_version = None,
        mp_kernel = None, mp_storage = [], mp_python_version = None, mp_observed_at = t\<rparr>)))"

definition take_profile :: "'s collector \<Rightarrow> ('s collector_state, machine_profile) comp" where
  "take_profile cl =
     cbind (on_machine (safely (with_fresh_reasons (collect_profile cl)))) (\<lambda>collected.
       case collected of
         Some (profile, reasons) \<Rightarrow>
           cbind (cmodify (\<lambda>st. st\<lparr>co_reasons := reasons\<rparr>)) (\<lambda>_. creturn profile)
       | None \<Rightarrow>
           cbind (cmodify (\<lambda>st. st\<lparr>co_reasons := [(''machine_profile'', ''collector_error'')]\<rparr>))
             (\<lambda>_. on_machine (emergency_profile cl)))"

section \<open>Numbers\<close>

lemma absolute_zero_not_nan [simp]: "absolute_zero \<noteq> NaN"
  by (simp add: absolute_zero_def)

lemma isfinite_not_nan: "num_isfinite n = Inr True \<Longrightarrow> \<not> num_is_nan n"
  by (auto simp: num_is_nan_def)

lemma num_less_flt: "\<not> num_is_nan n \<Longrightarrow> x \<noteq> NaN \<Longrightarrow> num_less n (PFlt x) \<longleftrightarrow> \<not> num_le (PFlt x) n"
  "\<not> num_is_nan n \<Longrightarrow> x \<noteq> NaN \<Longrightarrow> num_less (PFlt x) n \<longleftrightarrow> \<not> num_le n (PFlt x)"
  using num_not_less [of n "PFlt x"] num_not_less [of "PFlt x" n] by (auto simp: num_is_nan_def)

lemma collector_number_ok:
  assumes "collector_number v (Some lo) hi = Inr m" "lo \<noteq> NaN" "hi \<noteq> Some NaN"
  shows "measurement_ok lo hi m"
  using assms
  by (auto simp: collector_number_def ebind_Inr_iff number_ok_def num_less_flt isfinite_not_nan
      split: obj.splits if_splits option.splits)

lemma collector_number_id:
  assumes "measurement_ok lo hi m" "lo \<noteq> NaN" "hi \<noteq> Some NaN"
  shows "collector_number (obj_of_measurement m) (Some lo) hi = Inr m"
  using assms
  by (cases m) (auto simp: collector_number_def number_ok_def num_less_flt isfinite_not_nan
      split: option.splits)

lemma gpu_limits: "gpu_minimum f = Some (field_minimum f)" "gpu_maximum f = field_maximum f"
  by (cases f; simp add: gpu_minimum_def gpu_maximum_def field_minimum_def field_maximum_def
      contains.simps is_prefix_def is_suffix_def)+

lemma field_limits_real [simp]: "field_minimum f \<noteq> NaN" "field_maximum f \<noteq> Some NaN"
  by (auto simp: field_minimum_def field_maximum_def)

section \<open>Normalization against a reference\<close>

text \<open>
  The reference works on values alone: keep the rows that have an index, the first one of each
  index, convert each and sort by index.
\<close>

definition raw_field_value :: "raw_gpu \<Rightarrow> gpu_field \<Rightarrow> (gpu_field \<times> measurement) result" where
  "raw_field_value raw f = emap (Pair f) (collector_number (gpu_get f raw) (gpu_minimum f) (gpu_maximum f))"

definition normal_sample :: "int \<times> raw_gpu \<Rightarrow> gpu_sample result" where
  "normal_sample row =
     (case row of (index, raw) \<Rightarrow>
        ebind (etraverse (raw_field_value raw) gpu_field_list) (\<lambda>ms.
          emap (\<lambda>ts. sample_of_measurements index raw ms (normal_throttle ts)) (gs_throttle_reasons raw)))"

definition indexed_rows :: "raw_gpu option list \<Rightarrow> (int \<times> raw_gpu) list" where
  "indexed_rows vals =
     concat (map (\<lambda>v. case v of
         None \<Rightarrow> []
       | Some raw \<Rightarrow> (case raw_index (gs_index raw) of None \<Rightarrow> [] | Some index \<Rightarrow> [(index, raw)])) vals)"

definition reference_samples :: "raw_gpu option list \<Rightarrow> gpu_sample list result" where
  "reference_samples vals =
     emap (sort_key gs_index) (etraverse normal_sample (AList.clearjunk (indexed_rows vals)))"

lemma fst_cbind: "fst (cbind m f s) = (case m s of (Inl e, _) \<Rightarrow> Inl e | (Inr x, s') \<Rightarrow> fst (f x s'))"
  by (auto simp: cbind_def split: prod.splits sum.splits)

lemma fst_measure_field: "fst (measure_field raw index f r) = raw_field_value raw f"
  by (cases "collector_number (gpu_get f raw) (gpu_minimum f) (gpu_maximum f)")
    (auto simp: measure_field_def raw_field_value_def comp_defs setdefault_reason_def)

lemma fst_measure_fields: "fst (ctraverse (measure_field raw index) fs r) = etraverse (raw_field_value raw) fs"
proof (induction fs arbitrary: r)
  case (Cons f fs)
  obtain v r1 where m: "measure_field raw index f r = (v, r1)" by (cases "measure_field raw index f r")
  with fst_measure_field [of raw index f r] have v: "v = raw_field_value raw f" by simp
  obtain vs r2 where ms: "ctraverse (measure_field raw index) fs r1 = (vs, r2)"
    by (cases "ctraverse (measure_field raw index) fs r1")
  with Cons.IH [of r1] have vs: "vs = etraverse (raw_field_value raw) fs" by simp
  show ?case
  proof (cases "raw_field_value raw f")
    case (Inr x)
    then show ?thesis using m ms v vs by (cases "etraverse (raw_field_value raw) fs") (simp_all add: comp_defs)
  qed (use m v in \<open>simp add: comp_defs\<close>)
qed (simp add: comp_defs)

lemma sample_of_measurements_index [simp]: "gs_index (sample_of_measurements index raw ms ts) = index"
  by (simp add: sample_of_measurements_def Let_def)

lemma normal_sample_index: "normal_sample (index, raw) = Inr g \<Longrightarrow> gs_index g = index"
  by (auto simp: normal_sample_def ebind_Inr_iff emap_Inr_iff)

lemma dict_set_fresh: "k \<notin> dict_keys d \<Longrightarrow> dict_set k v d = d @ [(k, v)]"
  by (induction d) (auto simp: dict_set_def dict_keys_def)

definition fresh_rows :: "int set \<Rightarrow> (int \<times> raw_gpu) list \<Rightarrow> (int \<times> raw_gpu) list" where
  "fresh_rows seen rows = AList.clearjunk (filter (\<lambda>(index, _). index \<notin> seen) rows)"

lemma fresh_rows_Cons:
  "fresh_rows seen ((index, raw) # rows) =
     (if index \<in> seen then fresh_rows seen rows
      else (index, raw) # fresh_rows (insert index seen) rows)"
proof -
  have "AList.delete index (filter (\<lambda>(i, _). i \<notin> seen) rows) = filter (\<lambda>(i, _). i \<notin> insert index seen) rows"
    by (simp add: AList.delete_eq) (rule filter_cong, auto)
  then show ?thesis by (simp add: fresh_rows_def)
qed

definition by_index :: "gpu_sample \<Rightarrow> int \<times> gpu_sample" where
  "by_index g = (gs_index g, g)"

lemma normalize_rows_reference:
  "fst (normalize_gpu_rows n vals d r) =
     emap (\<lambda>gs. d @ map by_index gs) (etraverse normal_sample (fresh_rows (dict_keys d) (indexed_rows vals)))"
proof (induction vals arbitrary: n d r)
  case Nil
  then show ?case by (simp add: indexed_rows_def fresh_rows_def comp_defs)
next
  case (Cons v vs)
  have skip: "fst (normalize_gpu_rows n (v # vs) d r) = fst (normalize_gpu_rows (Suc n) vs d r')"
    if "normalize_gpu_sample n v d r = (Inr d, r')" for r'
    using that by (simp add: cbind_def)
  consider "v = None" | raw where "v = Some raw" "raw_index (gs_index raw) = None"
    | raw index where "v = Some raw" "raw_index (gs_index raw) = Some index" "index \<in> dict_keys d"
    | raw index where "v = Some raw" "raw_index (gs_index raw) = Some index" "index \<notin> dict_keys d"
    by (cases v) auto
  then show ?case
  proof cases
    case 1
    show ?thesis using 1 Cons.IH
      by (simp add: normalize_gpu_sample_def indexed_rows_def set_reason_def comp_defs)
  next
    case 2
    then show ?thesis using Cons.IH
      by (simp add: normalize_gpu_sample_def indexed_rows_def set_reason_def comp_defs)
  next
    case 3
    then show ?thesis using Cons.IH
      by (simp add: normalize_gpu_sample_def indexed_rows_def set_reason_def comp_defs fresh_rows_Cons)
  next
    case (4 raw index)
    have rows: "fresh_rows (dict_keys d) (indexed_rows (v # vs)) =
        (index, raw) # fresh_rows (insert index (dict_keys d)) (indexed_rows vs)"
      using 4 by (simp add: indexed_rows_def fresh_rows_Cons)
    have this_row: "fst (normalize_gpu_sample n v d r) = emap (\<lambda>g. d @ [by_index g]) (normal_sample (index, raw))"
    proof -
      obtain r1 where "ctraverse (measure_field raw index) gpu_field_list r =
          (etraverse (raw_field_value raw) gpu_field_list, r1)"
        using fst_measure_fields [of raw index gpu_field_list r] by (metis prod.collapse)
      with 4 show ?thesis
        by (cases "etraverse (raw_field_value raw) gpu_field_list"; cases "gs_throttle_reasons raw")
          (simp_all add: normalize_gpu_sample_def normal_sample_def comp_defs dict_set_fresh by_index_def)
    qed
    show ?thesis
    proof (cases "normal_sample (index, raw)")
      case (Inl e)
      with this_row show ?thesis by (auto simp: rows fst_cbind split: prod.splits)
    next
      case (Inr g)
      with this_row obtain r1 where step: "normalize_gpu_sample n v d r = (Inr (d @ [by_index g]), r1)"
        by (cases "normalize_gpu_sample n v d r") auto
      have "dict_keys (d @ [by_index g]) = insert index (dict_keys d)"
        using normal_sample_index [OF Inr] by (auto simp: by_index_def dict_keys_def)
      with Cons.IH [of "Suc n" "d @ [by_index g]" r1] Inr show ?thesis
        by (cases "etraverse normal_sample (fresh_rows (insert index (dict_keys d)) (indexed_rows vs))")
          (simp_all add: rows cbind_def step)
    qed
  qed
qed

lemma sorted_by_index: "map snd (dict_sorted (map by_index gs)) = sort_key gs_index gs"
proof -
  have "insort_key fst (by_index g) (map by_index hs) = map by_index (insort_key gs_index g hs)" for g hs
    by (induction hs) (auto simp: by_index_def)
  then have "sort_key fst (map by_index gs) = map by_index (sort_key gs_index gs)"
    by (induction gs) auto
  then show ?thesis by (simp add: dict_sorted_def by_index_def comp_def)
qed

lemma normalize_samples_reference: "fst (normalize_gpu_samples vals r) = reference_samples vals"
proof -
  obtain x r' where m: "normalize_gpu_rows 0 vals [] r = (x, r')" by (cases "normalize_gpu_rows 0 vals [] r")
  have "fresh_rows {} rows = AList.clearjunk rows" for rows
    by (simp add: fresh_rows_def)
  with normalize_rows_reference [of 0 vals "[]" r] m
  have "x = emap (map by_index) (etraverse normal_sample (AList.clearjunk (indexed_rows vals)))"
    by (simp add: dict_keys_def)
  with m show ?thesis
    by (cases "etraverse normal_sample (AList.clearjunk (indexed_rows vals))")
      (simp_all add: normalize_gpu_samples_def cmap_def comp_defs reference_samples_def sorted_by_index)
qed

section \<open>Normalized rows\<close>

text \<open>What the collector alone ensures of a sample: a reader's vocabulary is its own affair.\<close>

definition gpu_row_ok :: "gpu_sample \<Rightarrow> bool" where
  "gpu_row_ok g \<longleftrightarrow>
     0 \<le> gs_index g \<and> gs_uuid g \<noteq> Some [] \<and> [] \<notin> set (gs_throttle_reasons g)
     \<and> list_all (\<lambda>f. measurement_ok (field_minimum f) (field_maximum f) (gpu_get f g)) gpu_field_list"

definition gpu_rows_ok :: "gpu_sample list \<Rightarrow> bool" where
  "gpu_rows_ok gs \<longleftrightarrow> sorted_wrt (<) (map gs_index gs) \<and> list_all gpu_row_ok gs"

lemma gpu_get_measurements:
  "gpu_get f (sample_of_measurements index raw ms ts) = (case map_of ms f of None \<Rightarrow> Unsupported | Some v \<Rightarrow> v)"
  by (cases f) (simp_all add: sample_of_measurements_def Let_def)

lemma raw_field_values:
  assumes "etraverse (raw_field_value raw) gpu_field_list = Inr ms"
  shows "\<exists>h. ms = map (\<lambda>f. (f, h f)) gpu_field_list
    \<and> (\<forall>f. collector_number (gpu_get f raw) (gpu_minimum f) (gpu_maximum f) = Inr (h f))"
proof -
  have "collector_number (gpu_get f raw) (gpu_minimum f) (gpu_maximum f) \<noteq> Inl e" for f e
  proof -
    have "f \<in> set gpu_field_list" using gpu_field_list_all by simp
    with assms show ?thesis
      by (auto simp: etraverse_Inr_iff list_all2_conv_all_nth in_set_conv_nth raw_field_value_def emap_Inr_iff)
  qed
  then have h: "\<exists>m. collector_number (gpu_get f raw) (gpu_minimum f) (gpu_maximum f) = Inr m" for f
    by (metis sum.exhaust)
  then obtain h where h: "\<forall>f. collector_number (gpu_get f raw) (gpu_minimum f) (gpu_maximum f) = Inr (h f)"
    by metis
  then have "raw_field_value raw f = Inr (f, h f)" for f by (simp add: raw_field_value_def)
  then have "etraverse (raw_field_value raw) fs = Inr (map (\<lambda>f. (f, h f)) fs)" for fs
    by (induction fs) auto
  with assms h show ?thesis by auto
qed

lemma map_of_graph: "map_of (map (\<lambda>f. (f, h f)) fs) f = (if f \<in> set fs then Some (h f) else None)"
  by (induction fs) auto

lemma normal_sample_fields:
  assumes "normal_sample (index, raw) = Inr g"
  shows "collector_number (gpu_get f raw) (gpu_minimum f) (gpu_maximum f) = Inr (gpu_get f g)"
proof -
  from assms obtain ms ts where ms: "etraverse (raw_field_value raw) gpu_field_list = Inr ms"
    and g: "g = sample_of_measurements index raw ms ts"
    by (auto simp: normal_sample_def ebind_Inr_iff emap_Inr_iff)
  from raw_field_values [OF ms] obtain h where "ms = map (\<lambda>f. (f, h f)) gpu_field_list"
    and "\<forall>f. collector_number (gpu_get f raw) (gpu_minimum f) (gpu_maximum f) = Inr (h f)" by blast
  then show ?thesis by (simp add: g gpu_get_measurements map_of_graph gpu_field_list_all)
qed

lemma normal_throttle_nonempty: "[] \<notin> set (normal_throttle vs)"
  by (auto simp: normal_throttle_def split: obj.splits if_splits)

lemma normal_sample_ok:
  assumes "normal_sample (index, raw) = Inr g" "0 \<le> index"
  shows "gpu_row_ok g"
proof -
  have "measurement_ok (field_minimum f) (field_maximum f) (gpu_get f g)" for f
    using collector_number_ok normal_sample_fields [OF assms(1), of f] by (simp add: gpu_limits)
  moreover have "gs_uuid g \<noteq> Some []" "[] \<notin> set (gs_throttle_reasons g)"
    using assms(1) normal_throttle_nonempty
    by (auto simp: normal_sample_def ebind_Inr_iff emap_Inr_iff sample_of_measurements_def Let_def
        normal_uuid_def split: obj.splits if_splits)
  ultimately show ?thesis
    using normal_sample_index [OF assms(1)] assms(2) by (simp add: gpu_row_ok_def list_all_iff)
qed

lemma indexed_rows_nonneg: "(index, raw) \<in> set (indexed_rows vals) \<Longrightarrow> 0 \<le> index"
  by (auto simp: indexed_rows_def raw_index_def split: option.splits obj.splits pynum.splits if_splits)

lemma set_clearjunk: "set (AList.clearjunk al) \<subseteq> set al"
  by (induction al rule: AList.clearjunk.induct) (auto simp: AList.delete_eq)

lemma reference_samples_ok:
  assumes "reference_samples vals = Inr gs"
  shows "gpu_rows_ok gs"
proof -
  let ?rows = "AList.clearjunk (indexed_rows vals)"
  from assms obtain hs where hs: "list_all2 (\<lambda>row g. normal_sample row = Inr g) ?rows hs"
    and gs: "gs = sort_key gs_index hs"
    by (auto simp: reference_samples_def emap_Inr_iff etraverse_Inr_iff)
  from hs have "map gs_index hs = map fst ?rows"
    by (induction rule: list_all2_induct) (auto dest: normal_sample_index)
  then have "distinct (map gs_index hs)" by (simp add: distinct_clearjunk)
  moreover have "mset (map gs_index gs) = mset (map gs_index hs)" by (simp add: gs)
  ultimately have "distinct (map gs_index gs)" by (metis mset_eq_imp_distinct_iff)
  then have "sorted_wrt (<) (map gs_index gs)" by (simp add: strict_sorted_iff gs)
  moreover have "gpu_row_ok g" if g: "g \<in> set gs" for g
  proof -
    from g obtain i where "i < length hs" "g = hs ! i" by (auto simp: gs in_set_conv_nth)
    with hs have row: "normal_sample (?rows ! i) = Inr g" "?rows ! i \<in> set ?rows"
      by (auto simp: list_all2_conv_all_nth)
    moreover have "?rows ! i \<in> set (indexed_rows vals)"
      using row(2) set_clearjunk by blast
    ultimately show ?thesis
      using normal_sample_ok indexed_rows_nonneg by (metis prod.collapse)
  qed
  ultimately show ?thesis by (simp add: gpu_rows_ok_def list_all_iff)
qed

section \<open>Well-formed readings pass unchanged\<close>

lemma normal_throttle_texts: "[] \<notin> set ts \<Longrightarrow> normal_throttle (map OStr ts) = ts"
  by (induction ts) (auto simp: normal_throttle_def)

lemma gpu_fields_eqI:
  fixes g h :: gpu_sample
  assumes "gs_index g = gs_index h" "gs_uuid g = gs_uuid h" "\<And>f. gpu_get f g = gpu_get f h"
    "gs_throttle_reasons g = gs_throttle_reasons h"
    "gs_throttle_reasons_available g = gs_throttle_reasons_available h"
  shows "g = h"
  using assms(1,2,4,5) assms(3) [of Utilization] assms(3) [of MemoryUtilization] assms(3) [of VramUsed]
    assms(3) [of VramTotal] assms(3) [of Temperature] assms(3) [of MemoryTemperature]
    assms(3) [of Power] assms(3) [of PowerLimit] assms(3) [of Fan] assms(3) [of CoreClock]
    assms(3) [of MemoryClock]
  by (cases g; cases h) simp

lemma normal_sample_id:
  assumes "gpu_sample_ok g"
  shows "normal_sample (gs_index g, raw_gpu_of g) = Inr g"
proof -
  have "raw_field_value (raw_gpu_of g) f = Inr (f, gpu_get f g)" for f
    using collector_number_id [OF gpu_sample_okD [OF assms, of f]]
    by (simp add: raw_field_value_def gpu_limits)
  then have ms: "etraverse (raw_field_value (raw_gpu_of g)) fs = Inr (map (\<lambda>f. (f, gpu_get f g)) fs)" for fs
    by (induction fs) auto
  have ts: "[] \<notin> set (gs_throttle_reasons g)" and uuid: "gs_uuid g \<noteq> Some []"
    using assms by (auto simp: gpu_sample_ok_def throttle_honest_def throttle_vocabulary_def)
  have "sample_of_measurements (gs_index g) (raw_gpu_of g) (map (\<lambda>f. (f, gpu_get f g)) gpu_field_list)
      (gs_throttle_reasons g) = g" (is "?h = g")
  proof (rule gpu_fields_eqI)
    show "gpu_get f ?h = gpu_get f g" for f
      by (simp add: gpu_get_measurements map_of_graph gpu_field_list_all)
  qed (use uuid in \<open>auto simp: sample_of_measurements_def Let_def raw_gpu_of_def normal_uuid_def
      obj_of_optional_def split: option.splits\<close>)
  then show ?thesis
    by (simp add: normal_sample_def ms normal_throttle_texts [OF ts])
      (simp add: raw_gpu_of_def normal_throttle_texts [OF ts])
qed

lemma reference_samples_id:
  assumes "samples_ok gs"
  shows "reference_samples (map (\<lambda>g. Some (raw_gpu_of g)) gs) = Inr gs"
proof -
  have ok: "\<forall>g \<in> set gs. gpu_sample_ok g" and sorted: "sorted_wrt (<) (map gs_index gs)"
    using assms by (auto simp: samples_ok_def list_all_iff)
  have "raw_index (gs_index (raw_gpu_of g)) = Some (gs_index g)" if "g \<in> set gs" for g
    using ok that by (auto simp: raw_index_def raw_gpu_of_def gpu_sample_ok_def)
  then have rows: "indexed_rows (map (\<lambda>g. Some (raw_gpu_of g)) gs) = map (\<lambda>g. (gs_index g, raw_gpu_of g)) gs"
    by (induction gs) (auto simp: indexed_rows_def)
  have "AList.clearjunk (map (\<lambda>g. (gs_index g, raw_gpu_of g)) gs) = map (\<lambda>g. (gs_index g, raw_gpu_of g)) gs"
    using sorted by (intro distinct_clearjunk_id) (simp add: strict_sorted_iff comp_def)
  moreover have "etraverse normal_sample (map (\<lambda>g. (gs_index g, raw_gpu_of g)) gs) = Inr gs"
    using ok by (simp add: etraverse_Inr_iff list_all2_map1 list_all2_same normal_sample_id)
  moreover have "sort_key gs_index gs = gs"
    using sorted by (intro sort_key_id_if_sorted) (simp add: strict_sorted_iff)
  ultimately show ?thesis by (simp add: reference_samples_def rows)
qed

section \<open>Diagnostics only grow\<close>

definition grows :: "reasons \<Rightarrow> reasons \<Rightarrow> bool" where
  "grows r r' \<longleftrightarrow> more_keys r r' \<and> (dict_ok r \<longrightarrow> dict_ok r')"

definition grows_snd :: "'s \<times> reasons \<Rightarrow> 's \<times> reasons \<Rightarrow> bool" where
  "grows_snd s s' \<longleftrightarrow> grows (snd s) (snd s')"

lemma grows_preorder [simp]: "reflp grows" "transp grows" "reflp grows_snd" "transp grows_snd"
  by (auto simp: grows_def grows_snd_def more_keys_def reflp_def transp_def)

lemma keeps_reading [grows_intros]: "keeps grows_snd (reading m)"
  by (auto simp: keeps_def grows_snd_def reading_def czoom_def grows_def more_keys_def split: prod.splits)

lemma keeps_noting [grows_intros]: "keeps grows m \<Longrightarrow> keeps grows_snd (noting m)"
  by (auto simp: keeps_def [of grows_snd] grows_snd_def noting_def czoom_def dest: keepsD split: prod.splits)

lemma keeps_reason [grows_intros]:
  "keeps grows (set_reason k v)" "keeps grows (setdefault_reason k v)"
  by (auto simp: keeps_def set_reason_def setdefault_reason_def cmodify_def grows_def more_keys_def)

lemma keeps_cmodify [grows_intros]: "(\<And>r. grows r (f r)) \<Longrightarrow> keeps grows (cmodify f)"
  by (simp add: keeps_def cmodify_def)

lemma keeps_cond [grows_intros]: "keeps R m \<Longrightarrow> keeps R m' \<Longrightarrow> keeps R (if b then m else m')"
  by simp

lemma keeps_set_reasons [grows_intros]: "keeps grows (set_reasons fs v)"
  by (induction fs) (auto intro!: grows_intros)

lemma keeps_mark_unsupported [grows_intros]: "keeps grows (mark_unsupported vs v)"
  by (induction vs v rule: mark_unsupported.induct) (auto intro!: grows_intros)

lemma keeps_mark_missing_text [grows_intros]: "keeps grows (mark_missing_text vs v)"
  by (induction vs v rule: mark_missing_text.induct) (auto intro!: grows_intros)

lemma grows_set: "grows r (dict_set k v r)"
  by (auto simp: grows_def more_keys_def)

lemma grows_foldl: "(\<And>d kv. grows d (f d kv)) \<Longrightarrow> grows r (foldl f r kvs)"
  by (induction kvs arbitrary: r)
    (auto intro: transpD [OF grows_preorder(2)] reflpD [OF grows_preorder(1)])

lemma grows_reported [grows_intros]:
  "grows r (live_reasons reported live r)" "grows r (static_reasons reported r)"
  unfolding live_reasons_def static_reasons_def
  by (rule grows_foldl; auto simp: grows_def more_keys_def)+

lemma grows_update [grows_intros]: "grows r (dict_update r r')"
  by (simp add: grows_def more_keys_def)

lemma keeps_measure_field [grows_intros]: "keeps grows (measure_field raw index f)"
  unfolding measure_field_def by (intro grows_intros) simp_all

lemma keeps_normalize_gpu_sample [grows_intros]: "keeps grows (normalize_gpu_sample n v d)"
  unfolding normalize_gpu_sample_def
  by (auto intro!: grows_intros split: option.splits)

lemma keeps_normalize_rows [grows_intros]: "keeps grows (normalize_gpu_rows n vals d)"
  by (induction n vals d rule: normalize_gpu_rows.induct) (auto intro!: grows_intros)

lemma keeps_cmap [grows_intros]: "transp R \<Longrightarrow> reflp R \<Longrightarrow> keeps R m \<Longrightarrow> keeps R (cmap f m)"
  unfolding cmap_def by (intro grows_intros)

lemma keeps_normalize_samples [grows_intros]: "keeps grows (normalize_gpu_samples vals)"
  unfolding normalize_gpu_samples_def by (intro grows_intros) simp_all

lemma keeps_read_boundary [grows_intros]: "keeps grows_snd (read_boundary fn v fs)"
  unfolding read_boundary_def by (auto intro!: grows_intros split: option.splits)

lemma keeps_read_number [grows_intros]: "keeps grows_snd (read_number fn f lo hi)"
  unfolding read_number_def by (intro grows_intros) simp_all

lemma keeps_read_instance [grows_intros]: "keeps grows_snd (read_instance fn b fs gs)"
  unfolding read_instance_def by (auto intro!: grows_intros split: option.splits)

lemma keeps_timestamp [grows_intros]: "keeps grows_snd (timestamp cl)"
  unfolding timestamp_def Let_def safely_def
  by (auto intro!: grows_intros keeps_safe split: option.splits)

section \<open>What is missing is explained\<close>

lemma mark_unsupported_marks:
  "mark_unsupported vs reason r = (Inr (), r') \<Longrightarrow> (f, Unsupported) \<in> set vs \<Longrightarrow> f \<in> dict_keys r'"
proof (induction vs reason arbitrary: r rule: mark_unsupported.induct)
  case (2 g v vs reason)
  let ?m = "if v = Unsupported then setdefault_reason g reason else creturn ()"
  obtain r1 where m: "?m r = (Inr (), r1)"
    by (cases "v = Unsupported") (simp_all add: comp_defs setdefault_reason_def)
  with 2 have rest: "mark_unsupported vs reason r1 = (Inr (), r')" by (simp add: cbind_def)
  show ?case
  proof (cases "(f, Unsupported) \<in> set vs")
    case False
    with 2 have "g = f" "v = Unsupported" by auto
    with m have "f \<in> dict_keys r1" by (auto simp: setdefault_reason_def cmodify_def)
    with keepsD [OF keeps_mark_unsupported rest] show ?thesis by (auto simp: grows_def more_keys_def)
  qed (use 2 rest in auto)
qed simp

definition row_explained :: "reasons \<Rightarrow> gpu_sample \<Rightarrow> bool" where
  "row_explained r g \<longleftrightarrow>
     list_all (\<lambda>f. gpu_get f g = Unsupported \<longrightarrow>
       gpu_key (gs_index g) (field_name f) \<in> dict_keys r) gpu_field_list"

lemma row_explained_grows: "grows r r' \<Longrightarrow> row_explained r g \<Longrightarrow> row_explained r' g"
  by (auto simp: row_explained_def grows_def more_keys_def list_all_iff)

lemma measure_fields_explain:
  "ctraverse (measure_field raw index) fs r = (Inr ms, r') \<Longrightarrow> (f, Unsupported) \<in> set ms \<Longrightarrow>
     gpu_key index (field_name f) \<in> dict_keys r'"
proof (induction fs arbitrary: r ms)
  case (Cons g fs)
  from Cons.prems(1) obtain m r1 ms' where m: "measure_field raw index g r = (Inr m, r1)"
    and rest: "ctraverse (measure_field raw index) fs r1 = (Inr ms', r')" and ms: "ms = m # ms'"
    by (auto simp: cbind_Inr_iff creturn_def)
  show ?case
  proof (cases "(f, Unsupported) \<in> set ms'")
    case False
    with Cons.prems(2) ms have "m = (f, Unsupported)" by auto
    with m have "gpu_key index (field_name f) \<in> dict_keys r1"
      by (auto simp: measure_field_def cbind_Inr_iff clift_def creturn_def cmodify_def setdefault_reason_def
          split: if_splits)
    moreover have k: "keeps grows (ctraverse (measure_field raw index) fs)"
      by (intro grows_intros) simp_all
    ultimately show ?thesis using keepsD [OF k rest] by (auto simp: grows_def more_keys_def)
  qed (use Cons.IH [OF rest] in blast)
qed (simp add: creturn_def)

definition rows_explained :: "(int, gpu_sample) dict \<Rightarrow> reasons \<Rightarrow> bool" where
  "rows_explained d r \<longleftrightarrow> list_all (\<lambda>(_, g). row_explained r g) d"

lemma noted_and_returned: "cbind (set_reason k v) (\<lambda>_. creturn d) r = (Inr d', r') \<Longrightarrow> d' = d"
  by (simp add: comp_defs set_reason_def)

lemma normalize_gpu_sample_Inr:
  assumes "normalize_gpu_sample n v d r = (Inr d', r')"
  obtains "d' = d"
  | raw index ms ts where "index \<notin> dict_keys d"
      "ctraverse (measure_field raw index) gpu_field_list r = (Inr ms, r')"
      "d' = dict_set index (sample_of_measurements index raw ms ts) d"
proof (cases v)
  case None
  with assms have "d' = d" by (auto simp: normalize_gpu_sample_def dest: noted_and_returned)
  with that(1) show thesis .
next
  case (Some raw)
  show thesis
  proof (cases "raw_index (gs_index raw)")
    case None
    with assms Some have "d' = d" by (auto simp: normalize_gpu_sample_def dest: noted_and_returned)
    with that(1) show thesis .
  next
    case index: (Some index)
    show thesis
    proof (cases "index \<in> dict_keys d")
      case True
      with assms Some index have "d' = d" by (auto simp: normalize_gpu_sample_def dest: noted_and_returned)
      with that(1) show thesis .
    next
      case False
      with assms Some index show thesis
        by (auto simp: normalize_gpu_sample_def cbind_Inr_iff clift_def creturn_def
            intro: that(2) [OF False])
    qed
  qed
qed

lemma normalize_sample_explains:
  assumes "normalize_gpu_sample n v d r = (Inr d', r')" "rows_explained d r"
  shows "rows_explained d' r'"
proof -
  have mono: "grows r r'"
    using keepsD [OF keeps_normalize_gpu_sample assms(1)] .
  then have old: "rows_explained d r'"
    using assms(2) row_explained_grows by (auto simp: rows_explained_def list_all_iff)
  from assms(1) show ?thesis
  proof (cases rule: normalize_gpu_sample_Inr)
    case (2 raw index ms ts)
    have "etraverse (raw_field_value raw) gpu_field_list = Inr ms"
      using fst_measure_fields [of raw index gpu_field_list r] 2(2) by simp
    from raw_field_values [OF this] obtain h where ms: "ms = map (\<lambda>f. (f, h f)) gpu_field_list"
      by blast
    have "gpu_key index (field_name f) \<in> dict_keys r'" if "h f = Unsupported" for f
      using measure_fields_explain [OF 2(2), of f] that gpu_field_list_all by (force simp: ms)
    then have "row_explained r' (sample_of_measurements index raw ms ts)"
      by (simp add: row_explained_def list_all_iff gpu_get_measurements ms map_of_graph)
    with old 2 show ?thesis by (simp add: rows_explained_def dict_set_fresh)
  qed (use old in simp)
qed

lemma normalize_rows_explain:
  "normalize_gpu_rows n vals d r = (Inr d', r') \<Longrightarrow> rows_explained d r \<Longrightarrow> rows_explained d' r'"
proof (induction n vals d arbitrary: r rule: normalize_gpu_rows.induct)
  case (2 n v vs d)
  from 2(2) obtain d1 r1 where "normalize_gpu_sample n v d r = (Inr d1, r1)"
    "normalize_gpu_rows (Suc n) vs d1 r1 = (Inr d', r')"
    by (auto simp: cbind_Inr_iff)
  with 2(1,3) normalize_sample_explains show ?case by blast
qed (simp add: creturn_def)

lemma normalize_samples_explain:
  assumes "normalize_gpu_samples vals r = (Inr gs, r')"
  shows "list_all (row_explained r') gs"
proof -
  from assms obtain d where d: "normalize_gpu_rows 0 vals [] r = (Inr d, r')"
    and gs: "gs = map snd (dict_sorted d)"
    by (auto simp: normalize_gpu_samples_def cmap_def cbind_Inr_iff creturn_def)
  from normalize_rows_explain [OF d] gs show ?thesis
    by (auto simp: rows_explained_def list_all_iff dict_sorted_def)
qed

section \<open>Complete snapshots\<close>

text \<open>The nine live fields of a snapshot with their limits.\<close>

definition live_table :: "snapshot \<Rightarrow> (string \<times> pyfloat \<times> pyfloat option \<times> measurement) list" where
  "live_table s =
     [(''cpu_percent'', Fin 0, Some (Fin 100), ts_cpu_percent s),
      (''load_average_1m'', Fin 0, None, ts_load_average_1m s),
      (''ram_used_bytes'', Fin 0, None, ts_ram_used_bytes s),
      (''ram_available_bytes'', Fin 0, None, ts_ram_available_bytes s),
      (''ram_total_bytes'', Fin 0, None, ts_ram_total_bytes s),
      (''cpu_temperature_c'', absolute_zero, None, ts_cpu_temperature_c s),
      (''disk_read_bytes_per_sec'', Fin 0, None, ts_disk_read_bytes_per_sec s),
      (''disk_write_bytes_per_sec'', Fin 0, None, ts_disk_write_bytes_per_sec s),
      (''process_rss_bytes'', Fin 0, None, ts_process_rss_bytes s)]"

definition utc_time :: "datetime \<Rightarrow> bool" where
  "utc_time t \<longleftrightarrow> tz_offset t = Some (Inr (Some 0))"

text \<open>
  Every number is in range or unsupported, every unsupported field and an absent GPU have a reason,
  the devices are in ascending order, and the diagnostics are sorted with distinct keys.
\<close>

definition snapshot_complete :: "snapshot \<Rightarrow> bool" where
  "snapshot_complete s \<longleftrightarrow>
     list_all (\<lambda>(f, lo, hi, m). measurement_ok lo hi m \<and> (m = Unsupported \<longrightarrow> f \<in> dict_keys (ts_reasons s)))
       (live_table s)
     \<and> gpu_rows_ok (ts_gpus s) \<and> list_all (row_explained (ts_reasons s)) (ts_gpus s)
     \<and> (ts_gpus s = [] \<longrightarrow> ''gpu'' \<in> dict_keys (ts_reasons s))
     \<and> sorted_wrt (<) (map fst (ts_reasons s))"

lemma astimezone_utc_utc: "astimezone_utc local_offset t = Inr u \<Longrightarrow> utc_time u"
  by (auto simp: astimezone_utc_def ebind_Inr_iff Let_def utc_time_def utc_instant_def split: if_splits)

lemma fallback_instant_utc [simp]: "utc_time fallback_instant"
  by (simp add: fallback_instant_def utc_instant_def utc_time_def)

text \<open>Every normal result of a computation satisfies a predicate.\<close>

definition returns :: "('a \<Rightarrow> bool) \<Rightarrow> ('s, 'a) comp \<Rightarrow> bool" where
  "returns P m \<longleftrightarrow> (\<forall>s x s'. m s = (Inr x, s') \<longrightarrow> P x)"

lemma returnsD: "returns P m \<Longrightarrow> m s = (Inr x, s') \<Longrightarrow> P x"
  by (auto simp: returns_def)

lemma returns_then: "returns Q m \<Longrightarrow> (\<And>x. Q x \<Longrightarrow> returns P (f x)) \<Longrightarrow> returns P (cbind m f)"
  unfolding returns_def cbind_Inr_iff by blast

lemma returns_bind: "(\<And>x. returns P (f x)) \<Longrightarrow> returns P (cbind m f)"
  by (auto simp: returns_def cbind_Inr_iff)

lemma returns_pure: "P x \<Longrightarrow> returns P (creturn x)" "(\<And>x. r = Inr x \<Longrightarrow> P x) \<Longrightarrow> returns P (clift r)"
  by (auto simp: returns_def creturn_def clift_def)

lemma returns_safe: "returns P m \<Longrightarrow> P d \<Longrightarrow> returns P (safe m d)"
  by (auto simp: returns_def safe_eq safe_result_def split: prod.splits sum.splits if_splits)

lemma returns_cmap: "returns (\<lambda>x. P (f x)) m \<Longrightarrow> returns P (cmap f m)"
  by (auto simp: returns_def cmap_def cbind_Inr_iff creturn_def)

lemma returns_reading: "returns P m \<Longrightarrow> returns P (reading m)"
  by (auto simp: returns_def reading_def czoom_def split: prod.splits)

lemmas returns_intros = returns_pure returns_safe returns_cmap returns_reading

lemma fallback_timestamp_utc: "returns utc_time (fallback_timestamp cl)"
  unfolding fallback_timestamp_def
  by (rule returns_bind) (auto intro!: returns_intros dest: astimezone_utc_utc split: option.split)

lemma reading_Inr: "reading m s = (Inr x, s') \<Longrightarrow> \<exists>w'. m (fst s) = (Inr x, w')"
  by (cases s) (auto simp: reading_def czoom_def split: prod.splits)

lemma noting_Inr: "noting m s = (Inr x, s') \<Longrightarrow> m (snd s) = (Inr x, snd s')"
  by (cases s) (auto simp: noting_def czoom_def split: prod.splits)

lemma timestamp_utc: "returns utc_time (timestamp cl)"
proof -
  let ?invalid = "cbind (noting (set_reason ''timestamp'' ''invalid_clock'')) (\<lambda>_. reading (fallback_timestamp cl))"
  have invalid: "returns utc_time ?invalid"
    by (intro returns_bind returns_intros fallback_timestamp_utc)
  have conv: "returns (\<lambda>c. \<forall>u. c = Some u \<longrightarrow> utc_time u) (safely (clift (astimezone_utc loc x)))" for loc x
    unfolding safely_def by (intro returns_intros) (auto intro: astimezone_utc_utc)
  have some: "returns utc_time
      (cbind (clift (safe_result offset None)) (\<lambda>known.
         if known = None then ?invalid
         else cbind (safely (clift (astimezone_utc loc x)))
           (\<lambda>converted. case converted of None \<Rightarrow> ?invalid | Some u \<Rightarrow> creturn u)))" for loc x offset
    by (rule returns_bind)
      (auto intro!: invalid returns_then [OF conv] returns_pure split: option.split)
  show ?thesis
    unfolding timestamp_def Let_def
    by (rule returns_bind) (auto simp: invalid some split: option.split)
qed

lemma read_number_ok:
  assumes "read_number fn f lo hi s = (Inr m, s')" "lo \<noteq> NaN" "hi \<noteq> Some NaN"
  shows "measurement_ok lo hi m"
  using assms by (auto simp: read_number_def cbind_Inr_iff clift_def intro: collector_number_ok)

lemma nonneg_number_ok: "nonneg_number v = Inr m \<Longrightarrow> measurement_ok (Fin 0) None m"
  unfolding nonneg_number_def by (rule collector_number_ok) simp_all

lemma sorted_reasons: "dict_ok r \<Longrightarrow> sorted_wrt (<) (map fst (dict_sorted r))"
  by (simp add: dict_sorted_keys)

lemma record_diagnostics_marks:
  assumes "record_diagnostics cl live gpus st = (Inr r, st')"
  shows "grows (snd st) r \<and> (\<forall>f. (f, Unsupported) \<in> set live \<longrightarrow> f \<in> dict_keys r)
    \<and> (gpus = [] \<longrightarrow> ''gpu'' \<in> dict_keys r)"
proof -
  from assms obtain s1 hs s2 s3 gr s4 s5 where
    mark: "noting (mark_unsupported live ''sensor_unsupported'') st = (Inr (), s1)"
    and host: "reading (reader_reasons (hr_unavailable_reasons (cl_host cl))) s1 = (Inr hs, s2)"
    and live: "noting (cmodify (live_reasons hs (map fst live))) s2 = (Inr (), s3)"
    and gpu: "reading (reader_reasons (gr_unavailable_reasons (cl_gpu cl))) s3 = (Inr gr, s4)"
    and upd: "noting (cmodify (\<lambda>r. dict_update r gr)) s4 = (Inr (), s5)"
    and none: "(if gpus = [] then noting (setdefault_reason ''gpu'' ''no_gpus'') else creturn ()) s5 = (Inr (), st')"
    and r: "r = snd st'"
    by (auto simp: record_diagnostics_def cbind_Inr_iff cgets_def)
  have g: "grows_snd st s1" "grows_snd s1 s2" "grows_snd s2 s3" "grows_snd s3 s4" "grows_snd s4 s5"
    by (rule keepsD [OF keeps_noting [OF keeps_mark_unsupported] mark] keepsD [OF keeps_reading host]
        keepsD [OF keeps_noting [OF keeps_cmodify [OF grows_reported(1)]] live]
        keepsD [OF keeps_reading gpu] keepsD [OF keeps_noting [OF keeps_cmodify [OF grows_update]] upd])+
  have "grows_snd s5 st'"
    by (rule keepsD [OF keeps_cond [OF keeps_noting [OF keeps_reason(2)] keeps_pure(1) [OF grows_preorder(3)]] none])
  note tr = transpD [OF grows_preorder(4)]
  with g \<open>grows_snd s5 st'\<close> have from1: "grows_snd s1 st'" by (blast intro: tr)
  have "f \<in> dict_keys r" if "(f, Unsupported) \<in> set live" for f
    using mark_unsupported_marks [OF noting_Inr [OF mark] that] from1 r
    by (auto simp: grows_snd_def grows_def more_keys_def)
  moreover have "gpus = [] \<Longrightarrow> ''gpu'' \<in> dict_keys r"
    using none r by (auto simp: noting_def czoom_def setdefault_reason_def cmodify_def split: prod.splits)
  moreover have "grows (snd st) r" using tr [OF g(1) from1] by (simp add: grows_snd_def r)
  ultimately show ?thesis by blast
qed

text \<open>The numbers that enter the assembly, and the diagnostics of the GPU rows.\<close>

lemma assemble_snapshot_complete:
  assumes run: "assemble_snapshot cl t cpu load memory temperature disk rss gpus st = (Inr s, st')"
    and numbers: "measurement_ok (Fin 0) (Some (Fin 100)) cpu" "measurement_ok (Fin 0) None load"
      "measurement_ok absolute_zero None temperature" "measurement_ok (Fin 0) None rss"
    and rows: "gpu_rows_ok gpus" "list_all (row_explained (snd st)) gpus" and d: "dict_ok (snd st)"
  shows "snapshot_complete s \<and> ts_timestamp s = t \<and> ts_gpus s = gpus \<and> dict_ok (ts_reasons s)"
proof -
  from run obtain used avail total_bytes reads writes r where
    n: "nonneg_number (mr_used_bytes memory) = Inr used"
      "nonneg_number (mr_available_bytes memory) = Inr avail"
      "nonneg_number (mr_total_bytes memory) = Inr total_bytes"
      "nonneg_number (dt_read_bytes_per_sec disk) = Inr reads"
      "nonneg_number (dt_write_bytes_per_sec disk) = Inr writes"
    and diag: "record_diagnostics cl [(''cpu_percent'', cpu), (''load_average_1m'', load),
      (''ram_used_bytes'', used), (''ram_available_bytes'', avail), (''ram_total_bytes'', total_bytes),
      (''cpu_temperature_c'', temperature), (''disk_read_bytes_per_sec'', reads),
      (''disk_write_bytes_per_sec'', writes), (''process_rss_bytes'', rss)] gpus st = (Inr r, st')"
    and s: "s = \<lparr>ts_timestamp = t, ts_cpu_percent = cpu, ts_load_average_1m = load,
        ts_ram_used_bytes = used, ts_ram_available_bytes = avail, ts_ram_total_bytes = total_bytes,
        ts_cpu_temperature_c = temperature, ts_disk_read_bytes_per_sec = reads,
        ts_disk_write_bytes_per_sec = writes, ts_process_rss_bytes = rss, ts_gpus = gpus,
        ts_reasons = dict_sorted r\<rparr>"
    by (auto simp: assemble_snapshot_def cbind_Inr_iff clift_def make_snapshot_Inr)
  note marks = record_diagnostics_marks [OF diag]
  have ok: "dict_ok r" using marks d by (simp add: grows_def)
  have "list_all (row_explained r) gpus"
    using rows(2) row_explained_grows marks by (auto simp: list_all_iff)
  moreover have "dict_ok (dict_sorted r)"
    using sorted_reasons [OF ok] by (simp add: dict_ok_def strict_sorted_iff)
  moreover have "row_explained (dict_sorted r) = row_explained r"
    by (simp add: row_explained_def fun_eq_iff)
  moreover have "list_all (\<lambda>(f, lo, hi, m). measurement_ok lo hi m
      \<and> (m = Unsupported \<longrightarrow> f \<in> dict_keys (ts_reasons s))) (live_table s)"
    using marks numbers n [THEN nonneg_number_ok] by (auto simp: live_table_def s)
  ultimately show ?thesis
    using rows marks sorted_reasons [OF ok] by (simp add: snapshot_complete_def s)
qed

lemma collect_snapshot_complete:
  assumes "collect_snapshot cl (w, []) = (Inr s, st')"
  shows "snapshot_complete s \<and> utc_time (ts_timestamp s) \<and> dict_ok (ts_reasons s)"
proof -
  from assms obtain t s1 cpu s2 load s3 memory s4 temperature s5 disk s6 rss s7 vals s8 gpus s9 where
    t: "timestamp cl (w, []) = (Inr t, s1)"
    and cpu: "read_number (hr_cpu_percent (cl_host cl)) ''cpu_percent'' (Fin 0) (Some (Fin 100)) s1 = (Inr cpu, s2)"
    and load: "read_number (hr_load_average_1m (cl_host cl)) ''load_average_1m'' (Fin 0) None s2 = (Inr load, s3)"
    and memory: "read_instance (hr_memory (cl_host cl)) blank_memory ram_fields ram_fields s3 = (Inr memory, s4)"
    and temperature: "read_number (hr_cpu_temperature (cl_host cl)) ''cpu_temperature_c'' absolute_zero None s4 =
      (Inr temperature, s5)"
    and disk: "read_instance (hr_disk_throughput (cl_host cl)) blank_disk disk_fields disk_fields s5 = (Inr disk, s6)"
    and rss: "read_number (hr_process_rss_bytes (cl_host cl)) ''process_rss_bytes'' (Fin 0) None s6 = (Inr rss, s7)"
    and vals: "read_boundary (gr_sample (cl_gpu cl)) [] [''gpu''] s7 = (Inr vals, s8)"
    and gpus: "noting (normalize_gpu_samples vals) s8 = (Inr gpus, s9)"
    and last: "assemble_snapshot cl t cpu load memory temperature disk rss gpus s9 = (Inr s, st')"
    unfolding collect_snapshot_def cbind_Inr_iff by (elim exE conjE) (rule that)
  note transpD [OF grows_preorder(4), trans]
  note keepsD [OF keeps_timestamp t]
  also note keepsD [OF keeps_read_number cpu]
  also note keepsD [OF keeps_read_number load]
  also note keepsD [OF keeps_read_instance memory]
  also note keepsD [OF keeps_read_number temperature]
  also note keepsD [OF keeps_read_instance disk]
  also note keepsD [OF keeps_read_number rss]
  also note keepsD [OF keeps_read_boundary vals]
  also note keepsD [OF keeps_noting [OF keeps_normalize_samples] gpus]
  finally have "grows_snd (w, []) s9" .
  then have d: "dict_ok (snd s9)" by (simp add: grows_snd_def grows_def)
  have "reference_samples vals = Inr gpus"
    using noting_Inr [OF gpus] normalize_samples_reference [of vals "snd s8"] by simp
  then have "gpu_rows_ok gpus" by (rule reference_samples_ok)
  from assemble_snapshot_complete [OF last _ _ _ _ this normalize_samples_explain [OF noting_Inr [OF gpus]] d]
    read_number_ok [OF cpu] read_number_ok [OF load] read_number_ok [OF temperature] read_number_ok [OF rss]
  show ?thesis using returnsD [OF timestamp_utc t] by simp
qed

section \<open>The public operations never fail\<close>

lemma dict_update_fresh:
  "dict_ok d' \<Longrightarrow> dict_keys d \<inter> dict_keys d' = {} \<Longrightarrow> dict_update d d' = d @ d'"
proof (induction d' arbitrary: d)
  case (Cons kv d')
  obtain k v where kv: "kv = (k, v)" by (cases kv)
  have "k \<notin> dict_keys d" using Cons.prems(2) by (auto simp: kv dict_keys_def)
  moreover have "dict_ok d'" "dict_keys (d @ [(k, v)]) \<inter> dict_keys d' = {}"
    using Cons.prems by (auto simp: kv dict_ok_def dict_keys_def)
  ultimately show ?case
    using Cons.IH [of "d @ [(k, v)]"] by (simp add: kv dict_update_def dict_set_fresh)
qed (simp add: dict_update_def)

lemma dict_copy: "dict_ok d \<Longrightarrow> dict_update [] d = d"
  by (simp add: dict_update_fresh dict_keys_def)

lemma contained_on_machine: "contained m \<Longrightarrow> contained (on_machine m)"
  by (auto simp: contained_def on_machine_def czoom_def split: prod.splits)

lemma contained_fallback: "contained (fallback_timestamp cl)"
  unfolding fallback_timestamp_def by (intro contained_intros) (auto intro!: contained_intros split: option.split)

lemma contained_interrupt:
  "contained m \<Longrightarrow> m s = (Inl e, s') \<Longrightarrow> e = KeyboardInterrupt \<or> e = SystemExit"
  by (auto simp: contained_def ordinary_def)

lemma on_machine_Inr: "on_machine m st = (Inr x, st') \<Longrightarrow> \<exists>w'. m (co_world st) = (Inr x, w')"
  by (auto simp: on_machine_def czoom_def split: prod.splits)

lemma safely_Some: "safely m w = (Inr (Some x), w') \<Longrightarrow> m w = (Inr x, w')"
  by (auto simp: safely_def safe_eq cmap_def cbind_def creturn_def safe_result_def
      split: prod.splits sum.splits if_splits)

definition snapshot_promise :: "snapshot \<Rightarrow> bool" where
  "snapshot_promise s \<longleftrightarrow>
     utc_time (ts_timestamp s) \<and> (snapshot_complete s \<or> s = failed_snapshot (ts_timestamp s))
     \<and> dict_ok (ts_reasons s)"

lemma make_failed: "utc_time t \<Longrightarrow> make_snapshot (failed_snapshot t) = Inr (failed_snapshot t)"
  by (simp add: make_snapshot_def failed_snapshot_def utc_time_def)

lemma failed_promise: "utc_time t \<Longrightarrow> snapshot_promise (failed_snapshot t)"
  by (simp add: snapshot_promise_def failed_snapshot_def dict_ok_def)

lemma failure_snapshot_Inr:
  assumes "failure_snapshot cl st = (Inr s, st')"
  shows "snapshot_promise s"
proof -
  from assms obtain t s1 where "on_machine (fallback_timestamp cl) st = (Inr t, s1)"
    and s: "make_snapshot (failed_snapshot t) = Inr s"
    by (auto simp: failure_snapshot_def cbind_Inr_iff clift_def)
  then have "utc_time t" by (auto dest!: on_machine_Inr dest: returnsD [OF fallback_timestamp_utc])
  with s failed_promise [of t] show ?thesis by (simp add: make_failed)
qed

lemma contained_failure: "contained (failure_snapshot cl)"
  unfolding contained_def
proof (intro allI impI)
  fix st e st'
  assume "failure_snapshot cl st = (Inl e, st')"
  then consider "on_machine (fallback_timestamp cl) st = (Inl e, st')"
    | t s' where "on_machine (fallback_timestamp cl) st = (Inr t, s')" "make_snapshot (failed_snapshot t) = Inl e"
    by (auto simp: failure_snapshot_def cbind_Inl_iff clift_def)
  then show "\<not> ordinary e"
  proof cases
    case 1
    with contained_on_machine [OF contained_fallback] show ?thesis by (auto simp: contained_def)
  next
    case 2
    with make_failed on_machine_Inr returnsD [OF fallback_timestamp_utc] show ?thesis by fastforce
  qed
qed

lemma contained_take_snapshot: "contained (take_snapshot cl)"
  unfolding take_snapshot_def safely_def
  by (intro contained_bind contained_on_machine contained_safe contained_pure)
    (auto intro!: contained_pure contained_failure split: option.split)

lemma take_snapshot_Inr:
  assumes "take_snapshot cl st = (Inr s, st')"
  shows "snapshot_promise s \<and> co_reasons st' = ts_reasons s"
proof -
  from assms obtain collected s1 s2 where
    c: "on_machine (safely (with_fresh_reasons (collect_snapshot cl))) st = (Inr collected, s1)"
    and s: "(case collected of Some s \<Rightarrow> creturn s | None \<Rightarrow> failure_snapshot cl) s1 = (Inr s, s2)"
    and st': "st' = s2\<lparr>co_reasons := snapshot_unavailable_reasons s\<rparr>"
    unfolding take_snapshot_def cbind_Inr_iff cmodify_def by (auto simp: creturn_def)
  have "snapshot_promise s"
  proof (cases collected)
    case None
    with s show ?thesis by (auto intro: failure_snapshot_Inr)
  next
    case (Some x)
    with s have "collected = Some s" by (simp add: creturn_def)
    with on_machine_Inr [OF c] obtain w1 where
      "with_fresh_reasons (collect_snapshot cl) (co_world st) = (Inr s, w1)"
      by (auto dest: safely_Some)
    then obtain r where "collect_snapshot cl (co_world st, []) = (Inr s, (w1, r))"
      by (auto simp: with_fresh_reasons_def split: prod.splits)
    from collect_snapshot_complete [OF this] show ?thesis by (simp add: snapshot_promise_def)
  qed
  then show ?thesis by (simp add: st' snapshot_unavailable_reasons_def dict_copy snapshot_promise_def)
qed

text \<open>
  C17: taking a snapshot never fails for an ordinary reason, whatever the readers and the clock do.
  It returns an observation in UTC that is either complete (every number finite and in its range,
  devices in ascending order, a reason for everything missing) or the marked failure in which
  everything is unsupported, and the collector's diagnostics afterwards are the snapshot's.
\<close>

theorem take_snapshot_total:
  "case take_snapshot cl st of
     (Inl e, _) \<Rightarrow> e = KeyboardInterrupt \<or> e = SystemExit
   | (Inr s, st') \<Rightarrow>
       utc_time (ts_timestamp s)
       \<and> (snapshot_complete s \<or> s = failed_snapshot (ts_timestamp s))
       \<and> collector_unavailable_reasons st' = ts_reasons s"
proof -
  obtain x st' where run: "take_snapshot cl st = (x, st')" by (cases "take_snapshot cl st")
  show ?thesis
  proof (cases x)
    case (Inl e)
    with contained_interrupt [OF contained_take_snapshot] run show ?thesis by auto
  next
    case (Inr s)
    with take_snapshot_Inr [of cl st s st'] run show ?thesis
      by (auto simp: snapshot_promise_def collector_unavailable_reasons_def)
  qed
qed

text \<open>
  C19: normalization is the reference. Whatever objects a GPU reader returns, the rows that remain
  are the first of each valid index, each converted on its own and sorted by index; a row that
  cannot be converted fails the normalization with the error of the first such row.
\<close>

theorem normalize_gpu_samples_reference:
  "fst (normalize_gpu_samples vals r) = reference_samples vals"
  by (rule normalize_samples_reference)

text \<open>
  C20: a reader's well-formed samples pass the collector unchanged: normalization drops, reorders and
  rewrites nothing of a reading that keeps the readers' contract.
\<close>

theorem conforming_samples_unchanged:
  assumes "samples_ok gs"
  shows "fst (normalize_gpu_samples (map (\<lambda>g. Some (raw_gpu_of g)) gs) r) = Inr gs"
  by (simp add: normalize_samples_reference reference_samples_id [OF assms])

lemma bare_samples_ok: "samples_ok [bare_sample 0, bare_sample 2]"
  by (simp add: samples_ok_def gpu_sample_ok_def bare_sample_def throttle_honest_def gpu_field_list_def)

theorem conforming_samples_unchanged_witness:
  "samples_ok [bare_sample 0, bare_sample 2]
   \<and> fst (normalize_gpu_samples [Some (raw_gpu_of (bare_sample 0)), Some (raw_gpu_of (bare_sample 2))] []) =
       Inr [bare_sample 0, bare_sample 2]"
  using bare_samples_ok conforming_samples_unchanged [OF bare_samples_ok, of "[]"] by simp

section \<open>Collecting from a reader that keeps the contract\<close>

lemma read_boundary_Inr:
  assumes "read_boundary fn d fs s = (Inr v, s')"
  shows "v = d \<or> (\<exists>w w'. fn w = (Inr v, w'))"
proof -
  from assms obtain x s1 where x: "reading (safely fn) s = (Inr x, s1)"
    and v: "(case x of None \<Rightarrow> cbind (noting (set_reasons fs ''reader_error'')) (\<lambda>_. creturn d)
       | Some v \<Rightarrow> creturn v) s1 = (Inr v, s')"
    by (auto simp: read_boundary_def cbind_Inr_iff)
  show ?thesis
  proof (cases x)
    case None
    with v show ?thesis by (auto simp: cbind_Inr_iff creturn_def)
  next
    case (Some y)
    with v have "x = Some v" by (simp add: creturn_def)
    with reading_Inr [OF x] show ?thesis by (auto dest: safely_Some)
  qed
qed

lemma collected_gpus:
  assumes "collect_snapshot cl (w, []) = (Inr s, st')"
  obtains vals where "reference_samples vals = Inr (ts_gpus s)"
    "vals = [] \<or> (\<exists>w1 w2. gr_sample (cl_gpu cl) w1 = (Inr vals, w2))"
proof -
  from assms obtain t s1 cpu s2 load s3 memory s4 temperature s5 disk s6 rss s7 vals s8 gpus s9 where
    "timestamp cl (w, []) = (Inr t, s1)"
    "read_number (hr_cpu_percent (cl_host cl)) ''cpu_percent'' (Fin 0) (Some (Fin 100)) s1 = (Inr cpu, s2)"
    "read_number (hr_load_average_1m (cl_host cl)) ''load_average_1m'' (Fin 0) None s2 = (Inr load, s3)"
    "read_instance (hr_memory (cl_host cl)) blank_memory ram_fields ram_fields s3 = (Inr memory, s4)"
    "read_number (hr_cpu_temperature (cl_host cl)) ''cpu_temperature_c'' absolute_zero None s4 =
      (Inr temperature, s5)"
    "read_instance (hr_disk_throughput (cl_host cl)) blank_disk disk_fields disk_fields s5 = (Inr disk, s6)"
    "read_number (hr_process_rss_bytes (cl_host cl)) ''process_rss_bytes'' (Fin 0) None s6 = (Inr rss, s7)"
    and vals: "read_boundary (gr_sample (cl_gpu cl)) [] [''gpu''] s7 = (Inr vals, s8)"
    and gpus: "noting (normalize_gpu_samples vals) s8 = (Inr gpus, s9)"
    and last: "assemble_snapshot cl t cpu load memory temperature disk rss gpus s9 = (Inr s, st')"
    unfolding collect_snapshot_def cbind_Inr_iff by (elim exE conjE) (rule that)
  have "reference_samples vals = Inr gpus"
    using noting_Inr [OF gpus] normalize_samples_reference [of vals "snd s8"] by simp
  moreover have "ts_gpus s = gpus"
    using last by (auto simp: assemble_snapshot_def cbind_Inr_iff clift_def make_snapshot_Inr)
  ultimately show thesis using that read_boundary_Inr [OF vals] by metis
qed

lemma take_snapshot_cases:
  assumes "take_snapshot cl st = (Inr s, st')"
  obtains w r where "collect_snapshot cl (co_world st, []) = (Inr s, (w, r))"
  | "s = failed_snapshot (ts_timestamp s)"
proof -
  from assms obtain collected s1 s2 where
    c: "on_machine (safely (with_fresh_reasons (collect_snapshot cl))) st = (Inr collected, s1)"
    and s: "(case collected of Some s \<Rightarrow> creturn s | None \<Rightarrow> failure_snapshot cl) s1 = (Inr s, s2)"
    unfolding take_snapshot_def cbind_Inr_iff cmodify_def by (auto simp: creturn_def)
  show thesis
  proof (cases collected)
    case None
    with s have "s = failed_snapshot (ts_timestamp s)"
      by (auto simp: failure_snapshot_def cbind_Inr_iff clift_def make_snapshot_Inr failed_snapshot_def)
    then show thesis by (rule that(2))
  next
    case (Some x)
    with s have "collected = Some s" by (simp add: creturn_def)
    with on_machine_Inr [OF c] obtain w1 where
      "with_fresh_reasons (collect_snapshot cl) (co_world st) = (Inr s, w1)"
      by (auto dest: safely_Some)
    then show thesis using that(1) by (auto simp: with_fresh_reasons_def split: prod.splits)
  qed
qed

context gpu_reader
begin

text \<open>Under the collector the contract of the reader reaches the snapshot.\<close>

lemma snapshot_conforms:
  assumes usable: "\<And>s. usable s"
    and reader: "gr_sample (cl_gpu cl) = cmap (map (\<lambda>g. Some (raw_gpu_of g))) sample"
    and run: "take_snapshot cl st = (Inr s, st')"
  shows "samples_ok (ts_gpus s)"
  using run
proof (cases rule: take_snapshot_cases)
  case (1 w r)
  from collected_gpus [OF this] obtain vals where vals: "reference_samples vals = Inr (ts_gpus s)"
    and from_reader: "vals = [] \<or> (\<exists>w1 w2. gr_sample (cl_gpu cl) w1 = (Inr vals, w2))" .
  show ?thesis
  proof (cases "vals = []")
    case True
    with reference_samples_id [of "[]"] vals show ?thesis by (simp add: samples_ok_def)
  next
    case False
    with from_reader obtain gs w1 w2 where "sample w1 = (Inr gs, w2)"
      and v: "vals = map (\<lambda>g. Some (raw_gpu_of g)) gs"
      by (auto simp: reader cmap_def cbind_Inr_iff creturn_def)
    with sample_ok usable have "samples_ok gs" by blast
    with reference_samples_id [OF this] vals v show ?thesis by simp
  qed
next
  case 2
  then have "ts_gpus s = []" by (metis failed_snapshot_def snapshot.select_convs(11))
  then show ?thesis by (simp add: samples_ok_def)
qed

end

text \<open>
  C21: with either NVIDIA backend the GPU part of every snapshot keeps the backends' own contract:
  ascending devices, values in range, and throttle reasons from the common vocabulary that are empty
  while the driver cannot tell.
\<close>

theorem snapshot_gpus_conform:
  "(case take_snapshot (cl\<lparr>cl_gpu := smi_reader cfg\<rparr>) st of
      (Inr s, _) \<Rightarrow> samples_ok (ts_gpus s) | _ \<Rightarrow> True)
   \<and> (case take_snapshot (cl'\<lparr>cl_gpu := nvml_reader env\<rparr>) st' of
      (Inr s, _) \<Rightarrow> samples_ok (ts_gpus s) | _ \<Rightarrow> True)"
proof -
  have "samples_ok (ts_gpus s)" if "take_snapshot (cl\<lparr>cl_gpu := smi_reader cfg\<rparr>) st = (Inr s, t)" for s t
    using smi.snapshot_conforms [of "cl\<lparr>cl_gpu := smi_reader cfg\<rparr>" cfg, OF TrueI _ that]
    by (simp add: smi_reader_def gpu_operations_of_def)
  moreover have "samples_ok (ts_gpus s)"
    if "take_snapshot (cl'\<lparr>cl_gpu := nvml_reader env\<rparr>) st' = (Inr s, t)" for s t
    using nvml.snapshot_conforms [of "cl'\<lparr>cl_gpu := nvml_reader env\<rparr>" env, OF TrueI _ that]
    by (simp add: nvml_reader_def gpu_operations_of_def)
  ultimately show ?thesis by (auto split: prod.split sum.split)
qed

section \<open>Isolation of a fault\<close>

text \<open>
  Two collections that start in the same world run \<open>alike\<close>: when the first returns, so does
  the second, in the same world and with a related value. The local reasons may differ, since no
  value and no call depends on them.
\<close>

definition alike :: "('a \<Rightarrow> 'b \<Rightarrow> bool) \<Rightarrow> ('s, 'a) collecting \<Rightarrow> ('s, 'b) collecting \<Rightarrow> bool" where
  "alike Q m m' \<longleftrightarrow>
     (\<forall>w r r' x w1 r1. m (w, r) = (Inr x, (w1, r1)) \<longrightarrow>
        (\<exists>y r1'. m' (w, r') = (Inr y, (w1, r1')) \<and> Q x y))"

lemma alikeD:
  "alike Q m m' \<Longrightarrow> m (w, r) = (Inr x, (w1, r1)) \<Longrightarrow> \<exists>y r1'. m' (w, r') = (Inr y, (w1, r1')) \<and> Q x y"
  unfolding alike_def by blast

lemma alike_bind:
  assumes "alike Q m m'" and "\<And>x y. Q x y \<Longrightarrow> alike S (f x) (g y)"
  shows "alike S (cbind m f) (cbind m' g)"
  unfolding alike_def
proof (intro allI impI)
  fix w r r' z w2 r2
  assume "cbind m f (w, r) = (Inr z, (w2, r2))"
  then obtain x w1 r1 where m: "m (w, r) = (Inr x, (w1, r1))" and f: "f x (w1, r1) = (Inr z, (w2, r2))"
    by (auto simp: cbind_Inr_iff)
  from alikeD [OF assms(1) m] obtain y r1' where m': "m' (w, r') = (Inr y, (w1, r1'))" and "Q x y" by blast
  from alikeD [OF assms(2) [OF this(2)] f] obtain u r2' where "g y (w1, r1') = (Inr u, (w2, r2'))" "S z u" by blast
  with m' show "\<exists>y r1'. cbind m' g (w, r') = (Inr y, (w2, r1')) \<and> S z y"
    by (auto simp: cbind_def)
qed

lemma alike_reading: "alike (=) (reading m) (reading m)"
  by (auto simp: alike_def reading_def czoom_def split: prod.splits)

lemma alike_noting:
  assumes "\<And>r r'. fst (m r) = fst (m r')"
  shows "alike (=) (noting m) (noting m)"
  unfolding alike_def
proof (intro allI impI)
  fix w r r' x w1 r1
  assume "noting m (w, r) = (Inr x, (w1, r1))"
  then have "fst (m r) = Inr x" "w1 = w" by (auto simp: noting_def czoom_def split: prod.splits)
  with assms [of r r'] show "\<exists>y r1'. noting m (w, r') = (Inr y, (w1, r1')) \<and> x = y"
    by (cases "m r'") (auto simp: noting_def czoom_def)
qed

lemma alike_pure:
  "Q x y \<Longrightarrow> alike Q (creturn x) (creturn y)" "alike (=) (clift r) (clift r)" "alike (\<lambda>_ _. True) (cgets f) (cgets g)"
  by (auto simp: alike_def creturn_def clift_def cgets_def)

lemma alike_safely_clift: "alike (=) (safely (clift r)) (safely (clift r))"
  by (auto simp: alike_def safely_def safe_eq cmap_def cbind_def clift_def creturn_def split: sum.splits)

lemma fst_noted:
  "fst (set_reason k v r) = Inr ()" "fst (setdefault_reason k v r) = Inr ()" "fst (cmodify f r) = Inr ()"
  by (simp_all add: set_reason_def setdefault_reason_def cmodify_def)

lemma fst_noted_list: "fst (set_reasons fs v r) = Inr ()" "fst (mark_unsupported vs v r) = Inr ()"
proof -
  have step: "fst (cbind m f r) = Inr ()" if "\<And>r. fst (m r) = Inr ()" "\<And>r. fst (f () r) = Inr ()"
    for m :: "(reasons, unit) comp" and f :: "unit \<Rightarrow> (reasons, unit) comp" and r
    using that(1) [of r] that(2) by (auto simp: fst_cbind split: prod.splits)
  show "fst (set_reasons fs v r) = Inr ()"
    by (induction fs arbitrary: r) (simp_all add: step fst_noted creturn_def)
  show "fst (mark_unsupported vs v r) = Inr ()"
    by (induction vs v arbitrary: r rule: mark_unsupported.induct)
      (simp_all add: step fst_noted creturn_def)
qed

lemma alike_read_boundary: "alike (=) (read_boundary fn d fs) (read_boundary fn d fs)"
  unfolding read_boundary_def
  by (rule alike_bind [OF alike_reading])
    (auto intro!: alike_bind [OF alike_noting] alike_pure simp: fst_noted_list split: option.split)

lemma noting_world: "noting m (w, r) = (x, (w1, r1)) \<Longrightarrow> w1 = w"
  by (auto simp: noting_def czoom_def split: prod.splits)

lemma noted_world:
  assumes "cbind (noting m) (\<lambda>_. creturn b) (w, r) = (Inr x, (w1, r1))"
  shows "w1 = w \<and> x = b"
proof -
  from assms obtain u s1 where n: "noting m (w, r) = (Inr u, s1)" and c: "creturn b s1 = (Inr x, (w1, r1))"
    unfolding cbind_Inr_iff by (elim exE conjE) (rule that)
  from c have "s1 = (w1, r1)" "x = b" by (simp_all add: creturn_def)
  with noting_world [of m w r "Inr u" w1 r1] n show ?thesis by simp
qed

text \<open>The failing call itself, when the operation it replaces leaves the world as it is.\<close>

lemma alike_fault:
  assumes "\<And>w. snd (fn w) = w"
  shows "alike (\<lambda>_ y. y = d) (read_boundary fn d fs) (read_boundary (craise RuntimeError) d fs)"
  unfolding alike_def
proof (intro allI impI)
  fix w r r' x w1 r1
  assume run: "read_boundary fn d fs (w, r) = (Inr x, (w1, r1))"
  have w: "snd (safely fn w) = w"
    using assms [of w] by (auto simp: safely_def safe_eq cmap_def cbind_def creturn_def split: prod.splits sum.splits)
  obtain r2 where set: "set_reasons fs ''reader_error'' r' = (Inr (), r2)"
    using fst_noted_list(1) [of fs "''reader_error''" r'] by (cases "set_reasons fs ''reader_error'' r'") auto
  have fault: "reading (safely (craise RuntimeError)) (w, r') = (Inr None, (w, r'))"
    by (simp add: reading_def czoom_def safely_def safe_eq cmap_def cbind_def craise_def safe_result_def ordinary_def)
  from run obtain v s1 where v: "reading (safely fn) (w, r) = (Inr v, s1)"
    and rest: "(case v of None \<Rightarrow> cbind (noting (set_reasons fs ''reader_error'')) (\<lambda>_. creturn d)
       | Some v \<Rightarrow> creturn v) s1 = (Inr x, (w1, r1))"
    unfolding read_boundary_def cbind_Inr_iff by (elim exE conjE) (rule that)
  have s1: "s1 = (w, r)" using v w by (cases "safely fn w") (simp add: reading_def czoom_def)
  have "w1 = w"
  proof (cases v)
    case None
    with rest have "cbind (noting (set_reasons fs ''reader_error'')) (\<lambda>_. creturn d) (w, r) = (Inr x, (w1, r1))"
      by (simp add: s1)
    from noted_world [OF this] show ?thesis ..
  next
    case (Some y)
    with rest show ?thesis by (simp add: s1 creturn_def)
  qed
  moreover have "read_boundary (craise RuntimeError) d fs (w, r') = (Inr d, (w, r2))"
    by (simp add: read_boundary_def cbind_def fault) (simp add: noting_def czoom_def set creturn_def)
  ultimately show "\<exists>y r1'. read_boundary (craise RuntimeError) d fs (w, r') = (Inr y, (w1, r1')) \<and> y = d"
    by simp
qed

lemma alike_number: "alike (=) (read_number fn f lo hi) (read_number fn f lo hi)"
  unfolding read_number_def by (rule alike_bind [OF alike_read_boundary]) (simp add: alike_pure)

lemma alike_number_fault:
  "(\<And>w. snd (fn w) = w) \<Longrightarrow>
     alike (\<lambda>_ y. y = Unsupported) (read_number fn f lo hi) (read_number (craise RuntimeError) f lo hi)"
  unfolding read_number_def
  by (rule alike_bind [OF alike_fault]) (auto simp: alike_def clift_def collector_number_def)

lemma alike_instance: "alike (=) (read_instance fn b fs gs) (read_instance fn b fs gs)"
  unfolding read_instance_def
  by (rule alike_bind [OF alike_read_boundary])
    (auto intro!: alike_bind [OF alike_noting] alike_pure simp: fst_noted_list split: option.split)

lemma alike_instance_fault:
  assumes "\<And>w. snd (fn w) = w"
  shows "alike (\<lambda>_ y. y = b) (read_instance fn b fs gs) (read_instance (craise RuntimeError) b fs gs)"
proof -
  let ?mark = "cbind (noting (set_reasons gs ''malformed_reading'')) (\<lambda>_. creturn b)"
  have "alike (\<lambda>_ y. y = b) (case x of None \<Rightarrow> ?mark | Some v \<Rightarrow> creturn v) (creturn b)" for x
  proof (cases x)
    case None
    show ?thesis
      unfolding alike_def
    proof (intro allI impI)
      fix w r r' y w1 r1
      assume "(case x of None \<Rightarrow> ?mark | Some v \<Rightarrow> creturn v) (w, r) = (Inr y, (w1, r1))"
      then have "?mark (w, r) = (Inr y, (w1, r1))" by (simp add: None)
      from noted_world [OF this] have "w1 = w" ..
      then show "\<exists>y r1'. creturn b (w, r') = (Inr y, (w1, r1')) \<and> y = b" by (simp add: creturn_def)
    qed
  qed (simp add: alike_def creturn_def)
  then show ?thesis
    unfolding read_instance_def by (intro alike_bind [OF alike_fault [OF assms]]) simp
qed

lemma alike_diagnostics:
  assumes "reader_reasons (hr_unavailable_reasons (cl_host cl')) = reader_reasons (hr_unavailable_reasons (cl_host cl))"
    and "cl_gpu cl' = cl_gpu cl"
  shows "alike (\<lambda>_ _. True) (record_diagnostics cl live gpus) (record_diagnostics cl' live' gpus)"
proof -
  have mark: "alike (\<lambda>_ _. True) (noting m) (noting m')"
    if "\<And>r. fst (m r) = Inr ()" "\<And>r. fst (m' r) = Inr ()" for m m' :: "(reasons, unit) comp"
    unfolding alike_def
  proof (intro allI impI)
    fix w r r' x w1 r1
    assume "noting m (w, r) = (Inr x, (w1, r1))"
    then have "w1 = w" by (rule noting_world)
    with that(2) [of r'] show "\<exists>y r1'. noting m' (w, r') = (Inr y, (w1, r1')) \<and> True"
      by (cases "m' r'") (auto simp: noting_def czoom_def)
  qed
  have last: "alike (\<lambda>_ _. True)
      (if gpus = [] then noting (setdefault_reason k v) else creturn ())
      (if gpus = [] then noting (setdefault_reason k v) else creturn ())" for k v
    by (auto intro!: mark fst_noted alike_pure)
  show ?thesis
    unfolding record_diagnostics_def assms
    by (intro alike_bind [OF mark] alike_bind [OF alike_reading] alike_bind [OF last] alike_pure fst_noted
        fst_noted_list)
qed

lemma alike_timestamp: "alike (=) (timestamp cl) (timestamp (cl\<lparr>cl_host := h\<rparr>))"
proof -
  let ?invalid = "cbind (noting (set_reason ''timestamp'' ''invalid_clock'')) (\<lambda>_. reading (fallback_timestamp cl))"
  have same: "fallback_timestamp (cl\<lparr>cl_host := h\<rparr>) = fallback_timestamp cl"
    by (simp add: fallback_timestamp_def cong: option.case_cong)
  have invalid: "alike (=) ?invalid ?invalid"
    by (intro alike_bind [OF alike_noting] alike_reading) (simp add: fst_noted)
  have some: "alike (=)
      (cbind (clift (safe_result offset None)) (\<lambda>known.
         if known = None then ?invalid
         else cbind (safely (clift (astimezone_utc loc x)))
           (\<lambda>converted. case converted of None \<Rightarrow> ?invalid | Some u \<Rightarrow> creturn u)))
      (cbind (clift (safe_result offset None)) (\<lambda>known.
         if known = None then ?invalid
         else cbind (safely (clift (astimezone_utc loc x)))
           (\<lambda>converted. case converted of None \<Rightarrow> ?invalid | Some u \<Rightarrow> creturn u)))" for loc x offset
    by (rule alike_bind [OF alike_pure(2)])
      (auto intro!: invalid alike_bind [OF alike_safely_clift] alike_pure split: option.split)
  have fields: "cl_clock (cl\<lparr>cl_host := h\<rparr>) = cl_clock cl"
      "cl_local_offset (cl\<lparr>cl_host := h\<rparr>) = cl_local_offset cl" by simp_all
  have "timestamp (cl\<lparr>cl_host := h\<rparr>) = timestamp cl"
    unfolding timestamp_def Let_def same fields ..
  moreover have "alike (=) (timestamp cl) (timestamp cl)"
    unfolding timestamp_def Let_def
    by (rule alike_bind [OF alike_read_boundary]) (auto simp: invalid some split: option.split)
  ultimately show ?thesis by simp
qed

text \<open>The value of an operation under a fault at \<open>k\<close>: blank when it is the faulty one.\<close>

definition kept :: "string \<Rightarrow> string \<Rightarrow> 'a \<Rightarrow> 'a \<Rightarrow> 'a \<Rightarrow> bool" where
  "kept k operation blank x y \<longleftrightarrow> y = (if k = operation then blank else x)"

definition faulted :: "string \<Rightarrow> string \<Rightarrow> ('s, 'a) comp \<Rightarrow> ('s, 'a) comp" where
  "faulted k operation fn = (if k = operation then craise RuntimeError else fn)"

lemma alike_number_kept:
  assumes "k = operation \<Longrightarrow> \<forall>w. snd (fn w) = w"
  shows "alike (kept k operation Unsupported) (read_number fn f lo hi) (read_number (faulted k operation fn) f lo hi)"
  using assms alike_number [of fn f lo hi] alike_number_fault [of fn f lo hi]
  by (auto simp: kept_def [abs_def] faulted_def eq_commute)

lemma alike_instance_kept:
  assumes "k = operation \<Longrightarrow> \<forall>w. snd (fn w) = w"
  shows "alike (kept k operation b) (read_instance fn b fs gs) (read_instance (faulted k operation fn) b fs gs)"
  using assms alike_instance [of fn b fs gs] alike_instance_fault [of fn b fs gs]
  by (auto simp: kept_def [abs_def] faulted_def eq_commute)

lemma alike_part_kept:
  assumes "kept k operation b x y" "nonneg_number (get b) = Inr Unsupported"
  shows "alike (kept k operation Unsupported) (clift (nonneg_number (get x))) (clift (nonneg_number (get y)))"
  using assms by (auto simp: kept_def alike_def clift_def)

definition blanked :: "string \<Rightarrow> snapshot \<Rightarrow> snapshot" where
  "blanked k s =
     (let number = (\<lambda>operation m. if k = operation then Unsupported else m) in
     s\<lparr>ts_cpu_percent := number ''cpu_percent'' (ts_cpu_percent s),
       ts_load_average_1m := number ''load_average_1m'' (ts_load_average_1m s),
       ts_ram_used_bytes := number ''memory'' (ts_ram_used_bytes s),
       ts_ram_available_bytes := number ''memory'' (ts_ram_available_bytes s),
       ts_ram_total_bytes := number ''memory'' (ts_ram_total_bytes s),
       ts_cpu_temperature_c := number ''cpu_temperature'' (ts_cpu_temperature_c s),
       ts_disk_read_bytes_per_sec := number ''disk_throughput'' (ts_disk_read_bytes_per_sec s),
       ts_disk_write_bytes_per_sec := number ''disk_throughput'' (ts_disk_write_bytes_per_sec s),
       ts_process_rss_bytes := number ''process_rss_bytes'' (ts_process_rss_bytes s),
       ts_reasons := []\<rparr>)"

lemma blank_parts:
  "nonneg_number (mr_used_bytes blank_memory) = Inr Unsupported"
  "nonneg_number (mr_available_bytes blank_memory) = Inr Unsupported"
  "nonneg_number (mr_total_bytes blank_memory) = Inr Unsupported"
  "nonneg_number (dt_read_bytes_per_sec blank_disk) = Inr Unsupported"
  "nonneg_number (dt_write_bytes_per_sec blank_disk) = Inr Unsupported"
  by (simp_all add: blank_memory_def blank_disk_def raw_memory_of_def raw_disk_of_def MemoryReading_def
      DiskThroughput_def nonneg_number_def collector_number_def)

lemma alike_assemble:
  assumes same: "reader_reasons (hr_unavailable_reasons (cl_host cl')) = reader_reasons (hr_unavailable_reasons (cl_host cl))"
      "cl_gpu cl' = cl_gpu cl"
    and "kept k ''cpu_percent'' Unsupported cpu cpu'" "kept k ''load_average_1m'' Unsupported load load'"
      "kept k ''memory'' blank_memory memory memory'" "kept k ''cpu_temperature'' Unsupported temperature temperature'"
      "kept k ''disk_throughput'' blank_disk disk disk'" "kept k ''process_rss_bytes'' Unsupported rss rss'"
  shows "alike (\<lambda>s s'. s'\<lparr>ts_reasons := []\<rparr> = blanked k s)
    (assemble_snapshot cl t cpu load memory temperature disk rss gpus)
    (assemble_snapshot cl' t cpu' load' memory' temperature' disk' rss' gpus)"
  unfolding assemble_snapshot_def
  by (intro alike_bind [OF alike_part_kept [where get = mr_used_bytes, OF assms(5) blank_parts(1)]]
      alike_bind [OF alike_part_kept [where get = mr_available_bytes, OF assms(5) blank_parts(2)]]
      alike_bind [OF alike_part_kept [where get = mr_total_bytes, OF assms(5) blank_parts(3)]]
      alike_bind [OF alike_part_kept [where get = dt_read_bytes_per_sec, OF assms(7) blank_parts(4)]]
      alike_bind [OF alike_part_kept [where get = dt_write_bytes_per_sec, OF assms(7) blank_parts(5)]]
      alike_bind [OF alike_diagnostics [OF same]])
    (use assms(3,4,6,8) in \<open>auto simp: alike_def clift_def make_snapshot_def kept_def blanked_def Let_def
       split: option.splits sum.splits\<close>)

text \<open>The operation of a host reader leaves the world as it is.\<close>

definition leaves_world :: "'s host_reader \<Rightarrow> string \<Rightarrow> bool" where
  "leaves_world h operation \<longleftrightarrow>
     (operation = ''cpu_percent'' \<longrightarrow> (\<forall>w. snd (hr_cpu_percent h w) = w))
     \<and> (operation = ''load_average_1m'' \<longrightarrow> (\<forall>w. snd (hr_load_average_1m h w) = w))
     \<and> (operation = ''memory'' \<longrightarrow> (\<forall>w. snd (hr_memory h w) = w))
     \<and> (operation = ''cpu_temperature'' \<longrightarrow> (\<forall>w. snd (hr_cpu_temperature h w) = w))
     \<and> (operation = ''disk_throughput'' \<longrightarrow> (\<forall>w. snd (hr_disk_throughput h w) = w))
     \<and> (operation = ''process_rss_bytes'' \<longrightarrow> (\<forall>w. snd (hr_process_rss_bytes h w) = w))"

lemma leaves_worldD:
  assumes "leaves_world h k"
  shows "k = ''cpu_percent'' \<Longrightarrow> \<forall>w. snd (hr_cpu_percent h w) = w"
    "k = ''load_average_1m'' \<Longrightarrow> \<forall>w. snd (hr_load_average_1m h w) = w"
    "k = ''memory'' \<Longrightarrow> \<forall>w. snd (hr_memory h w) = w"
    "k = ''cpu_temperature'' \<Longrightarrow> \<forall>w. snd (hr_cpu_temperature h w) = w"
    "k = ''disk_throughput'' \<Longrightarrow> \<forall>w. snd (hr_disk_throughput h w) = w"
    "k = ''process_rss_bytes'' \<Longrightarrow> \<forall>w. snd (hr_process_rss_bytes h w) = w"
  using assms by (simp_all add: leaves_world_def)

definition faulty :: "'s host_reader \<Rightarrow> string \<Rightarrow> 's host_reader" where
  "faulty h k = fault_host \<lparr>fr_wrapped = wrap_host h, fr_fail = k\<rparr>"

lemma faulty_operations:
  "hr_cpu_percent (faulty h k) = faulted k ''cpu_percent'' (hr_cpu_percent h)"
  "hr_load_average_1m (faulty h k) = faulted k ''load_average_1m'' (hr_load_average_1m h)"
  "hr_memory (faulty h k) = faulted k ''memory'' (hr_memory h)"
  "hr_cpu_temperature (faulty h k) = faulted k ''cpu_temperature'' (hr_cpu_temperature h)"
  "hr_disk_throughput (faulty h k) = faulted k ''disk_throughput'' (hr_disk_throughput h)"
  "hr_process_rss_bytes (faulty h k) = faulted k ''process_rss_bytes'' (hr_process_rss_bytes h)"
  "reader_reasons (hr_unavailable_reasons (faulty h k)) = reader_reasons (hr_unavailable_reasons h)"
  by (auto simp: faulty_def fault_host_def fault_host_call_def fault_call_def wrap_host_def faulted_def
      fault_reporter_def reader_reasons_def safe_result_def well_formed_reasons_def
      safe_eq comp_defs fun_eq_iff split: option.splits)

lemma alike_collect:
  assumes "leaves_world (cl_host cl) k"
  shows "alike (\<lambda>s s'. s'\<lparr>ts_reasons := []\<rparr> = blanked k s)
    (collect_snapshot cl) (collect_snapshot (cl\<lparr>cl_host := faulty (cl_host cl) k\<rparr>))"
proof -
  let ?cl = "cl\<lparr>cl_host := faulty (cl_host cl) k\<rparr>"
  have host: "cl_host ?cl = faulty (cl_host cl) k" and gpu: "cl_gpu ?cl = cl_gpu cl" by simp_all
  have norm: "alike (=) (noting (normalize_gpu_samples vals)) (noting (normalize_gpu_samples vals))" for vals
    by (rule alike_noting) (simp add: normalize_samples_reference)
  note w = leaves_worldD [OF assms]
  show ?thesis
    unfolding collect_snapshot_def host gpu faulty_operations
    apply (rule alike_bind [OF alike_timestamp])
    apply (rule alike_bind [OF alike_number_kept [OF w(1)]], assumption)
    apply (rule alike_bind [OF alike_number_kept [OF w(2)]], assumption)
    apply (rule alike_bind [OF alike_instance_kept [OF w(3)]], assumption)
    apply (rule alike_bind [OF alike_number_kept [OF w(4)]], assumption)
    apply (rule alike_bind [OF alike_instance_kept [OF w(5)]], assumption)
    apply (rule alike_bind [OF alike_number_kept [OF w(6)]], assumption)
    apply (rule alike_bind [OF alike_read_boundary])
    apply (simp only:)
    apply (rule alike_bind [OF norm])
    apply (simp only:)
    apply (rule alike_assemble; simp add: faulty_operations)
    done
qed

lemma collected_snapshot_taken:
  assumes "collect_snapshot cl (co_world st, []) = (Inr s, (w, r))"
  shows "take_snapshot cl st =
    (Inr s, st\<lparr>co_world := w, co_reasons := snapshot_unavailable_reasons s\<rparr>)"
  using assms
  by (simp add: take_snapshot_def cbind_def on_machine_def czoom_def safely_def safe_eq cmap_def
      with_fresh_reasons_def safe_result_def creturn_def cmodify_def)


section \<open>Machine profiles\<close>

definition profile_complete :: "machine_profile \<Rightarrow> reasons \<Rightarrow> bool" where
  "profile_complete p r \<longleftrightarrow>
     list_all (\<lambda>(f, m). m = Unsupported \<longrightarrow> f \<in> dict_keys r)
       [(''physical_cores'', mi_physical_cores (mp_identity p)),
        (''logical_cores'', mi_logical_cores (mp_identity p)), (''ram_bytes'', mi_ram_bytes (mp_identity p))]
     \<and> list_all (\<lambda>(f, t). t = None \<longrightarrow> f \<in> dict_keys r)
       [(''hostname'', mi_hostname (mp_identity p)), (''os_name'', mi_os_name (mp_identity p)),
        (''architecture'', mi_architecture (mp_identity p)), (''cpu_model'', mi_cpu_model (mp_identity p))]
     \<and> (mi_gpus (mp_identity p) = [] \<longrightarrow> ''gpu'' \<in> dict_keys r)
     \<and> sorted_wrt (<) (map gp_index (mi_gpus (mp_identity p)))
     \<and> utc_time (mp_observed_at p) \<and> sorted_wrt (<) (map fst r)"

definition emergency :: "machine_profile \<Rightarrow> reasons \<Rightarrow> bool" where
  "emergency p r \<longleftrightarrow>
     mp_identity p = unknown_identity \<and> mp_storage p = [] \<and> utc_time (mp_observed_at p)
     \<and> r = [(''machine_profile'', ''collector_error'')]"

text \<open>
  What the collector relies on of baseaicore: a constructor that accepts its arguments keeps them,
  and a machine of which nothing is known is accepted.
\<close>

definition baseaicore_ok :: "'s collector \<Rightarrow> bool" where
  "baseaicore_ok cl \<longleftrightarrow>
     (\<forall>p q. cl_gpu_profile cl p = Inr q \<longrightarrow> q = p)
     \<and> (\<forall>p q. cl_machine_profile cl p = Inr q \<longrightarrow> q = p)
     \<and> (\<exists>f. cl_fingerprint cl unknown_identity = Inr f)
     \<and> (\<forall>p. mp_identity p = unknown_identity \<longrightarrow> cl_machine_profile cl p = Inr p)"

lemma baseaicore_okD:
  assumes "baseaicore_ok cl"
  shows "cl_gpu_profile cl p = Inr q \<Longrightarrow> q = p" "cl_machine_profile cl p' = Inr q' \<Longrightarrow> q' = p'"
    "\<exists>f. cl_fingerprint cl unknown_identity = Inr f"
    "mp_identity p' = unknown_identity \<Longrightarrow> cl_machine_profile cl p' = Inr p'"
  using assms unfolding baseaicore_ok_def by blast+

lemma grows_sndD: "grows_snd s s' \<Longrightarrow> f \<in> dict_keys (snd s) \<Longrightarrow> f \<in> dict_keys (snd s')"
  by (auto simp: grows_snd_def grows_def more_keys_def)

lemma keeps_normalize_gpu_profile [grows_intros]: "keeps grows (normalize_gpu_profile cl n v d)"
  unfolding normalize_gpu_profile_def
  by (auto intro!: grows_intros split: option.splits)

lemma keeps_normalize_profile_rows [grows_intros]: "keeps grows (normalize_profile_rows cl n vals d)"
  by (induction cl n vals d rule: normalize_profile_rows.induct) (auto intro!: grows_intros)

lemma keeps_normalize_profiles [grows_intros]: "keeps grows (normalize_gpu_profiles cl vals)"
  unfolding normalize_gpu_profiles_def by (intro grows_intros) simp_all

definition profiles_indexed :: "(int, gpu_profile) dict \<Rightarrow> bool" where
  "profiles_indexed d \<longleftrightarrow> dict_ok d \<and> list_all (\<lambda>(index, p). gp_index p = index) d"

lemma normalize_profile_indexed:
  assumes "baseaicore_ok cl" "normalize_gpu_profile cl n v d r = (Inr d', r')" "profiles_indexed d"
  shows "profiles_indexed d'"
proof (cases v)
  case None
  with assms show ?thesis by (auto simp: normalize_gpu_profile_def dest: noted_and_returned)
next
  case (Some p)
  show ?thesis
  proof (cases "gp_index p \<in> dict_keys d")
    case True
    with assms Some show ?thesis by (auto simp: normalize_gpu_profile_def dest: noted_and_returned)
  next
    case False
    with assms(2) Some obtain x q where "cl_gpu_profile cl x = Inr q" "gp_index x = gp_index p"
      and d': "d' = dict_set (gp_index q) q d"
      by (auto simp: normalize_gpu_profile_def cbind_Inr_iff clift_def creturn_def)
    with assms(1) have "gp_index q = gp_index p" by (auto simp: baseaicore_ok_def)
    with False assms(3) d' show ?thesis
      by (auto simp: profiles_indexed_def dict_set_fresh dict_ok_def dict_keys_def)
  qed
qed

lemma normalize_profile_rows_indexed:
  "normalize_profile_rows cl n vals d r = (Inr d', r') \<Longrightarrow> baseaicore_ok cl \<Longrightarrow> profiles_indexed d \<Longrightarrow>
     profiles_indexed d'"
proof (induction cl n vals d arbitrary: r rule: normalize_profile_rows.induct)
  case (2 cl n v vs d)
  from 2(2) obtain d1 r1 where "normalize_gpu_profile cl n v d r = (Inr d1, r1)"
    "normalize_profile_rows cl (Suc n) vs d1 r1 = (Inr d', r')"
    by (auto simp: cbind_Inr_iff)
  with 2(1,3,4) normalize_profile_indexed show ?case by blast
qed (simp add: creturn_def)

lemma normalize_profiles_sorted:
  assumes "normalize_gpu_profiles cl vals r = (Inr gpus, r')" "baseaicore_ok cl"
  shows "sorted_wrt (<) (map gp_index gpus)"
proof -
  from assms(1) obtain d where d: "normalize_profile_rows cl 0 vals [] r = (Inr d, r')"
    and gpus: "gpus = map snd (dict_sorted d)"
    by (auto simp: normalize_gpu_profiles_def cmap_def cbind_Inr_iff creturn_def)
  from normalize_profile_rows_indexed [OF d assms(2)] have ok: "profiles_indexed d"
    by (simp add: profiles_indexed_def)
  then have "map gp_index gpus = map fst (dict_sorted d)"
    by (auto simp: gpus profiles_indexed_def dict_sorted_def list_all_iff)
  with ok dict_sorted_keys [of d] show ?thesis by (simp add: profiles_indexed_def)
qed

lemma mark_missing_text_eq:
  "mark_missing_text vs reason =
     mark_unsupported (map (\<lambda>(f, t). (f, if t = None then Unsupported else Num (PInt 0))) vs) reason"
  by (induction vs reason rule: mark_missing_text.induct) auto

lemma mark_missing_text_marks:
  assumes "mark_missing_text vs reason r = (Inr (), r')" "(f, None) \<in> set vs"
  shows "f \<in> dict_keys r'"
proof (rule mark_unsupported_marks [OF assms(1) [unfolded mark_missing_text_eq]])
  show "(f, Unsupported) \<in> set (map (\<lambda>(f, t). (f, if t = None then Unsupported else Num (PInt 0))) vs)"
    using assms(2) by force
qed

lemma noting_unit: "noting m s = (Inr u, s') \<Longrightarrow> m (snd s) = (Inr (), snd s')"
  using noting_Inr [of m s u s'] by simp

lemma profile_diagnostics_marks:
  assumes "profile_diagnostics cl ident st = (Inr (), st')"
  shows "grows_snd st st'
    \<and> (\<forall>f. (f, Unsupported) \<in> set [(''physical_cores'', mi_physical_cores ident),
          (''logical_cores'', mi_logical_cores ident), (''ram_bytes'', mi_ram_bytes ident)] \<longrightarrow>
        f \<in> dict_keys (snd st'))
    \<and> (\<forall>f. (f, None) \<in> set [(''hostname'', mi_hostname ident), (''os_name'', mi_os_name ident),
          (''architecture'', mi_architecture ident), (''cpu_model'', mi_cpu_model ident)] \<longrightarrow>
        f \<in> dict_keys (snd st'))
    \<and> (mi_gpus ident = [] \<longrightarrow> ''gpu'' \<in> dict_keys (snd st'))"
proof -
  let ?ms = "[(''physical_cores'', mi_physical_cores ident),
    (''logical_cores'', mi_logical_cores ident), (''ram_bytes'', mi_ram_bytes ident)]"
  let ?ts = "[(''hostname'', mi_hostname ident), (''os_name'', mi_os_name ident),
    (''architecture'', mi_architecture ident), (''cpu_model'', mi_cpu_model ident)]"
  from assms obtain u1 s1 u2 s2 hs s3 u3 s4 gr s5 u4 s6 where
    m: "noting (mark_unsupported ?ms ''sensor_unsupported'') st = (Inr u1, s1)"
    and t: "noting (mark_missing_text ?ts ''sensor_unsupported'') s1 = (Inr u2, s2)"
    and host: "reading (reader_reasons (hr_unavailable_reasons (cl_host cl))) s2 = (Inr hs, s3)"
    and live: "noting (cmodify (static_reasons hs)) s3 = (Inr u3, s4)"
    and gpu: "reading (reader_reasons (gr_unavailable_reasons (cl_gpu cl))) s4 = (Inr gr, s5)"
    and upd: "noting (cmodify (\<lambda>r. dict_update r gr)) s5 = (Inr u4, s6)"
    and none: "(if mi_gpus ident = [] then noting (setdefault_reason ''gpu'' ''no_gpus'') else creturn ()) s6 =
      (Inr (), st')"
    unfolding profile_diagnostics_def cbind_Inr_iff by (elim exE conjE) (rule that)
  note transpD [OF grows_preorder(4), trans]
  have g1: "grows_snd st s1" by (rule keepsD [OF keeps_noting [OF keeps_mark_unsupported] m])
  have g2: "grows_snd s1 s2" by (rule keepsD [OF keeps_noting [OF keeps_mark_missing_text] t])
  note keepsD [OF keeps_reading host]
  also note keepsD [OF keeps_noting [OF keeps_cmodify [OF grows_reported(2)]] live]
  also note keepsD [OF keeps_reading gpu]
  also note keepsD [OF keeps_noting [OF keeps_cmodify [OF grows_update]] upd]
  also note keepsD [OF keeps_cond [OF keeps_noting [OF keeps_reason(2)] keeps_pure(1) [OF grows_preorder(3)]] none]
  finally have g3: "grows_snd s2 st'" .
  have a: "f \<in> dict_keys (snd st')" if "(f, Unsupported) \<in> set ?ms" for f
    by (rule grows_sndD [OF g3 grows_sndD [OF g2 mark_unsupported_marks [OF noting_unit [OF m] that]]])
  have b: "f \<in> dict_keys (snd st')" if "(f, None) \<in> set ?ts" for f
    by (rule grows_sndD [OF g3 mark_missing_text_marks [OF noting_unit [OF t] that]])
  have c: "mi_gpus ident = [] \<Longrightarrow> ''gpu'' \<in> dict_keys (snd st')"
    using none by (auto simp: noting_def czoom_def setdefault_reason_def cmodify_def split: prod.splits)
  note g1
  also note g2
  also note g3
  finally have "grows_snd st st'" .
  with a b c show ?thesis by (intro conjI allI impI) (assumption | erule a b c)+
qed

lemma collect_profile_complete:
  assumes run: "collect_profile cl (w, []) = (Inr (p, r), st')" and ok: "baseaicore_ok cl"
  shows "profile_complete p r"
proof -
  from run obtain facts s1 vals s2 gpus s3 t s4 ph s5 lo s6 ram s7 fp s8 p1 s9 u s10 where
    facts: "read_instance (hr_static_facts (cl_host cl)) blank_facts profile_fields [''host_profile''] (w, []) =
      (Inr facts, s1)"
    and vals: "read_boundary (gr_static_info (cl_gpu cl)) [] [''gpu''] s1 = (Inr vals, s2)"
    and gpus: "noting (normalize_gpu_profiles cl vals) s2 = (Inr gpus, s3)"
    and t: "timestamp cl s3 = (Inr t, s4)"
    and num: "clift (nonneg_number (hf_physical_cores facts)) s4 = (Inr ph, s5)"
      "clift (nonneg_number (hf_logical_cores facts)) s5 = (Inr lo, s6)"
      "clift (nonneg_number (hf_ram_bytes facts)) s6 = (Inr ram, s7)"
    and rest: "(let ident = \<lparr>mi_hostname = profile_text (hf_hostname facts),
           mi_os_name = profile_text (hf_os_name facts),
           mi_architecture = profile_text (hf_architecture facts),
           mi_cpu_model = profile_text (hf_cpu_model facts), mi_physical_cores = ph,
           mi_logical_cores = lo, mi_ram_bytes = ram, mi_gpus = gpus\<rparr> in
     cbind (clift (cl_fingerprint cl ident)) (\<lambda>fingerprint.
     cbind (clift (cl_machine_profile cl
       \<lparr>mp_machine_fingerprint = fingerprint, mp_identity = ident,
        mp_os_version = profile_text (hf_os_version facts), mp_kernel = profile_text (hf_kernel facts),
        mp_storage = (case hf_storage facts of Some ds \<Rightarrow> ds | None \<Rightarrow> []),
        mp_python_version = profile_text (hf_python_version facts), mp_observed_at = t\<rparr>)) (\<lambda>profile.
     cbind (profile_diagnostics cl ident) (\<lambda>_.
     cgets (\<lambda>(_, r). (profile, dict_sorted r)))))) s7 = (Inr (p, r), st')"
    unfolding collect_profile_def cbind_Inr_iff by (elim exE conjE) (rule that)
  have s7: "s7 = s4" using num by (simp add: clift_def)
  define ident where "ident = \<lparr>mi_hostname = profile_text (hf_hostname facts),
    mi_os_name = profile_text (hf_os_name facts),
    mi_architecture = profile_text (hf_architecture facts),
    mi_cpu_model = profile_text (hf_cpu_model facts), mi_physical_cores = ph,
    mi_logical_cores = lo, mi_ram_bytes = ram, mi_gpus = gpus\<rparr>"
  note rest' = rest [unfolded Let_def s7, folded ident_def]
  from rest' obtain fp q s8 where
    q: "cl_machine_profile cl
       \<lparr>mp_machine_fingerprint = fp, mp_identity = ident,
        mp_os_version = profile_text (hf_os_version facts), mp_kernel = profile_text (hf_kernel facts),
        mp_storage = (case hf_storage facts of Some ds \<Rightarrow> ds | None \<Rightarrow> []),
        mp_python_version = profile_text (hf_python_version facts), mp_observed_at = t\<rparr> = Inr p"
    and diag: "profile_diagnostics cl ident s4 = (Inr (), s8)" and r: "r = dict_sorted (snd s8)"
    by (auto simp: cbind_Inr_iff clift_def cgets_def split: prod.splits)
  have p: "mp_identity p = ident" "mp_observed_at p = t" "mi_gpus ident = gpus"
    using baseaicore_okD(2) [OF ok q] by (simp_all add: ident_def)
  note transpD [OF grows_preorder(4), trans]
  note keepsD [OF keeps_read_instance facts]
  also note keepsD [OF keeps_read_boundary vals]
  also note keepsD [OF keeps_noting [OF keeps_normalize_profiles] gpus]
  also note keepsD [OF keeps_timestamp t]
  also have "grows_snd s4 s8" using profile_diagnostics_marks [OF diag] by blast
  finally have "dict_ok (snd s8)" by (simp add: grows_snd_def grows_def)
  then have "sorted_wrt (<) (map fst r)" by (simp add: r sorted_reasons)
  with profile_diagnostics_marks [OF diag] normalize_profiles_sorted [OF noting_Inr [OF gpus] ok]
    returnsD [OF timestamp_utc t]
  show ?thesis
    by (auto simp: profile_complete_def r p)
qed

lemma emergency_profile_Inr:
  assumes "emergency_profile cl w = (Inr p, w')" "baseaicore_ok cl"
  shows "mp_identity p = unknown_identity \<and> mp_storage p = [] \<and> utc_time (mp_observed_at p)"
proof -
  from assms(1) obtain f s1 t s2 where t: "fallback_timestamp cl s1 = (Inr t, s2)"
    and p: "cl_machine_profile cl
       \<lparr>mp_machine_fingerprint = f, mp_identity = unknown_identity, mp_os_version = None,
        mp_kernel = None, mp_storage = [], mp_python_version = None, mp_observed_at = t\<rparr> = Inr p"
    by (auto simp: emergency_profile_def cbind_Inr_iff clift_def)
  from baseaicore_okD(2) [OF assms(2) p] returnsD [OF fallback_timestamp_utc t] show ?thesis by simp
qed

lemma contained_emergency:
  assumes "baseaicore_ok cl"
  shows "contained (emergency_profile cl)"
proof -
  obtain f where f: "cl_fingerprint cl unknown_identity = Inr f" using baseaicore_okD(3) [OF assms] by blast
  have m: "contained (clift (cl_machine_profile cl p))" if "mp_identity p = unknown_identity" for p
    using baseaicore_okD(4) [OF assms that] by (simp add: contained_def clift_def)
  then show ?thesis
    unfolding emergency_profile_def f
    by (intro contained_bind contained_fallback m) (simp_all add: contained_def clift_def)
qed

definition profile_outcome ::
  "'s collector \<Rightarrow> (machine_profile \<times> reasons) option \<Rightarrow> ('s collector_state, machine_profile) comp" where
  "profile_outcome cl collected =
     (case collected of
        Some (profile, reasons) \<Rightarrow>
          cbind (cmodify (\<lambda>st. st\<lparr>co_reasons := reasons\<rparr>)) (\<lambda>_. creturn profile)
      | None \<Rightarrow>
          cbind (cmodify (\<lambda>st. st\<lparr>co_reasons := [(''machine_profile'', ''collector_error'')]\<rparr>))
            (\<lambda>_. on_machine (emergency_profile cl)))"

lemma take_profile_outcome:
  "take_profile cl =
     cbind (on_machine (safely (with_fresh_reasons (collect_profile cl)))) (profile_outcome cl)"
  by (simp only: take_profile_def profile_outcome_def [abs_def])

lemma contained_take_profile:
  assumes "baseaicore_ok cl"
  shows "contained (take_profile cl)"
proof -
  have "contained (profile_outcome cl collected)" for collected
  proof (cases collected)
    case None
    show ?thesis
      unfolding profile_outcome_def None option.case
      by (intro contained_bind contained_pure contained_on_machine contained_emergency assms)
  next
    case (Some pr)
    show ?thesis
      unfolding profile_outcome_def Some option.case
      by (cases pr) (simp only: prod.case, intro contained_bind contained_pure)
  qed
  then show ?thesis
    unfolding take_profile_outcome safely_def
    by (intro contained_bind contained_on_machine contained_safe)
qed

lemma profile_outcome_Inr:
  assumes run: "profile_outcome cl collected st = (Inr p, st')" and ok: "baseaicore_ok cl"
  shows "(\<exists>r. collected = Some (p, r) \<and> co_reasons st' = r) \<or> emergency p (co_reasons st')"
proof (cases collected)
  case None
  with run have e: "on_machine (emergency_profile cl)
      (st\<lparr>co_reasons := [(''machine_profile'', ''collector_error'')]\<rparr>) = (Inr p, st')"
    by (simp add: profile_outcome_def cbind_cmodify)
  have "co_reasons st' = [(''machine_profile'', ''collector_error'')]"
    using e by (auto simp: on_machine_def czoom_def split: prod.splits)
  moreover from on_machine_Inr [OF e] obtain w where
    w: "emergency_profile cl (co_world (st\<lparr>co_reasons := [(''machine_profile'', ''collector_error'')]\<rparr>)) = (Inr p, w)" ..
  ultimately show ?thesis using emergency_profile_Inr [OF w ok] by (simp add: emergency_def)
next
  case (Some pr)
  with run show ?thesis by (cases pr) (auto simp: profile_outcome_def cbind_cmodify creturn_def)
qed

lemma take_profile_Inr:
  assumes run: "take_profile cl st = (Inr p, st')" and ok: "baseaicore_ok cl"
  shows "profile_complete p (co_reasons st') \<or> emergency p (co_reasons st')"
proof -
  from run obtain collected s1 where
    c: "on_machine (safely (with_fresh_reasons (collect_profile cl))) st = (Inr collected, s1)"
    and out: "profile_outcome cl collected s1 = (Inr p, st')"
    unfolding take_profile_outcome cbind_Inr_iff by (elim exE conjE) (rule that)
  have "profile_complete p r" if "collected = Some (p, r)" for r
  proof -
    from on_machine_Inr [OF c] that obtain w1 where
      "with_fresh_reasons (collect_profile cl) (co_world st) = (Inr (p, r), w1)"
      by (auto dest: safely_Some)
    then obtain s where "collect_profile cl (co_world st, []) = (Inr (p, r), s)"
      by (auto simp: with_fresh_reasons_def split: prod.splits)
    from collect_profile_complete [OF this ok] show ?thesis .
  qed
  with profile_outcome_Inr [OF out ok] show ?thesis by blast
qed


section \<open>Construction\<close>

text \<open>
  Constructing a collector can fail for one ordinary reason only, a missing host reader on a
  platform that has none; injected readers are kept as they are.
\<close>

theorem collector_init_fails_only_unsupported:
  "case collector_init sys_platform env host gpu w of
     (Inl e, _) \<Rightarrow>
       e = UnsupportedPlatformError \<and> host = None
         \<and> sys_platform \<notin> {''linux'', ''win32'', ''darwin''}
       \<or> e = KeyboardInterrupt \<or> e = SystemExit
   | (Inr (h, g), _) \<Rightarrow>
       (case host of Some x \<Rightarrow> h = Inl x | None \<Rightarrow> h \<in> range Inr)
       \<and> (case gpu of Some y \<Rightarrow> g = Inl y | None \<Rightarrow> g \<in> range Inr)"
  by (auto simp: collector_init_def create_host_reader_def create_gpu_reader_def
      nvml_binding_available_def cmap_def safe_eq comp_defs ordinary_def safe_result_def Let_def
      split: prod.split sum.split option.split)

section \<open>A quiet machine\<close>

text \<open>A machine whose readers always answer the same, for concrete runs.\<close>

definition quiet_host :: "unit host_reader" where
  "quiet_host =
     \<lparr>hr_cpu_percent = creturn (ONum (PInt 50)), hr_load_average_1m = creturn (ONum (PInt 2)),
      hr_memory = creturn (Some \<lparr>mr_total_bytes = ONum (PInt 8), mr_available_bytes = ONum (PInt 6),
        mr_used_bytes = ONum (PInt 2)\<rparr>),
      hr_cpu_temperature = creturn OUnsupported,
      hr_disk_throughput = creturn (Some blank_disk),
      hr_process_rss_bytes = creturn (ONum (PInt 3)),
      hr_static_facts = creturn (Some (raw_facts_of HostFacts)),
      hr_unavailable_reasons = None\<rparr>"

definition quiet_collector :: "unit collector" where
  "quiet_collector =
     \<lparr>cl_host = quiet_host, cl_gpu = NullGpuReader ''headless'',
      cl_clock = creturn (Some (utc_instant 5)), cl_utc_now = creturn (Some (utc_instant 5)),
      cl_local_offset = (\<lambda>_. Inr 0), cl_fingerprint = (\<lambda>_. Inr ''machine''),
      cl_gpu_profile = Inr, cl_machine_profile = Inr\<rparr>"

definition quiet_snapshot :: snapshot where
  "quiet_snapshot =
     \<lparr>ts_timestamp = utc_instant 5, ts_cpu_percent = Num (PInt 50), ts_load_average_1m = Num (PInt 2),
      ts_ram_used_bytes = Num (PInt 2), ts_ram_available_bytes = Num (PInt 6),
      ts_ram_total_bytes = Num (PInt 8), ts_cpu_temperature_c = Unsupported,
      ts_disk_read_bytes_per_sec = Unsupported, ts_disk_write_bytes_per_sec = Unsupported,
      ts_process_rss_bytes = Num (PInt 3), ts_gpus = [],
      ts_reasons =
        [(''cpu_temperature_c'', ''sensor_unsupported''),
         (''disk_read_bytes_per_sec'', ''sensor_unsupported''),
         (''disk_write_bytes_per_sec'', ''sensor_unsupported''), (''gpu'', ''headless'')]\<rparr>"

lemma comp_runs:
  "creturn x s = (Inr x, s)" "clift v s = (v, s)" "cmodify f s = (Inr (), f s)" "cgets g s = (Inr (g s), s)"
  "noting m (w, r) = (case m r of (x, r') \<Rightarrow> (x, (w, r')))"
  "reading m' (w, r) = (case m' w of (x, w') \<Rightarrow> (x, (w', r)))"
  "setdefault_reason k v' r' = (Inr (), dict_setdefault k v' r')"
  by (simp_all add: comp_defs noting_def reading_def setdefault_reason_def split: prod.splits)

lemma read_boundary_return: "read_boundary (creturn v) d fs s = (Inr v, s)"
  by (cases s) (simp add: read_boundary_def reading_def czoom_def safely_def safe_eq cmap_def
      safe_result_def creturn_def cbind_def)

lemma read_number_return:
  "read_number (creturn v) f lo hi s = (collector_number v (Some lo) hi, s)"
  by (simp add: read_number_def cbind_apply read_boundary_return clift_def)

lemma read_instance_return: "read_instance (creturn (Some x)) b fs gs s = (Inr x, s)"
  by (simp add: read_instance_def cbind_apply read_boundary_return comp_runs)

lemma quiet_timestamp: "timestamp quiet_collector s = (Inr (utc_instant 5), s)"
  by (simp add: timestamp_def Let_def cbind_apply read_boundary_return quiet_collector_def utc_instant_def
      clift_def safe_result_def safely_def safe_eq cmap_def astimezone_utc_def min_datetime_us_def
      max_datetime_us_def comp_runs)

lemma quiet_numbers:
  "collector_number (ONum (PInt 50)) (Some (Fin 0)) (Some (Fin 100)) = Inr (Num (PInt 50))"
  "collector_number (ONum (PInt 2)) (Some (Fin 0)) None = Inr (Num (PInt 2))"
  "collector_number (ONum (PInt 3)) (Some (Fin 0)) None = Inr (Num (PInt 3))"
  "nonneg_number (ONum (PInt 8)) = Inr (Num (PInt 8))"
  "nonneg_number (ONum (PInt 6)) = Inr (Num (PInt 6))"
  "nonneg_number (ONum (PInt 2)) = Inr (Num (PInt 2))"
  "collector_number OUnsupported lo hi = Inr Unsupported"
  by (simp_all add: collector_number_def nonneg_number_def float_of_int_small num_less_def)

lemma quiet_collected:
  "collect_snapshot quiet_collector ((), []) =
     (Inr quiet_snapshot, ((), [(''cpu_temperature_c'', ''sensor_unsupported''),
         (''disk_read_bytes_per_sec'', ''sensor_unsupported''),
         (''disk_write_bytes_per_sec'', ''sensor_unsupported''), (''gpu'', ''headless'')]))"
proof -
  have host: "cl_host quiet_collector = quiet_host" and gpu: "cl_gpu quiet_collector = NullGpuReader ''headless''"
    by (simp_all add: quiet_collector_def)
  have sample: "gr_sample (NullGpuReader ''headless'') = creturn []"
    by (simp add: NullGpuReader_def gpu_operations_of_def null_gpu_sample_def cmap_def)
  have norm: "normalize_gpu_samples [] r = (Inr [], r)" for r
    by (simp add: normalize_gpu_samples_def cmap_def dict_sorted_def creturn_def cbind_def)
  have none: "reader_reasons None = creturn []" by (simp add: reader_reasons_def)
  have gpur: "reader_reasons (gr_unavailable_reasons (NullGpuReader ''headless'')) w =
      (Inr [(''gpu'', ''headless'')], w)" for w
    by (simp add: NullGpuReader_def gpu_operations_of_def reader_reasons_def null_gpu_reasons_def reported_of_def
        safe_eq cgets_def cbind_def safe_result_def clift_def creturn_def well_formed_reasons_def dict_set_def)
  have parts: "nonneg_number (dt_read_bytes_per_sec blank_disk) = Inr Unsupported"
    "nonneg_number (dt_write_bytes_per_sec blank_disk) = Inr Unsupported" by (rule blank_parts)+
  have diag: "record_diagnostics quiet_collector
      [(''cpu_percent'', Num (PInt 50)), (''load_average_1m'', Num (PInt 2)),
       (''ram_used_bytes'', Num (PInt 2)), (''ram_available_bytes'', Num (PInt 6)),
       (''ram_total_bytes'', Num (PInt 8)), (''cpu_temperature_c'', Unsupported),
       (''disk_read_bytes_per_sec'', Unsupported), (''disk_write_bytes_per_sec'', Unsupported),
       (''process_rss_bytes'', Num (PInt 3))] [] ((), []) =
      (Inr (ts_reasons quiet_snapshot), ((), ts_reasons quiet_snapshot))"
    by (simp add: record_diagnostics_def host quiet_host_def none gpu gpur cbind_apply comp_runs
        dict_setdefault_def dict_set_def dict_get_def live_reasons_def dict_update_def quiet_snapshot_def)
  have "dict_sorted (ts_reasons quiet_snapshot) = ts_reasons quiet_snapshot"
    by (simp add: quiet_snapshot_def dict_sorted_def)
  then have "assemble_snapshot quiet_collector (utc_instant 5) (Num (PInt 50)) (Num (PInt 2))
      \<lparr>mr_total_bytes = ONum (PInt 8), mr_available_bytes = ONum (PInt 6), mr_used_bytes = ONum (PInt 2)\<rparr>
      Unsupported blank_disk (Num (PInt 3)) [] ((), []) =
      (Inr quiet_snapshot, ((), ts_reasons quiet_snapshot))"
    by (simp add: assemble_snapshot_def cbind_apply comp_runs quiet_numbers parts diag make_snapshot_def
        utc_instant_def) (simp add: quiet_snapshot_def utc_instant_def)
  then show ?thesis
    by (simp add: collect_snapshot_def cbind_apply quiet_timestamp host gpu sample norm quiet_host_def
        read_number_return read_instance_return read_boundary_return quiet_numbers comp_runs)
      (simp add: quiet_snapshot_def)
qed



section \<open>Faults of the clock and of numbers\<close>

text \<open>
  A clock that raises stamps the epoch: the fallback to \<open>utc_now\<close> is only tried for a value that
  is not a valid timestamp. An integer no float can hold is not turned into the unsupported sentinel.
\<close>

lemma raising_clock_stamps_epoch:
  assumes "cl_clock cl w = (Inl e, w')" "ordinary e"
  shows "timestamp cl (w, rs) = (Inr fallback_instant, (w', dict_set ''timestamp'' ''reader_error'' rs))"
proof -
  have "safely (cl_clock cl) w = (Inr None, w')"
    using assms by (simp add: safely_def safe_def safe_call_def cmap_def comp_defs)
  then have raw: "read_boundary (cl_clock cl) (Some fallback_instant) [''timestamp''] (w, rs) =
      (Inr (Some fallback_instant), (w', dict_set ''timestamp'' ''reader_error'' rs))"
    by (simp add: read_boundary_def reading_def noting_def comp_defs set_reason_def)
  have utc: "astimezone_utc off fallback_instant = Inr fallback_instant" for off
    by (simp add: astimezone_utc_def fallback_instant_def utc_instant_def min_datetime_us_def max_datetime_us_def)
  show ?thesis
    by (simp add: timestamp_def Let_def cbind_apply raw utc)
      (simp add: utc [unfolded fallback_instant_def utc_instant_def] fallback_instant_def utc_instant_def safe_result_def
        safely_def safe_def safe_call_def cmap_def comp_defs)
qed

lemma huge_integer_escapes:
  "float_of_int k = Inl OverflowError \<Longrightarrow> collector_number (ONum (PInt k)) lo hi = Inl OverflowError"
  by (simp add: collector_number_def)

end
