(* ===== verification/Window.thy ===== *)
theory Window
  imports Gpu_Contract
begin

text \<open>
  src/sweatmeter/window.py: a chronological series of snapshots and the per-device figures derived
  from it. Instants form a linear order of their own; the zone of a timestamp is taken to have one
  offset throughout a series, as the UTC timestamps of the collector have.
\<close>

section \<open>Instants\<close>

datatype instant = Instant (microseconds: int)

instantiation instant :: linorder
begin

definition less_eq_instant :: "instant \<Rightarrow> instant \<Rightarrow> bool" where
  "a \<le> b \<longleftrightarrow> microseconds a \<le> microseconds b"

definition less_instant :: "instant \<Rightarrow> instant \<Rightarrow> bool" where
  "a < b \<longleftrightarrow> microseconds a < microseconds b"

instance
  by standard (auto simp: less_eq_instant_def less_instant_def intro: instant.expand)

end

definition taken_at :: "snapshot \<Rightarrow> instant" where
  "taken_at s = Instant (instant_us (ts_timestamp s))"

section \<open>Metrics and verdicts\<close>

datatype window_metric = PEAK_VRAM_BYTES | MEAN_POWER_WATTS | ENERGY_JOULES | MAX_TEMPERATURE_C
  | SUSPECTED_THROTTLING

definition metric_names :: "(string \<times> window_metric) list" where
  "metric_names =
     [(''peak_vram_bytes'', PEAK_VRAM_BYTES), (''mean_power_watts'', MEAN_POWER_WATTS),
      (''energy_joules'', ENERGY_JOULES), (''max_temperature_c'', MAX_TEMPERATURE_C),
      (''suspected_throttling'', SUSPECTED_THROTTLING)]"

text \<open>\<open>WindowMetric(metric)\<close>: a member is the string of its value.\<close>

definition metric_of :: "obj \<Rightarrow> window_metric result" where
  "metric_of v =
     (case v of
        OStr t \<Rightarrow> (case map_of metric_names t of None \<Rightarrow> Inl ValidationError | Some m \<Rightarrow> Inr m)
      | _ \<Rightarrow> Inl ValidationError)"

datatype throttle_state = Suspected | NotSuspected | UnknownState

record throttle_verdict =
  tv_gpu_index :: int
  tv_verdict :: throttle_state
  tv_reason :: string
  tv_confidence :: pynum
  tv_supported_samples :: int

definition natural_number :: "obj \<Rightarrow> int result" where
  "natural_number v =
     (case v of ONum (PInt n) \<Rightarrow> if n < 0 then Inl ValidationError else Inr n | _ \<Rightarrow> Inl ValidationError)"

text \<open>\<open>ThrottleVerdict\<close> and its \<open>__post_init__\<close>; \<open>None\<close> is no \<open>ThrottleState\<close>.\<close>

definition ThrottleVerdict ::
  "obj \<Rightarrow> throttle_state option \<Rightarrow> obj \<Rightarrow> obj \<Rightarrow> obj \<Rightarrow> throttle_verdict result" where
  "ThrottleVerdict gpu_index verdict reason confidence supported =
     ebind (natural_number gpu_index) (\<lambda>index.
     case verdict of None \<Rightarrow> Inl ValidationError | Some state \<Rightarrow>
     (case reason of
        OStr t \<Rightarrow>
          if strip t = [] then Inl ValidationError
          else
            (case confidence of
               ONum c \<Rightarrow>
                 if \<not> (num_le (PFlt (Fin 0)) c \<and> num_le c (PFlt (Fin 1))) then Inl ValidationError
                 else ebind (natural_number supported) (\<lambda>n.
                   Inr \<lparr>tv_gpu_index = index, tv_verdict = state, tv_reason = t, tv_confidence = c,
                        tv_supported_samples = n\<rparr>)
             | _ \<Rightarrow> Inl ValidationError)
      | _ \<Rightarrow> Inl ValidationError))"

definition verdict_suspected :: "throttle_verdict \<Rightarrow> bool option" where
  "verdict_suspected v =
     (if tv_verdict v = UnknownState then None else Some (tv_verdict v = Suspected))"

definition validate_gpu_index :: "obj \<Rightarrow> int result" where
  "validate_gpu_index v = natural_number v"

section \<open>The window\<close>

record window =
  tw_samples :: "snapshot list"

fun all_snapshots :: "snapshot option list \<Rightarrow> snapshot list result" where
  "all_snapshots [] = Inr []"
| "all_snapshots (None # xs) = Inl ValidationError"
| "all_snapshots (Some s # xs) = emap ((#) s) (all_snapshots xs)"

definition TelemetryWindow :: "snapshot option list \<Rightarrow> window result" where
  "TelemetryWindow samples = emap (\<lambda>copied. \<lparr>tw_samples = sort_key taken_at copied\<rparr>) (all_snapshots samples)"

definition sample_count :: "window \<Rightarrow> nat" where
  "sample_count w = length (tw_samples w)"

definition device_in :: "int \<Rightarrow> snapshot \<Rightarrow> gpu_sample option" where
  "device_in index s = find (\<lambda>gpu. gs_index gpu = index) (ts_gpus s)"

definition gpu_samples :: "window \<Rightarrow> obj \<Rightarrow> gpu_sample list result" where
  "gpu_samples w gpu_index =
     emap (\<lambda>index. List.map_filter (device_in index) (tw_samples w)) (validate_gpu_index gpu_index)"

fun supported_number :: "measurement \<Rightarrow> pynum option" where
  "supported_number Unsupported = None"
| "supported_number (Num v) = Some v"

definition measurements :: "window \<Rightarrow> obj \<Rightarrow> gpu_field \<Rightarrow> pynum list result" where
  "measurements w gpu_index field =
     emap (List.map_filter (\<lambda>g. supported_number (gpu_get field g))) (gpu_samples w gpu_index)"

text \<open>\<open>max(values) if values else UNSUPPORTED\<close>\<close>

fun largest :: "pynum list \<Rightarrow> measurement" where
  "largest [] = Unsupported"
| "largest (v # vs) = Num (num_max_list v vs)"

definition peak_vram_bytes :: "window \<Rightarrow> obj \<Rightarrow> measurement result" where
  "peak_vram_bytes w gpu_index = emap largest (measurements w gpu_index VramUsed)"

definition max_temperature_c :: "window \<Rightarrow> obj \<Rightarrow> measurement result" where
  "max_temperature_c w gpu_index = emap largest (measurements w gpu_index Temperature)"

definition mean_power_watts :: "window \<Rightarrow> obj \<Rightarrow> measurement result" where
  "mean_power_watts w gpu_index =
     ebind (measurements w gpu_index Power) (\<lambda>vs.
       if vs = [] then Inr Unsupported
       else emap Num (ebind (py_sum vs) (\<lambda>total_watts. num_div total_watts (PInt (int (length vs))))))"

section \<open>Energy\<close>

text \<open>One interval: nothing, an exception, or its term.\<close>

definition energy_term :: "int \<Rightarrow> snapshot \<times> snapshot \<Rightarrow> pyfloat list result" where
  "energy_term index pair =
     (case pair of (current, following) \<Rightarrow>
        let elapsed = total_seconds (ts_timestamp current) (ts_timestamp following) in
        if flt_le elapsed (Fin 0) then Inr []
        else case device_in index current of
               None \<Rightarrow> Inr []
             | Some gpu \<Rightarrow>
                 (case gs_power_watts gpu of
                    Unsupported \<Rightarrow> Inr []
                  | Num p \<Rightarrow> emap (\<lambda>x. [fmul x elapsed]) (to_float p)))"

definition energy_terms :: "window \<Rightarrow> obj \<Rightarrow> pyfloat list result" where
  "energy_terms w gpu_index =
     ebind (validate_gpu_index gpu_index) (\<lambda>index.
       emap concat (etraverse (energy_term index) (pairwise (tw_samples w))))"

definition energy_joules :: "window \<Rightarrow> obj \<Rightarrow> measurement result" where
  "energy_joules w gpu_index =
     ebind (energy_terms w gpu_index) (\<lambda>terms.
       if terms = [] then Inr Unsupported else emap Num (py_sum (map PFlt terms)))"

section \<open>Throttling\<close>

definition retained_fraction :: pynum where
  "retained_fraction = PFlt (fsub (Fin 1) (rnd64 (15 / 100)))"

fun substantial_clock_drop :: "pynum option \<Rightarrow> gpu_sample list \<Rightarrow> gpu_sample option result" where
  "substantial_clock_drop maximum [] = Inr None"
| "substantial_clock_drop maximum (g # gs) =
     (case gs_core_clock_mhz g of
        Unsupported \<Rightarrow> substantial_clock_drop maximum gs
      | Num clock \<Rightarrow>
          (case maximum of
             None \<Rightarrow> substantial_clock_drop (Some clock) gs
           | Some m \<Rightarrow>
               ebind (num_mul m retained_fraction) (\<lambda>bound.
                 if num_le clock bound then Inr (Some g)
                 else substantial_clock_drop (Some (num_max m clock)) gs)))"

definition supported_and :: "measurement \<Rightarrow> (pynum \<Rightarrow> bool) \<Rightarrow> bool" where
  "supported_and m P \<longleftrightarrow> (case m of Unsupported \<Rightarrow> False | Num v \<Rightarrow> P v)"

text \<open>\<open>drop.power_watts / drop.power_limit_watts >= _POWER_LIMIT_FRACTION\<close> behind its guards.\<close>

definition near_power_limit :: "gpu_sample \<Rightarrow> bool result" where
  "near_power_limit g =
     (case (gs_power_watts g, gs_power_limit_watts g) of
        (Num p, Num l) \<Rightarrow>
          if num_less (PInt 0) l
          then emap (\<lambda>q. num_le (PFlt (rnd64 (95 / 100))) q) (num_div p l)
          else Inr False
      | _ \<Rightarrow> Inr False)"

definition drop_verdict :: "gpu_sample \<Rightarrow> (throttle_state \<times> string \<times> pyfloat) result" where
  "drop_verdict g =
     (if supported_and (gs_temperature_c g) (num_le (PFlt (Fin 80)))
      then Inr (Suspected, ''clock_drop_with_high_temperature'', rnd64 (8 / 10))
      else ebind (near_power_limit g) (\<lambda>near.
        if near then Inr (Suspected, ''clock_drop_near_power_limit'', rnd64 (75 / 100))
        else if supported_and (gs_utilization_percent g) (\<lambda>u. num_le u (PFlt (Fin 50)))
        then Inr (NotSuspected, ''clock_drop_with_low_utilization'', rnd64 (75 / 100))
        else Inr (UnknownState, ''clock_drop_without_correlating_evidence'', rnd64 (25 / 100))))"

definition clock_verdict ::
  "int \<Rightarrow> gpu_sample list \<Rightarrow> gpu_sample list \<Rightarrow> throttle_verdict result" where
  "clock_verdict gpu_index samples reported =
     ebind (substantial_clock_drop None samples) (\<lambda>drop.
     let count = length (filter (\<lambda>g. is_supported (gs_core_clock_mhz g)) samples) in
     ebind
       (if count < 2 then Inr (UnknownState, ''insufficient_clock_data'', Fin 0, count)
        else case drop of
          None \<Rightarrow>
            if reported \<noteq> [] \<and> length reported = length samples
            then Inr (NotSuspected, ''driver_reported_no_throttling'', rnd64 (95 / 100), length reported)
            else Inr (NotSuspected, ''no_substantial_clock_drop'', rnd64 (6 / 10), count)
        | Some g \<Rightarrow> emap (\<lambda>(state, reason, confidence). (state, reason, confidence, count)) (drop_verdict g))
       (\<lambda>(state, reason, confidence, n).
          ThrottleVerdict (ONum (PInt gpu_index)) (Some state) (OStr reason) (ONum (PFlt confidence))
            (ONum (PInt (int n)))))"

definition active_reasons :: "gpu_sample list \<Rightarrow> string list" where
  "active_reasons reported =
     sorted_list_of_set {r \<in> set (concat (map gs_throttle_reasons reported)). r \<noteq> ''gpu_idle''}"

definition suspected_throttling :: "window \<Rightarrow> obj \<Rightarrow> throttle_verdict result" where
  "suspected_throttling w gpu_index =
     ebind (validate_gpu_index gpu_index) (\<lambda>index.
     ebind (gpu_samples w (ONum (PInt index))) (\<lambda>samples.
     let reported = filter gs_throttle_reasons_available samples;
         active = active_reasons reported in
     if active \<noteq> []
     then ThrottleVerdict (ONum (PInt index)) (Some Suspected)
            (OStr (''driver_reported:'' @ join '','' active)) (ONum (PFlt (Fin 1)))
            (ONum (PInt (int (length reported))))
     else clock_verdict index samples reported))"

definition supported_sample_count :: "window \<Rightarrow> obj \<Rightarrow> obj \<Rightarrow> int result" where
  "supported_sample_count w metric gpu_index =
     ebind (metric_of metric) (\<lambda>selected.
       case selected of
         PEAK_VRAM_BYTES \<Rightarrow> emap (int \<circ> length) (measurements w gpu_index VramUsed)
       | MEAN_POWER_WATTS \<Rightarrow> emap (int \<circ> length) (measurements w gpu_index Power)
       | ENERGY_JOULES \<Rightarrow> emap (int \<circ> length) (energy_terms w gpu_index)
       | MAX_TEMPERATURE_C \<Rightarrow> emap (int \<circ> length) (measurements w gpu_index Temperature)
       | SUSPECTED_THROTTLING \<Rightarrow> emap tv_supported_samples (suspected_throttling w gpu_index))"

section \<open>Chronology\<close>

lemma all_snapshots_cases:
  "all_snapshots samples =
     (if None \<in> set samples then Inl ValidationError else Inr (map the samples))"
  by (induction samples rule: all_snapshots.induct) auto

text \<open>
  C15: a window is the stable chronological rearrangement of its input. It is built exactly when
  every element is a snapshot; it keeps every snapshot with its multiplicity, orders them by
  instant, and leaves snapshots of the same instant in the order they came in.
\<close>

theorem window_chronological:
  "case TelemetryWindow samples of
     Inl e \<Rightarrow> e = ValidationError \<and> None \<in> set samples
   | Inr w \<Rightarrow>
       mset (map Some (tw_samples w)) = mset samples
       \<and> sorted (map taken_at (tw_samples w))
       \<and> map Some (filter (\<lambda>s. taken_at s = t) (tw_samples w)) =
           filter (\<lambda>x. map_option taken_at x = Some t) samples"
proof (cases "None \<in> set samples")
  case False
  define xs where "xs = map the samples"
  have samples: "samples = map Some xs"
    using False unfolding xs_def by (induction samples) auto
  have "map Some (filter (\<lambda>s. taken_at s = t) (sort_key taken_at xs)) =
      filter (\<lambda>x. map_option taken_at x = Some t) samples"
    by (simp add: sort_key_stable samples filter_map comp_def)
  then show ?thesis
    by (simp add: TelemetryWindow_def all_snapshots_cases False xs_def [symmetric] samples)
qed (simp add: TelemetryWindow_def all_snapshots_cases)

text \<open>
  Out-of-order persistence cannot change a figure: two inputs with the same snapshots at
  distinct instants make the same window, whatever order they come in.
\<close>

theorem window_order_independent:
  assumes "mset xs = mset ys" "distinct (map taken_at xs)"
  shows "TelemetryWindow (map Some xs) = TelemetryWindow (map Some ys)"
proof -
  have "inj_on taken_at (set xs)" using assms(2) by (simp add: distinct_map)
  moreover have "sorted (map taken_at (sort_key taken_at ys))" by simp
  moreover have "mset xs = mset (sort_key taken_at ys)" using assms(1) by simp
  ultimately have "sort_key taken_at xs = sort_key taken_at ys"
    by (intro sort_key_inj_key_eq)
  then show ?thesis by (simp add: TelemetryWindow_def all_snapshots_cases comp_def)
qed

section \<open>Figures and their evidence\<close>

lemma largest_maximum:
  assumes "\<forall>v \<in> set vs. \<not> num_is_nan v"
  shows "case largest vs of
     Unsupported \<Rightarrow> vs = []
   | Num m \<Rightarrow> m \<in> set vs \<and> (\<forall>v \<in> set vs. num_le v m)"
proof (cases vs)
  case (Cons v ws)
  then show ?thesis
    using num_max_list_in [of v ws] num_max_list_upper [of v ws] assms by auto
qed simp

text \<open>
  C16: the peak figures are maxima. Unless a reading is NaN, the peak of a device is one of its
  supported readings and no supported reading is greater; it is unsupported exactly when there is
  no supported reading.
\<close>

theorem peak_is_maximum:
  assumes "measurements w index VramUsed = Inr vs" "\<forall>v \<in> set vs. \<not> num_is_nan v"
    and "measurements w index Temperature = Inr ts" "\<forall>t \<in> set ts. \<not> num_is_nan t"
  shows "(case peak_vram_bytes w index of
            Inr (Num m) \<Rightarrow> m \<in> set vs \<and> (\<forall>v \<in> set vs. num_le v m)
          | r \<Rightarrow> r = Inr Unsupported \<and> vs = [])
    \<and> (case max_temperature_c w index of
            Inr (Num m) \<Rightarrow> m \<in> set ts \<and> (\<forall>t \<in> set ts. num_le t m)
          | r \<Rightarrow> r = Inr Unsupported \<and> ts = [])"
  using largest_maximum [OF assms(2)] largest_maximum [OF assms(4)]
  by (auto simp: peak_vram_bytes_def max_temperature_c_def assms split: measurement.splits)

lemma etraverse_length: "etraverse f xs = Inr ys \<Longrightarrow> length ys = length xs"
  by (auto simp: etraverse_Inr_iff dest: list_all2_lengthD)

lemma energy_term_length: "energy_term index pair = Inr ts \<Longrightarrow> length ts \<le> Suc 0"
  by (auto simp: energy_term_def Let_def emap_Inr_iff split: prod.splits if_splits option.splits measurement.splits)

lemma energy_terms_length:
  assumes "energy_terms w v = Inr ts"
  shows "length ts \<le> sample_count w - 1"
proof -
  from assms obtain index yss where ys: "etraverse (energy_term index) (pairwise (tw_samples w)) = Inr yss"
    and ts: "ts = concat yss"
    by (auto simp: energy_terms_def ebind_Inr_iff emap_Inr_iff)
  then have "list_all (\<lambda>y. length y \<le> Suc 0) yss"
    by (auto simp: etraverse_Inr_iff list_all2_conv_all_nth list_all_length intro: energy_term_length)
  then have "length (concat yss) \<le> length yss" by (induction yss) auto
  with etraverse_length [OF ys] show ?thesis by (simp add: ts sample_count_def)
qed

definition evidence :: "window \<Rightarrow> obj \<Rightarrow> string \<Rightarrow> measurement result \<Rightarrow> bool" where
  "evidence w index metric figure =
     (case (figure, supported_sample_count w (OStr metric) index) of
        (Inr m, Inr n) \<Rightarrow> (m = Unsupported) = (n = 0) \<and> 0 \<le> n \<and> n \<le> int (sample_count w)
      | (Inr _, Inl _) \<Rightarrow> False
      | (Inl e, c) \<Rightarrow> (e = ValidationError) = (c = Inl ValidationError))"

lemma float_of_int_error: "float_of_int n = Inl e \<Longrightarrow> e = OverflowError"
  by (auto simp: float_of_int_def split: pyfloat.splits)

lemma to_float_error: "to_float v = Inl e \<Longrightarrow> e = OverflowError"
  by (cases v) (auto dest: float_of_int_error)

lemma sum_float_error: "sum_float f c xs = Inl e \<Longrightarrow> e = OverflowError"
  by (induction f c xs rule: sum_float.induct) (auto simp: Let_def ebind_Inl_iff dest: float_of_int_error)

lemma py_sum_error: "py_sum xs = Inl e \<Longrightarrow> e = OverflowError"
proof -
  have "sum_int a xs = Inl e \<Longrightarrow> e = OverflowError" for a
    by (induction a xs rule: sum_int.induct) (auto simp: ebind_Inl_iff dest: float_of_int_error sum_float_error)
  then show "py_sum xs = Inl e \<Longrightarrow> e = OverflowError" by (simp add: py_sum_def)
qed

lemma fdiv_error: "fdiv a b = Inl e \<Longrightarrow> e = ZeroDivisionError"
  by (cases a; cases b) (auto split: if_splits)

lemma emap_Inl: "emap f m = Inl e \<longleftrightarrow> m = Inl e"
  by (cases m) auto

lemma num_div_error: "num_div a b = Inl e \<Longrightarrow> e \<in> {ZeroDivisionError, OverflowError}"
  by (induction a b rule: num_div.induct)
    (auto simp: float_op_def ebind_Inl_iff emap_Inl split: if_splits pyfloat.splits
      dest: to_float_error fdiv_error float_of_int_error)

lemma natural_number_cases:
  obtains n where "v = ONum (PInt n)" "0 \<le> n" "natural_number v = Inr n"
  | "natural_number v = Inl ValidationError"
proof -
  have "natural_number v = Inl ValidationError \<or> (\<exists>n. 0 \<le> n \<and> v = ONum (PInt n))"
    by (auto simp: natural_number_def split: obj.splits pynum.splits)
  then show thesis using that by (auto simp: natural_number_def)
qed

lemma length_map_filter: "length (List.map_filter f xs) \<le> length xs"
  by (simp add: List.map_filter_def)

lemma measurements_length: "measurements w v f = Inr vs \<Longrightarrow> length vs \<le> sample_count w"
  by (auto simp: measurements_def gpu_samples_def emap_Inr_iff sample_count_def
      intro: order_trans [OF length_map_filter length_map_filter])

lemma energy_error: "energy_terms w v = Inl e \<Longrightarrow> e = OverflowError \<or> e = ValidationError \<and> natural_number v = Inl e"
proof -
  have step: "energy_term index pair = Inl e \<Longrightarrow> e = OverflowError" for index pair
    by (auto simp: energy_term_def Let_def split: prod.splits if_splits option.splits measurement.splits)
      (metis emap_Inl to_float_error)
  have "etraverse (energy_term index) ps = Inl e \<Longrightarrow> e = OverflowError" for index ps
  proof (induction ps)
    case (Cons p ps)
    show ?case
    proof (cases "energy_term index p")
      case (Inr x)
      with Cons show ?thesis by (cases "etraverse (energy_term index) ps") auto
    qed (use Cons step in auto)
  qed simp
  then show "energy_terms w v = Inl e \<Longrightarrow> e = OverflowError \<or> e = ValidationError \<and> natural_number v = Inl e"
    by (cases rule: natural_number_cases [of v])
      (auto simp: energy_terms_def validate_gpu_index_def ebind_Inl_iff emap_Inl)
qed

lemma metric_of_simps [simp]:
  "metric_of (OStr ''peak_vram_bytes'') = Inr PEAK_VRAM_BYTES"
  "metric_of (OStr ''mean_power_watts'') = Inr MEAN_POWER_WATTS"
  "metric_of (OStr ''energy_joules'') = Inr ENERGY_JOULES"
  "metric_of (OStr ''max_temperature_c'') = Inr MAX_TEMPERATURE_C"
  "metric_of (OStr ''suspected_throttling'') = Inr SUSPECTED_THROTTLING"
  by (simp_all add: metric_of_def metric_names_def)

lemma measurements_cases:
  obtains vs where "measurements w v f = Inr vs" "length vs \<le> sample_count w"
  | "measurements w v f = Inl ValidationError"
proof (cases "measurements w v f")
  case (Inl e)
  then have "e = ValidationError"
    by (cases rule: natural_number_cases [of v])
      (auto simp: measurements_def gpu_samples_def validate_gpu_index_def)
  with Inl that(2) show thesis by simp
next
  case (Inr vs)
  with measurements_length that(1) show thesis by blast
qed

lemma evidence_largest:
  assumes "figure = emap largest (measurements w v f)"
    and "supported_sample_count w (OStr metric) v = emap (int \<circ> length) (measurements w v f)"
  shows "evidence w v metric figure"
  using assms
  by (cases rule: measurements_cases [of w v f])
    (auto simp: evidence_def split: measurement.splits elim: largest.elims)

lemma evidence_mean: "evidence w v ''mean_power_watts'' (mean_power_watts w v)"
proof (cases rule: measurements_cases [of w v Power])
  case (1 vs)
  show ?thesis
  proof (cases "vs = []")
    case False
    show ?thesis
    proof (cases "ebind (py_sum vs) (\<lambda>total_watts. num_div total_watts (PInt (int (length vs))))")
      case (Inl e)
      then have "e \<noteq> ValidationError"
        using num_div_error py_sum_error by (fastforce simp: ebind_Inl_iff)
      with 1 Inl False show ?thesis by (simp add: evidence_def mean_power_watts_def supported_sample_count_def)
    qed (use 1 False in \<open>simp add: evidence_def mean_power_watts_def supported_sample_count_def\<close>)
  qed (use 1 in \<open>simp add: evidence_def mean_power_watts_def supported_sample_count_def\<close>)
qed (simp add: evidence_def mean_power_watts_def supported_sample_count_def)

lemma evidence_energy: "evidence w v ''energy_joules'' (energy_joules w v)"
proof (cases "energy_terms w v")
  case (Inl e)
  then show ?thesis using energy_error [of w v e]
    by (auto simp: evidence_def energy_joules_def supported_sample_count_def)
next
  case (Inr ts)
  show ?thesis
  proof (cases "ts = []")
    case False
    then obtain x where "py_sum (map PFlt ts) = Inr (PFlt x)" using py_sum_floats by blast
    with Inr False energy_terms_length [OF Inr] show ?thesis
      by (simp add: evidence_def energy_joules_def supported_sample_count_def)
  qed (use Inr in \<open>simp add: evidence_def energy_joules_def supported_sample_count_def\<close>)
qed


section \<open>Devices stay apart\<close>

definition only_device :: "int \<Rightarrow> snapshot \<Rightarrow> snapshot" where
  "only_device index s = s\<lparr>ts_gpus := filter (\<lambda>g. gs_index g = index) (ts_gpus s)\<rparr>"

definition restricted :: "int \<Rightarrow> window \<Rightarrow> window" where
  "restricted index w = \<lparr>tw_samples = map (only_device index) (tw_samples w)\<rparr>"

lemma device_only [simp]: "device_in index (only_device index s) = device_in index s"
proof -
  have "find (\<lambda>g. gs_index g = index) (filter (\<lambda>g. gs_index g = index) gs) = find (\<lambda>g. gs_index g = index) gs" for gs
    by (induction gs) (auto simp: find_None_all)
  then show ?thesis by (simp add: device_in_def only_device_def)
qed

lemma only_timestamp [simp]: "ts_timestamp (only_device index s) = ts_timestamp s"
  by (simp add: only_device_def)

lemma pairwise_map: "pairwise (map f xs) = map (map_prod f f) (pairwise xs)"
  by (induction xs rule: pairwise.induct) auto

lemma gpu_samples_restricted: "gpu_samples (restricted index w) (ONum (PInt index)) = gpu_samples w (ONum (PInt index))"
  by (cases "natural_number (ONum (PInt index))")
    (auto simp: gpu_samples_def restricted_def validate_gpu_index_def natural_number_def List.map_filter_def
      filter_map comp_def split: if_splits)

lemma energy_terms_restricted: "energy_terms (restricted index w) (ONum (PInt index)) = energy_terms w (ONum (PInt index))"
proof -
  have "energy_term index (map_prod (only_device index) (only_device index) p) = energy_term index p" for p
    by (cases p) (simp add: energy_term_def Let_def cong: option.case_cong measurement.case_cong)
  then have "etraverse (energy_term index) (map (map_prod (only_device index) (only_device index)) ps) =
      etraverse (energy_term index) ps" for ps
    by (induction ps) auto
  then show ?thesis
    by (simp add: energy_terms_def restricted_def validate_gpu_index_def natural_number_def pairwise_map)
qed

text \<open>
  C13: devices are never mixed. Removing every other device from every snapshot changes no figure,
  no verdict and no evidence count of a device.
\<close>

theorem devices_isolated:
  "peak_vram_bytes (restricted index w) (ONum (PInt index)) = peak_vram_bytes w (ONum (PInt index))
   \<and> mean_power_watts (restricted index w) (ONum (PInt index)) = mean_power_watts w (ONum (PInt index))
   \<and> energy_joules (restricted index w) (ONum (PInt index)) = energy_joules w (ONum (PInt index))
   \<and> max_temperature_c (restricted index w) (ONum (PInt index)) = max_temperature_c w (ONum (PInt index))
   \<and> suspected_throttling (restricted index w) (ONum (PInt index)) = suspected_throttling w (ONum (PInt index))
   \<and> supported_sample_count (restricted index w) metric (ONum (PInt index)) =
       supported_sample_count w metric (ONum (PInt index))"
proof -
  have v: "suspected_throttling (restricted index w) (ONum (PInt index)) = suspected_throttling w (ONum (PInt index))"
    using gpu_samples_restricted [of index w]
    by (simp add: suspected_throttling_def validate_gpu_index_def natural_number_def)
  show ?thesis
    by (simp add: v peak_vram_bytes_def mean_power_watts_def energy_joules_def max_temperature_c_def
        measurements_def gpu_samples_restricted energy_terms_restricted supported_sample_count_def
        cong: window_metric.case_cong)
qed

section \<open>Energy without rounding\<close>

text \<open>The exact left-rectangle terms, in watts times seconds.\<close>

definition exact_seconds :: "snapshot \<Rightarrow> snapshot \<Rightarrow> rat" where
  "exact_seconds a b =
     of_int (instant_us (ts_timestamp b) - instant_us (ts_timestamp a)) / 1000000"

definition exact_term :: "int \<Rightarrow> snapshot \<times> snapshot \<Rightarrow> rat list" where
  "exact_term index pair =
     (case pair of (current, following) \<Rightarrow>
        if exact_seconds current following \<le> 0 then []
        else case device_in index current of
               None \<Rightarrow> []
             | Some gpu \<Rightarrow>
                 (case gs_power_watts gpu of
                    Num p \<Rightarrow> (case num_val p of Fin x \<Rightarrow> [x * exact_seconds current following] | _ \<Rightarrow> [])
                  | Unsupported \<Rightarrow> []))"

definition exact_terms :: "int \<Rightarrow> window \<Rightarrow> rat list" where
  "exact_terms index w = concat (map (exact_term index) (pairwise (tw_samples w)))"

text \<open>The readings, the elapsed times and each product are doubles.\<close>

definition is_double :: "rat \<Rightarrow> bool" where
  "is_double x \<longleftrightarrow> rnd64 x = Fin x"

definition exact_interval :: "int \<Rightarrow> snapshot \<times> snapshot \<Rightarrow> bool" where
  "exact_interval index pair =
     (case pair of (current, following) \<Rightarrow>
        is_double (exact_seconds current following)
        \<and> (case device_in index current of
             None \<Rightarrow> True
           | Some gpu \<Rightarrow>
               (case gs_power_watts gpu of
                  Unsupported \<Rightarrow> True
                | Num p \<Rightarrow>
                    (case num_val p of
                       Fin x \<Rightarrow> is_double x \<and> is_double (x * exact_seconds current following)
                     | _ \<Rightarrow> False))))"

lemma to_float_double: "num_val p = Fin x \<Longrightarrow> is_double x \<Longrightarrow> to_float p = Inr (Fin x)"
  by (cases p) (auto simp: is_double_def float_of_int_def)

lemma energy_term_exact:
  assumes "exact_interval index pair"
  shows "energy_term index pair = Inr (map Fin (exact_term index pair))"
proof -
  obtain a b where pair: "pair = (a, b)" by (cases pair)
  have s: "total_seconds (ts_timestamp a) (ts_timestamp b) = Fin (exact_seconds a b)"
    using assms by (simp add: pair exact_interval_def total_seconds_def exact_seconds_def is_double_def)
  show ?thesis
  proof (cases "exact_seconds a b \<le> 0 \<or> device_in index a = None")
    case True
    then show ?thesis by (auto simp: pair energy_term_def exact_term_def s)
  next
    case False
    then obtain g where g: "device_in index a = Some g" by auto
    show ?thesis
    proof (cases "gs_power_watts g")
      case Unsupported
      with False g show ?thesis by (simp add: pair energy_term_def exact_term_def s)
    next
      case (Num p)
      with assms g obtain x where x: "num_val p = Fin x" "is_double x" "is_double (x * exact_seconds a b)"
        by (auto simp: pair exact_interval_def split: pyfloat.splits)
      from False g Num to_float_double [OF x(1,2)] x show ?thesis
        by (simp add: pair energy_term_def exact_term_def s is_double_def)
    qed
  qed
qed

text \<open>
  C12: energy is exact when nothing has to be rounded. If the elapsed times, the readings and their
  products are doubles and the products are multiples of one power of two whose absolute sum stays
  below 2 ^ 53 steps, the estimate is the left-rectangle sum of power by actual elapsed time, with no
  rounding error at all.
\<close>

theorem energy_exact:
  assumes "0 \<le> index" "list_all (exact_interval index) (pairwise (tw_samples w))"
    and "grid_exp e" "exact_terms index w = map (\<lambda>k. of_int k * pow2 e) ks"
    and "ks \<noteq> []" "sum_list (map abs ks) < 2 ^ 53"
  shows "energy_joules w (ONum (PInt index)) = Inr (Num (PFlt (Fin (sum_list (exact_terms index w)))))"
proof -
  have "etraverse (energy_term index) ps = Inr (map (\<lambda>p. map Fin (exact_term index p)) ps)"
    if "list_all (exact_interval index) ps" for ps
    using that by (induction ps) (auto simp: energy_term_exact)
  from this [OF assms(2)] have "energy_terms w (ONum (PInt index)) = Inr (map Fin (exact_terms index w))"
    using assms(1) by (simp add: energy_terms_def validate_gpu_index_def natural_number_def exact_terms_def
        map_concat comp_def)
  moreover have "Fin \<circ> (\<lambda>k. of_int k * pow2 e) = on_grid e"
    by (simp add: on_grid_def fun_eq_iff)
  moreover have "on_grid e (sum_list ks) = Fin (sum_list (exact_terms index w))"
    unfolding assms(4) on_grid_def by (induction ks) (simp_all add: distrib_right)
  ultimately show ?thesis
    using py_sum_grid [OF assms(3,5,6)] assms(5) by (simp add: energy_joules_def assms(4))
qed

section \<open>Clock drops\<close>

text \<open>A float of the model that is a double, a non-negative finite number that is one.\<close>

definition genuine :: "pynum \<Rightarrow> bool" where
  "genuine v \<longleftrightarrow> (case v of PFlt (Fin x) \<Rightarrow> is_double x | _ \<Rightarrow> True)"

definition clock_ok :: "pynum \<Rightarrow> bool" where
  "clock_ok v \<longleftrightarrow> number_ok (Fin 0) None v \<and> genuine v"

definition clocks :: "gpu_sample list \<Rightarrow> pynum list" where
  "clocks gs = List.map_filter (\<lambda>g. supported_number (gs_core_clock_mhz g)) gs"

text \<open>At least 15% below: the comparison of the code.\<close>

definition below :: "pynum \<Rightarrow> pynum \<Rightarrow> bool" where
  "below m clock \<longleftrightarrow>
     (case num_mul m retained_fraction of Inr bound \<Rightarrow> num_le clock bound | Inl _ \<Rightarrow> False)"

text \<open>Some reading is at least 15% below an earlier one.\<close>

fun drops :: "pynum list \<Rightarrow> bool" where
  "drops [] = False"
| "drops (c # cs) \<longleftrightarrow> list_ex (below c) cs \<or> drops cs"

lemma clock_ok_float:
  assumes "clock_ok v"
  obtains x where "to_float v = Inr (Fin x)" "0 \<le> x" "num_val v = Fin x \<or> (\<exists>n. v = PInt n \<and> rnd64 (of_int n) = Fin x)"
proof (cases v)
  case (PInt n)
  with assms obtain x where x: "rnd64 (of_int n) = Fin x" "0 \<le> n"
    by (auto simp: clock_ok_def number_ok_def emap_Inr_iff float_of_int_Inr num_le_def)
  then have "0 \<le> x" using rnd64_nonneg [of "of_int n"] by simp
  with that x PInt show thesis by (simp add: float_of_int_def)
next
  case (PFlt f)
  with assms obtain x where "f = Fin x" "0 \<le> x"
    by (auto simp: clock_ok_def number_ok_def num_le_def split: pyfloat.splits)
  with that PFlt show thesis by simp
qed

lemma to_float_mono:
  assumes "clock_ok a" "clock_ok b" "num_le a b" "to_float a = Inr (Fin x)" "to_float b = Inr (Fin y)"
  shows "x \<le> y"
proof -
  have dbl: "rnd64 r = Fin r" if "v = PFlt (Fin r)" "clock_ok v" for v r
    using that by (simp add: clock_ok_def genuine_def is_double_def)
  have val: "\<exists>r. num_val v = Fin r \<and> 0 \<le> r \<and> rnd64 r = Fin z" if "clock_ok v" "to_float v = Inr (Fin z)" for v z
  proof (cases v)
    case (PInt n)
    with that show ?thesis
      by (auto simp: float_of_int_Inr clock_ok_def number_ok_def num_le_def)
  next
    case (PFlt f)
    with that dbl show ?thesis by (auto simp: clock_ok_def number_ok_def num_le_def)
  qed
  from val [OF assms(1,4)] val [OF assms(2,5)] assms(3) obtain r s where
    "rnd64 r = Fin x" "rnd64 s = Fin y" "0 \<le> r" "r \<le> s"
    by (auto simp: num_le_def)
  then show ?thesis using rnd64_mono_nonneg [of r s] by simp
qed

lemma retained_value: "\<exists>k. retained_fraction = PFlt (Fin k) \<and> 0 \<le> k \<and> k \<le> 1"
proof -
  have unit: "\<exists>y. rnd64 x = Fin y \<and> 0 \<le> y \<and> y \<le> 1" if "0 \<le> x" "x \<le> 1" for x
    using rnd64_mono_nonneg [of 0 x] rnd64_mono_nonneg [of x 1] that rnd64_of_int [of 1]
    by (cases "rnd64 x") auto
  obtain y where y: "rnd64 (15 / 100) = Fin y" "0 \<le> y" "y \<le> 1" using unit [of "15 / 100"] by auto
  obtain k where "rnd64 (1 - y) = Fin k" "0 \<le> k" "k \<le> 1" using unit [of "1 - y"] y by auto
  with y show ?thesis by (simp add: retained_fraction_def fsub_def)
qed

lemma below_float:
  assumes "clock_ok m" "to_float m = Inr (Fin x)" "retained_fraction = PFlt (Fin k)"
  shows "num_mul m retained_fraction = Inr (PFlt (rnd64 (x * k)))"
  unfolding assms(3) using assms(2) by (cases m) (auto simp: float_op_def)

lemma retained_returns: "clock_ok m \<Longrightarrow> \<exists>b. num_mul m retained_fraction = Inr b"
  using below_float retained_value clock_ok_float by metis

lemma below_mono:
  assumes "clock_ok p" "clock_ok m" "num_le p m" "below p c"
  shows "below m c"
proof -
  obtain k where k: "retained_fraction = PFlt (Fin k)" "0 \<le> k" using retained_value by blast
  obtain x where x: "to_float p = Inr (Fin x)" "0 \<le> x" using clock_ok_float [OF assms(1)] by metis
  obtain y where y: "to_float m = Inr (Fin y)" using clock_ok_float [OF assms(2)] by metis
  have "x * k \<le> y * k" using to_float_mono [OF assms(1,2,3) x(1) y] k(2) by (rule mult_right_mono)
  then have "flt_le (rnd64 (x * k)) (rnd64 (y * k))"
    using x k by (intro rnd64_mono_nonneg) simp_all
  moreover have "num_le c (PFlt (rnd64 (x * k)))"
    using assms(4) by (simp add: below_def below_float [OF assms(1) x(1) k(1)])
  ultimately show ?thesis
    by (auto simp: below_def below_float [OF assms(2) y k(1)] num_le_def intro: flt_le_trans)
qed

lemma clock_ok_not_nan: "clock_ok v \<Longrightarrow> \<not> num_is_nan v"
  by (auto simp: clock_ok_def number_ok_def num_is_nan_def)

lemma clocks_simps [simp]:
  "clocks [] = []"
  "clocks (g # gs) = (case gs_core_clock_mhz g of Unsupported \<Rightarrow> clocks gs | Num c \<Rightarrow> c # clocks gs)"
  by (auto simp: clocks_def List.map_filter_def split: measurement.split)

text \<open>The loop remembers the greatest clock so far, which is enough by monotonicity.\<close>

lemma drop_after_maximum:
  assumes "list_all clock_ok (clocks gs)" "clock_ok m"
  shows "\<exists>r. substantial_clock_drop (Some m) gs = Inr r
    \<and> (r \<noteq> None \<longleftrightarrow> list_ex (below m) (clocks gs) \<or> drops (clocks gs))
    \<and> (\<forall>g. r = Some g \<longrightarrow> g \<in> set gs)"
  using assms
proof (induction gs arbitrary: m)
  case (Cons g gs)
  show ?case
  proof (cases "gs_core_clock_mhz g")
    case Unsupported
    with Cons.IH [of m] Cons.prems show ?thesis by auto
  next
    case (Num c)
    with Cons.prems have c: "clock_ok c" and rest: "list_all clock_ok (clocks gs)" by auto
    obtain b where b: "num_mul m retained_fraction = Inr b" using retained_returns Cons.prems(2) by blast
    show ?thesis
    proof (cases "num_le c b")
      case True
      then show ?thesis using Num b by (auto simp: below_def)
    next
      case False
      let ?n = "num_max m c"
      have n: "clock_ok ?n" using num_max_in [of m c] c Cons.prems(2) by auto
      have up: "num_le m ?n" "num_le c ?n"
        using num_max_upper [of m c] clock_ok_not_nan c Cons.prems(2) by auto
      have "below ?n x \<longleftrightarrow> below m x \<or> below c x" for x
        using below_mono [OF Cons.prems(2) n up(1)] below_mono [OF c n up(2)] num_max_in [of m c] by auto
      then have "list_ex (below ?n) xs \<longleftrightarrow> list_ex (below m) xs \<or> list_ex (below c) xs" for xs
        by (auto simp: list_ex_iff)
      moreover have "\<not> below m c" using False b by (simp add: below_def)
      ultimately show ?thesis using Cons.IH [OF rest n] Num b False by auto
    qed
  qed
qed simp

lemma drop_exact:
  assumes "list_all clock_ok (clocks gs)"
  shows "\<exists>r. substantial_clock_drop None gs = Inr r \<and> (r \<noteq> None \<longleftrightarrow> drops (clocks gs))
    \<and> (\<forall>g. r = Some g \<longrightarrow> g \<in> set gs)"
  using assms
proof (induction gs)
  case (Cons g gs)
  show ?case
  proof (cases "gs_core_clock_mhz g")
    case (Num c)
    with Cons.prems have "clock_ok c" "list_all clock_ok (clocks gs)" by auto
    from drop_after_maximum [OF this(2,1)] Num show ?thesis by auto
  qed (use Cons in auto)
qed simp

section \<open>Verdicts\<close>

lemma positive_to_float:
  assumes "num_isfinite v = Inr True" "num_less (PInt 0) v"
  obtains x where "to_float v = Inr (Fin x)" "0 < x"
proof (cases v)
  case (PInt n)
  with assms obtain x where x: "rnd64 (of_int n) = Fin x" "0 < n"
    by (auto simp: emap_Inr_iff float_of_int_Inr num_less_def)
  with rnd64_mono_nonneg [of 1 "of_int n"] rnd64_of_int [of 1] have "1 \<le> x" by simp
  with that x PInt show thesis by (simp add: float_of_int_def)
next
  case (PFlt f)
  with assms that show thesis by (auto simp: num_less_def split: pyfloat.splits)
qed

lemma near_limit_returns:
  assumes "gpu_sample_ok g"
  shows "\<exists>b. near_power_limit g = Inr b"
proof (cases "\<exists>p l. gs_power_watts g = Num p \<and> gs_power_limit_watts g = Num l \<and> num_less (PInt 0) l")
  case True
  then obtain p l where pl: "gs_power_watts g = Num p" "gs_power_limit_watts g = Num l" "num_less (PInt 0) l"
    by blast
  have fin: "num_isfinite p = Inr True" "num_isfinite l = Inr True"
    using gpu_sample_okD [OF assms, of Power] gpu_sample_okD [OF assms, of PowerLimit] pl
    by (simp_all add: number_ok_def)
  obtain y where y: "to_float l = Inr (Fin y)" "0 < y" using positive_to_float [OF fin(2) pl(3)] by metis
  have x: "\<exists>x. to_float p = Inr x"
    using fin(1) by (cases p) (auto simp: emap_Inr_iff)
  have "\<exists>q. fdiv a (Fin y) = Inr q" for a
    using y(2) by (cases a) auto
  then have mixed: "\<exists>q. float_op fdiv p l = Inr q"
    using x y by (auto simp: float_op_def) (metis emap.simps(2))
  have "\<exists>q. num_div p l = Inr q"
  proof (cases "\<exists>a b. p = PInt a \<and> l = PInt b")
    case True
    then obtain a b where ab: "p = PInt a" "l = PInt b" by blast
    with fin(1) pl(3) obtain f where "float_of_int a = Inr f" "0 < b"
      by (auto simp: emap_Inr_iff num_less_def)
    then show ?thesis unfolding ab by (rule div_of_convertible)
  next
    case False
    with mixed show ?thesis by (cases p; cases l) auto
  qed
  then show ?thesis using pl by (auto simp: near_power_limit_def)
qed (auto simp: near_power_limit_def split: measurement.split)

lemma drop_verdict_returns:
  assumes "gpu_sample_ok g"
  shows "\<exists>state reason c. drop_verdict g = Inr (state, reason, c) \<and> strip reason \<noteq> []
    \<and> num_le (PFlt (Fin 0)) (PFlt c) \<and> num_le (PFlt c) (PFlt (Fin 1))"
proof -
  have unit: "num_le (PFlt (Fin 0)) (PFlt (rnd64 x)) \<and> num_le (PFlt (rnd64 x)) (PFlt (Fin 1))"
    if "0 \<le> x" "x \<le> 1" for x
    using rnd64_mono_nonneg [of 0 x] rnd64_mono_nonneg [of x 1] that rnd64_of_int [of 1] by (simp add: num_le_def)
  obtain near where "near_power_limit g = Inr near" using near_limit_returns [OF assms] by blast
  then show ?thesis
    by (simp add: drop_verdict_def unit strip_def lstrip_def is_space_def)
qed

lemma ThrottleVerdict_ok:
  assumes "0 \<le> index" "strip reason \<noteq> []" "num_le (PFlt (Fin 0)) c" "num_le c (PFlt (Fin 1))"
  shows "ThrottleVerdict (ONum (PInt index)) (Some state) (OStr reason) (ONum c) (ONum (PInt (int n))) =
    Inr \<lparr>tv_gpu_index = index, tv_verdict = state, tv_reason = reason, tv_confidence = c,
         tv_supported_samples = int n\<rparr>"
  using assms by (simp add: ThrottleVerdict_def natural_number_def)

text \<open>What a verdict says of the readings of its device.\<close>

definition verdict_matches :: "int \<Rightarrow> gpu_sample list \<Rightarrow> throttle_verdict \<Rightarrow> bool" where
  "verdict_matches index gs v \<longleftrightarrow>
     tv_gpu_index v = index \<and> 0 \<le> tv_supported_samples v \<and> tv_supported_samples v \<le> int (length gs)
     \<and> num_le (PFlt (Fin 0)) (tv_confidence v) \<and> num_le (tv_confidence v) (PFlt (Fin 1))
     \<and> (if active_reasons (filter gs_throttle_reasons_available gs) \<noteq> []
        then tv_verdict v = Suspected \<and> tv_confidence v = PFlt (Fin 1)
        else if length (clocks gs) < 2 then tv_verdict v = UnknownState
        else if \<not> drops (clocks gs) then tv_verdict v = NotSuspected
        else list_ex (\<lambda>g. case drop_verdict g of
               Inr (state, reason, c) \<Rightarrow> tv_verdict v = state \<and> tv_reason v = reason | Inl _ \<Rightarrow> False) gs)"

lemma length_clocks: "length (clocks gs) = length (filter (\<lambda>g. is_supported (gs_core_clock_mhz g)) gs)"
  by (induction gs) (auto split: measurement.split)

lemma gpu_samples_Inr: "gpu_samples w (ONum (PInt index)) = Inr gs \<Longrightarrow> 0 \<le> index"
  by (auto simp: gpu_samples_def validate_gpu_index_def natural_number_def split: if_splits)

lemma strip_visible: "c \<in> set s \<Longrightarrow> \<not> is_space c \<Longrightarrow> strip s \<noteq> []"
proof -
  have l: "lstrip t = [] \<longleftrightarrow> (\<forall>x \<in> set t. is_space x)" for t by (simp add: lstrip_def dropWhile_eq_Nil_conv)
  assume c: "c \<in> set s" "\<not> is_space c"
  then have "lstrip s \<noteq> []" by (auto simp: l)
  then have "\<exists>x \<in> set (lstrip s). \<not> is_space x"
    unfolding lstrip_def by (metis hd_dropWhile list.set_sel(1))
  then have "\<exists>x \<in> set (rev (lstrip s)). \<not> is_space x" by simp
  then have "lstrip (rev (lstrip s)) \<noteq> []" by (simp only: l) blast
  then show "strip s \<noteq> []" by (simp add: strip_def)
qed

lemma driver_reason_visible: "strip (''driver_reported:'' @ s) \<noteq> []"
  by (rule strip_visible [of "CHR ''d''"]) (simp_all add: is_space_def)

lemma unit_interval: "0 \<le> x \<Longrightarrow> x \<le> 1 \<Longrightarrow>
    num_le (PFlt (Fin 0)) (PFlt (rnd64 x)) \<and> num_le (PFlt (rnd64 x)) (PFlt (Fin 1))"
  using rnd64_mono_nonneg [of 0 x] rnd64_mono_nonneg [of x 1] rnd64_of_int [of 1] by (simp add: num_le_def)

lemma clock_verdict_matches:
  assumes ok: "list_all gpu_sample_ok gs" "list_all clock_ok (clocks gs)" and "0 \<le> index"
    and none: "active_reasons (filter gs_throttle_reasons_available gs) = []"
  shows "\<exists>v. clock_verdict index gs (filter gs_throttle_reasons_available gs) = Inr v \<and> verdict_matches index gs v"
proof -
  let ?reported = "filter gs_throttle_reasons_available gs"
  obtain r where r: "substantial_clock_drop None gs = Inr r" "r \<noteq> None \<longleftrightarrow> drops (clocks gs)"
    "\<forall>g. r = Some g \<longrightarrow> g \<in> set gs"
    using drop_exact [OF ok(2)] by blast
  have words: "strip ''insufficient_clock_data'' \<noteq> []" "strip ''driver_reported_no_throttling'' \<noteq> []"
    "strip ''no_substantial_clock_drop'' \<noteq> []"
    by (simp_all add: strip_def lstrip_def is_space_def)
  have zero: "num_le (PFlt (Fin 0)) (PFlt (Fin 0))" "num_le (PFlt (Fin 0)) (PFlt (Fin 1))"
    by (simp_all add: num_le_def)
  have count: "length (clocks gs) \<le> length gs" by (simp add: length_clocks)
  have rep: "length ?reported \<le> length gs" by simp
  note made = ThrottleVerdict_ok [OF assms(3)]
  show ?thesis
  proof (cases "length (clocks gs) < 2")
    case True
    then show ?thesis
      using made [OF words(1) zero] none count
      by (simp add: clock_verdict_def r(1) Let_def length_clocks [symmetric] verdict_matches_def zero)
  next
    case False
    show ?thesis
    proof (cases r)
      case None
      with r have nodrop: "\<not> drops (clocks gs)" by simp
      from made [OF words(2)] made [OF words(3)] unit_interval [of "95 / 100"] unit_interval [of "6 / 10"]
      show ?thesis
        using False None nodrop none count rep
        by (simp add: clock_verdict_def r(1) Let_def length_clocks [symmetric] verdict_matches_def)
    next
      case (Some g)
      with r have g: "g \<in> set gs" and drop: "drops (clocks gs)" by auto
      obtain state reason c where d: "drop_verdict g = Inr (state, reason, c)" "strip reason \<noteq> []"
        "num_le (PFlt (Fin 0)) (PFlt c)" "num_le (PFlt c) (PFlt (Fin 1))"
        using drop_verdict_returns [of g] ok(1) g by (auto simp: list_all_iff)
      have ex: "list_ex (\<lambda>g. case drop_verdict g of
          Inr (state, reason, c) \<Rightarrow> tv_verdict v = state \<and> tv_reason v = reason | Inl _ \<Rightarrow> False) gs"
        if "tv_verdict v = state" "tv_reason v = reason" for v
        using g d(1) that by (force simp: list_ex_iff)
      let ?v = "\<lparr>tv_gpu_index = index, tv_verdict = state, tv_reason = reason, tv_confidence = PFlt c,
         tv_supported_samples = int (length (clocks gs))\<rparr>"
      have "verdict_matches index gs ?v"
        using ex [of ?v] False drop none count d(3,4) by (simp add: verdict_matches_def)
      moreover have "clock_verdict index gs ?reported = Inr ?v"
        using made [OF d(2,3,4), of state] False Some
        by (simp add: clock_verdict_def r(1) Let_def length_clocks [symmetric] d(1))
      ultimately show ?thesis by blast
    qed
  qed
qed


section \<open>A recorded series\<close>

definition demo_gpu :: "int \<Rightarrow> int \<Rightarrow> int \<Rightarrow> gpu_sample" where
  "demo_gpu vram watts clock =
     \<lparr>gs_index = 0, gs_uuid = None, gs_utilization_percent = Num (PInt 40),
      gs_memory_utilization_percent = Unsupported, gs_vram_used_bytes = Num (PInt vram),
      gs_vram_total_bytes = Unsupported, gs_temperature_c = Num (PInt 60),
      gs_memory_temperature_c = Unsupported, gs_power_watts = Num (PInt watts),
      gs_power_limit_watts = Unsupported, gs_fan_percent = Unsupported,
      gs_core_clock_mhz = Num (PInt clock), gs_memory_clock_mhz = Unsupported,
      gs_throttle_reasons = [], gs_throttle_reasons_available = False\<rparr>"

definition demo_snapshot :: "int \<Rightarrow> gpu_sample \<Rightarrow> snapshot" where
  "demo_snapshot us g =
     \<lparr>ts_timestamp = utc_instant us, ts_cpu_percent = Unsupported, ts_load_average_1m = Unsupported,
      ts_ram_used_bytes = Unsupported, ts_ram_available_bytes = Unsupported,
      ts_ram_total_bytes = Unsupported, ts_cpu_temperature_c = Unsupported,
      ts_disk_read_bytes_per_sec = Unsupported, ts_disk_write_bytes_per_sec = Unsupported,
      ts_process_rss_bytes = Unsupported, ts_gpus = [g], ts_reasons = []\<rparr>"

definition demo_series :: "snapshot list" where
  "demo_series =
     [demo_snapshot 0 (demo_gpu 5 100 2000), demo_snapshot 2000000 (demo_gpu 9 200 1000),
      demo_snapshot 5000000 (demo_gpu 7 300 1900)]"

definition demo_window :: window where
  "demo_window = \<lparr>tw_samples = demo_series\<rparr>"

theorem window_order_independent_witness:
  "TelemetryWindow (map Some (rev demo_series)) = TelemetryWindow (map Some demo_series)"
  by (rule window_order_independent)
    (simp_all add: demo_series_def demo_snapshot_def taken_at_def instant_us_def utc_instant_def)

lemma demo_gpu_samples:
  "gpu_samples demo_window (ONum (PInt 0)) =
     Inr [demo_gpu 5 100 2000, demo_gpu 9 200 1000, demo_gpu 7 300 1900]"
  by (simp add: gpu_samples_def validate_gpu_index_def natural_number_def demo_window_def demo_series_def
      List.map_filter_def device_in_def demo_snapshot_def demo_gpu_def)

theorem peak_is_maximum_witness:
  "case peak_vram_bytes demo_window (ONum (PInt 0)) of
     Inr (Num m) \<Rightarrow> m \<in> {PInt 5, PInt 9, PInt 7} \<and> num_le (PInt 9) m
   | _ \<Rightarrow> False"
  using peak_is_maximum [of demo_window "ONum (PInt 0)" "[PInt 5, PInt 9, PInt 7]" "[PInt 60, PInt 60, PInt 60]"]
  by (auto simp: measurements_def demo_gpu_samples List.map_filter_def demo_gpu_def num_is_nan_def
      split: sum.splits measurement.splits)

lemma is_double_int: "\<bar>n\<bar> < 2 ^ 53 \<Longrightarrow> is_double (of_int n)"
  by (simp add: is_double_def rnd64_of_int)

theorem energy_exact_witness:
  "energy_joules demo_window (ONum (PInt 0)) = Inr (Num (PFlt (Fin 800)))"
proof -
  have s: "exact_seconds (demo_snapshot 0 g) (demo_snapshot 2000000 h) = of_int 2"
    "exact_seconds (demo_snapshot 2000000 g) (demo_snapshot 5000000 h) = of_int 3" for g h
    by (simp_all add: exact_seconds_def demo_snapshot_def instant_us_def utc_instant_def)
  have d: "device_in 0 (demo_snapshot us (demo_gpu v p c)) = Some (demo_gpu v p c)" for us v p c
    by (simp add: device_in_def demo_snapshot_def demo_gpu_def)
  have dbl: "is_double 2" "is_double 3" "is_double 100" "is_double 200" "is_double 600"
    using is_double_int [of 2] is_double_int [of 3] is_double_int [of 100] is_double_int [of 200]
      is_double_int [of 600] by simp_all
  have terms: "exact_terms 0 demo_window = [200, 600]"
    by (simp add: exact_terms_def demo_window_def demo_series_def exact_term_def d) (simp add: demo_gpu_def s)
  have "energy_joules demo_window (ONum (PInt 0)) = Inr (Num (PFlt (Fin (sum_list (exact_terms 0 demo_window)))))"
  proof (rule energy_exact)
    show "list_all (exact_interval 0) (pairwise (tw_samples demo_window))"
      by (simp add: demo_window_def demo_series_def exact_interval_def d) (simp add: demo_gpu_def dbl s)
    show "exact_terms 0 demo_window = map (\<lambda>k. of_int k * pow2 0) [200, 600]"
      by (simp add: terms)
  qed (simp_all add: grid_exp_def)
  then show ?thesis by (simp add: terms)
qed


end
