(* ===== verification/Sampler.thy ===== *)
theory Sampler
  imports Collector Window
begin

text \<open>
  src/sweatmeter/sampler.py: one restartable worker thread that publishes snapshots into a bounded
  history, and iterators that consume it. Every block under \<open>with self._condition\<close> is one
  step of a transition system, as is every read of a clock, of the collector or of the stop event;
  the steps of the worker, of the clients and of the iterators interleave freely. The world the
  collector, the clocks and the callback act on may change between any two steps.
\<close>

section \<open>Durations and the schedule\<close>

definition positive_seconds :: "obj \<Rightarrow> pyfloat result" where
  "positive_seconds value =
     (case value of
        ONum n \<Rightarrow>
          ebind (num_isfinite n) (\<lambda>finite.
            if \<not> finite \<or> num_le n (PInt 0) then Inl ValidationError else to_float n)
      | _ \<Rightarrow> Inl ValidationError)"

text \<open>\<open>max(0.0, x)\<close>: the first argument unless the second is larger.\<close>

definition at_least_zero :: "pyfloat \<Rightarrow> pyfloat" where
  "at_least_zero x = (if flt_less (Fin 0) x then x else Fin 0)"

text \<open>
  The new deadline after a sample: one interval later, and past every deadline that
  \<open>now\<close> has already reached.
\<close>

definition advance :: "pyfloat \<Rightarrow> pyfloat \<Rightarrow> pyfloat \<Rightarrow> pyfloat result" where
  "advance interval deadline now =
     (let next_one = fadd deadline interval in
      if flt_le next_one now then
        ebind (fdiv (fsub now next_one) interval) (\<lambda>quotient.
        ebind (floor_float quotient) (\<lambda>whole.
        ebind (float_of_int (whole + 1)) (\<lambda>missed_intervals.
        Inr (fadd next_one (fmul missed_intervals interval)))))
      else Inr next_one)"

section \<open>Settings\<close>

text \<open>
  What the constructor keeps, and two facts of the platform: the reading of
  \<open>time.monotonic\<close> in a world and \<open>threading.TIMEOUT_MAX\<close>.
\<close>

record 'w sampling =
  sm_snapshot :: "('w, snapshot) comp"
  sm_interval :: pyfloat
  sm_callback :: "(snapshot \<Rightarrow> ('w, unit) comp) option"
  sm_clock :: "('w, obj) comp"
  sm_maxlen :: nat
  sm_monotonic :: "'w \<Rightarrow> pyfloat"
  sm_timeout_max :: pyfloat

text \<open>An argument that must be callable.\<close>

datatype 'f callable_arg = NotCallable | IsCallable 'f

text \<open>\<open>sys.maxsize\<close> of a 64-bit interpreter, the limit of \<open>deque(maxlen=...)\<close>.\<close>

definition ssize_max :: int where "ssize_max = 2 ^ 63 - 1"

definition buffer_limit :: "obj \<Rightarrow> int result" where
  "buffer_limit buffer_size =
     (case buffer_size of
        ONone \<Rightarrow> Inr 1
      | ONum (PInt n) \<Rightarrow> if n \<le> 0 then Inl ValidationError else Inr n
      | _ \<Rightarrow> Inl ValidationError)"

definition sampler_init ::
  "'s collector \<Rightarrow> obj \<Rightarrow> (snapshot \<Rightarrow> ('s collector_state, unit) comp) callable_arg option \<Rightarrow> obj \<Rightarrow>
     ('s collector_state, obj) comp callable_arg \<Rightarrow> ('s collector_state \<Rightarrow> pyfloat) \<Rightarrow> pyfloat \<Rightarrow>
     's collector_state sampling result" where
  "sampler_init cl interval_seconds on_sample buffer_size monotonic_clock std timeout_max =
     ebind (case on_sample of
              Some NotCallable \<Rightarrow> Inl ValidationError
            | Some (IsCallable f) \<Rightarrow> Inr (Some f)
            | None \<Rightarrow> Inr None) (\<lambda>callback.
     ebind (case monotonic_clock of NotCallable \<Rightarrow> Inl ValidationError | IsCallable c \<Rightarrow> Inr c) (\<lambda>clock.
     ebind (buffer_limit buffer_size) (\<lambda>maxlen.
     ebind (positive_seconds interval_seconds) (\<lambda>interval.
     if ssize_max < maxlen then Inl OverflowError
     else Inr \<lparr>sm_snapshot = take_snapshot cl, sm_interval = interval, sm_callback = callback,
                sm_clock = clock, sm_maxlen = nat maxlen, sm_monotonic = std,
                sm_timeout_max = timeout_max\<rparr>))))"

section \<open>State\<close>

text \<open>One retained item: its sequence number, the snapshot, the local time of its receipt.\<close>

type_synonym entry = "nat \<times> snapshot \<times> pyfloat"

abbreviation entry_sequence :: "entry \<Rightarrow> nat" where "entry_sequence \<equiv> fst"
abbreviation entry_snapshot :: "entry \<Rightarrow> snapshot" where "entry_snapshot e \<equiv> fst (snd e)"
abbreviation entry_sampled_at :: "entry \<Rightarrow> pyfloat" where "entry_sampled_at e \<equiv> snd (snd e)"

text \<open>
  Where a worker thread stands in \<open>_run\<close>, with the local variables it holds there. An
  \<open>exn\<close> is the exception the thread leaves \<open>_run\<close> with, if any.
\<close>

datatype worker =
    Unstarted
  | AtBegin
  | AtCheck pyfloat
  | AtCollect pyfloat
  | AtStamp pyfloat snapshot
  | AtPublish pyfloat snapshot pyfloat
  | AtCallback pyfloat snapshot
  | AtSchedule pyfloat
  | AtWait pyfloat pyfloat
  | AtExit "exn option"
  | AtReturn "exn option"
  | Finished "exn option"

text \<open>\<open>Thread.is_alive\<close>\<close>

fun is_alive :: "worker \<Rightarrow> bool" where
  "is_alive Unstarted = False"
| "is_alive (Finished _) = False"
| "is_alive _ = True"

text \<open>
  Where a generator of \<open>__iter__\<close> stands: before the lock, blocked in
  \<open>Condition.wait\<close>, notified, handing out what it has copied, or ended. What its consumer
  has received is kept beside it to state properties.
\<close>

datatype phase = AtTop | Blocked | Notified | Yielding "entry list" | Ended

record iterator =
  it_next :: nat
  it_phase :: phase
  it_received :: "entry list"

text \<open>
  The fields of the sampler, every thread it has created in order (\<open>_thread\<close> is a position
  among them), the iterators, and, to state properties, everything published so far.
\<close>

record 'w sampler_state =
  sp_world :: 'w
  sp_history :: "entry list"
  sp_stop :: bool
  sp_thread :: "nat option"
  sp_sequence :: nat
  sp_workers :: "worker list"
  sp_iters :: "iterator list"
  sp_published :: "entry list"

definition sampler_start :: "'w \<Rightarrow> 'w sampler_state" where
  "sampler_start w =
     \<lparr>sp_world = w, sp_history = [], sp_stop = False, sp_thread = None, sp_sequence = 0,
      sp_workers = [], sp_iters = [], sp_published = []\<rparr>"

section \<open>Operations\<close>

definition thread_is_alive :: "'w sampler_state \<Rightarrow> bool" where
  "thread_is_alive st = (case sp_thread st of None \<Rightarrow> False | Some i \<Rightarrow> is_alive (sp_workers st ! i))"

definition is_running :: "'w sampler_state \<Rightarrow> bool" where
  "is_running st = thread_is_alive st"

text \<open>\<open>Condition.notify_all\<close>\<close>

definition wake :: "iterator \<Rightarrow> iterator" where
  "wake it = (if it_phase it = Blocked then it\<lparr>it_phase := Notified\<rparr> else it)"

definition notify_all :: "'w sampler_state \<Rightarrow> 'w sampler_state" where
  "notify_all st = st\<lparr>sp_iters := map wake (sp_iters st)\<rparr>"

text \<open>
  \<open>start\<close>: nothing while a worker is alive; \<open>spawned\<close> says whether the system could
  create a thread, without which \<open>Thread.start\<close> raises.
\<close>

definition start :: "bool \<Rightarrow> ('w sampler_state, unit) comp" where
  "start spawned = (\<lambda>st.
     if thread_is_alive st then (Inr (), st)
     else (if spawned then Inr () else Inl RuntimeError,
           st\<lparr>sp_stop := False, sp_thread := Some (length (sp_workers st)),
              sp_workers := sp_workers st @ [if spawned then AtBegin else Unstarted]\<rparr>))"

text \<open>
  \<open>stop\<close> up to the end of its locked block, with what it then joins, and the outcome once
  the join is over, in the state of that moment: \<open>caller\<close> is the worker that makes the call,
  if a worker does.
\<close>

definition stop_request :: "obj \<Rightarrow> ('w sampler_state, pyfloat \<times> nat option) comp" where
  "stop_request timeout =
     cbind (clift (positive_seconds timeout)) (\<lambda>timeout_seconds st.
       (Inr (timeout_seconds, sp_thread st), notify_all (st\<lparr>sp_stop := True\<rparr>)))"

definition stop_outcome ::
  "'w sampling \<Rightarrow> pyfloat \<Rightarrow> nat option \<Rightarrow> nat option \<Rightarrow> 'w sampler_state \<Rightarrow> unit result" where
  "stop_outcome cfg timeout_seconds thread caller st =
     (case thread of
        None \<Rightarrow> Inr ()
      | Some i \<Rightarrow>
          if caller = Some i then Inr ()
          else if sp_workers st ! i = Unstarted then Inl RuntimeError
          else if \<not> is_alive (sp_workers st ! i) then Inr ()
          else if flt_less (sm_timeout_max cfg) timeout_seconds then Inl OverflowError
          else Inl TimeoutError)"

definition sampler_enter :: "bool \<Rightarrow> ('w sampler_state, unit) comp" where
  "sampler_enter spawned = start spawned"

definition sampler_exit :: "('w sampler_state, pyfloat \<times> nat option) comp" where
  "sampler_exit = stop_request (ONum (PFlt (Fin 5)))"

definition latest :: "'w sampler_state \<Rightarrow> snapshot option" where
  "latest st = (if sp_history st = [] then None else Some (entry_snapshot (List.last (sp_history st))))"

definition buffered :: "'w sampler_state \<Rightarrow> snapshot list" where
  "buffered st = map entry_snapshot (sp_history st)"

section \<open>Clocks\<close>

definition in_world :: "('w, 'a) comp \<Rightarrow> ('w sampler_state, 'a) comp" where
  "in_world m = czoom sp_world (\<lambda>w st. st\<lparr>sp_world := w\<rparr>) m"

definition monotonic_now :: "'w sampling \<Rightarrow> ('w, pyfloat) comp" where
  "monotonic_now cfg =
     cbind (safe (sm_clock cfg) ONone) (\<lambda>value.
       case value of
         ONum n \<Rightarrow>
           cbind (clift (num_isfinite n)) (\<lambda>finite.
             if finite then clift (to_float n) else cgets (sm_monotonic cfg))
       | _ \<Rightarrow> cgets (sm_monotonic cfg))"

definition latest_age_seconds :: "'w sampling \<Rightarrow> ('w sampler_state, pyfloat option) comp" where
  "latest_age_seconds cfg = (\<lambda>st.
     if sp_history st = [] then (Inr None, st)
     else cbind (in_world (monotonic_now cfg)) (\<lambda>now.
            creturn (Some (at_least_zero (fsub now (entry_sampled_at (List.last (sp_history st))))))) st)"

section \<open>The worker\<close>

text \<open>Appending to a deque with a maximum length drops items on the left.\<close>

definition deque_append :: "nat \<Rightarrow> 'a list \<Rightarrow> 'a \<Rightarrow> 'a list" where
  "deque_append maxlen xs x = drop (length xs + 1 - maxlen) (xs @ [x])"

text \<open>The locked block of \<open>_publish\<close>.\<close>

definition publish :: "'w sampling \<Rightarrow> snapshot \<Rightarrow> pyfloat \<Rightarrow> 'w sampler_state \<Rightarrow> 'w sampler_state" where
  "publish cfg s sampled_at st =
     (let item = (sp_sequence st + 1, s, sampled_at) in
      notify_all (st\<lparr>sp_sequence := sp_sequence st + 1,
                     sp_history := deque_append (sm_maxlen cfg) (sp_history st) item,
                     sp_published := sp_published st @ [item]\<rparr>))"

definition run_callback :: "'w sampling \<Rightarrow> snapshot \<Rightarrow> ('w, unit) comp" where
  "run_callback cfg s =
     (case sm_callback cfg of
        None \<Rightarrow> creturn ()
      | Some callback \<Rightarrow> cbind (safe (cmap Some (callback s)) None) (\<lambda>_. creturn ()))"

text \<open>
  \<open>Event.wait\<close>: true at once when the event is set; a longer limit than the platform allows
  raises; otherwise the time runs out. The step at which a waiting thread is woken or runs out of
  time is not bounded, so every schedule is covered.
\<close>

definition event_wait :: "pyfloat \<Rightarrow> bool \<Rightarrow> pyfloat \<Rightarrow> bool result" where
  "event_wait timeout_max is_set timeout =
     (if is_set then Inr True
      else if flt_less timeout_max timeout then Inl OverflowError
      else Inr False)"

definition proceed :: "('a \<Rightarrow> worker) \<Rightarrow> (exn \<Rightarrow> worker) \<Rightarrow> 'a result \<times> 't \<Rightarrow> worker \<times> 't" where
  "proceed f g p = (case fst p of Inr x \<Rightarrow> f x | Inl e \<Rightarrow> g e, snd p)"

text \<open>An exception inside the \<open>try\<close> of \<open>_run\<close> leads to its \<open>finally\<close>.\<close>

definition leave :: "exn \<Rightarrow> worker" where
  "leave e = AtExit (Some e)"

fun worker_step :: "'w sampling \<Rightarrow> worker \<Rightarrow> 'w sampler_state \<Rightarrow> worker \<times> 'w sampler_state" where
  "worker_step cfg AtBegin st =
     proceed AtCheck (\<lambda>e. AtReturn (Some e)) (in_world (monotonic_now cfg) st)"
| "worker_step cfg (AtCheck d) st = (if sp_stop st then AtExit None else AtCollect d, st)"
| "worker_step cfg (AtCollect d) st = proceed (AtStamp d) leave (in_world (sm_snapshot cfg) st)"
| "worker_step cfg (AtStamp d s) st = proceed (AtPublish d s) leave (in_world (monotonic_now cfg) st)"
| "worker_step cfg (AtPublish d s sampled_at) st = (AtCallback d s, publish cfg s sampled_at st)"
| "worker_step cfg (AtCallback d s) st =
     proceed (\<lambda>_. AtSchedule d) leave (in_world (run_callback cfg s) st)"
| "worker_step cfg (AtSchedule d) st =
     proceed (\<lambda>(deadline, now). AtWait deadline now) leave
       (cbind (in_world (monotonic_now cfg)) (\<lambda>now.
          cbind (clift (advance (sm_interval cfg) d now)) (\<lambda>deadline. creturn (deadline, now))) st)"
| "worker_step cfg (AtWait d now) st =
     (case event_wait (sm_timeout_max cfg) (sp_stop st) (at_least_zero (fsub d now)) of
        Inr True \<Rightarrow> (AtExit None, st)
      | Inr False \<Rightarrow> (AtCheck d, st)
      | Inl e \<Rightarrow> (leave e, st))"
| "worker_step cfg (AtExit e) st = (AtReturn e, notify_all st)"
| "worker_step cfg (AtReturn e) st = (Finished e, st)"
| "worker_step cfg w st = (w, st)"

definition worker_turn :: "'w sampling \<Rightarrow> nat \<Rightarrow> 'w sampler_state \<Rightarrow> 'w sampler_state" where
  "worker_turn cfg i st =
     (case worker_step cfg (sp_workers st ! i) st of
        (w, st') \<Rightarrow> st'\<lparr>sp_workers := (sp_workers st')[i := w]\<rparr>)"

section \<open>The iterators\<close>

definition open_iterator :: "'w sampler_state \<Rightarrow> 'w sampler_state" where
  "open_iterator st =
     st\<lparr>sp_iters := sp_iters st @ [\<lparr>it_next = 1, it_phase = AtTop, it_received = []\<rparr>]\<rparr>"

text \<open>The locked block: copy what is new, block while there is nothing and a worker lives, or end.\<close>

definition available :: "nat \<Rightarrow> 'w sampler_state \<Rightarrow> entry list" where
  "available next_sequence st = filter (\<lambda>item. next_sequence \<le> entry_sequence item) (sp_history st)"

definition examine :: "'w sampler_state \<Rightarrow> iterator \<Rightarrow> iterator" where
  "examine st it =
     (let items = available (it_next it) st in
      it\<lparr>it_phase := if items \<noteq> [] then Yielding items
                    else if thread_is_alive st then Blocked else Ended\<rparr>)"

definition iterator_step :: "'w sampler_state \<Rightarrow> iterator \<Rightarrow> iterator" where
  "iterator_step st it =
     (case it_phase it of
        AtTop \<Rightarrow> examine st it
      | Notified \<Rightarrow> examine st it
      | Yielding [] \<Rightarrow> it\<lparr>it_phase := AtTop\<rparr>
      | Yielding (e # es) \<Rightarrow>
          it\<lparr>it_next := entry_sequence e + 1, it_phase := Yielding es, it_received := it_received it @ [e]\<rparr>
      | _ \<Rightarrow> it)"

definition iterator_turn :: "nat \<Rightarrow> 'w sampler_state \<Rightarrow> 'w sampler_state" where
  "iterator_turn k st = st\<lparr>sp_iters := (sp_iters st)[k := iterator_step st (sp_iters st ! k)]\<rparr>"

section \<open>Interleaved runs\<close>

datatype action = World | Start bool | Stop obj | Iterate | Consume nat | Work nat

inductive sampler_step :: "'w sampling \<Rightarrow> 'w sampler_state \<Rightarrow> action \<Rightarrow> 'w sampler_state \<Rightarrow> bool"
  for cfg :: "'w sampling" where
  step_world: "sampler_step cfg st World (st\<lparr>sp_world := w\<rparr>)"
| step_start: "sampler_step cfg st (Start spawned) (snd (start spawned st))"
| step_stop: "sampler_step cfg st (Stop timeout) (snd (stop_request timeout st))"
| step_iterate: "sampler_step cfg st Iterate (open_iterator st)"
| step_consume: "k < length (sp_iters st) \<Longrightarrow> it_phase (sp_iters st ! k) \<notin> {Blocked, Ended} \<Longrightarrow>
    sampler_step cfg st (Consume k) (iterator_turn k st)"
| step_work: "i < length (sp_workers st) \<Longrightarrow> is_alive (sp_workers st ! i) \<Longrightarrow>
    sampler_step cfg st (Work i) (worker_turn cfg i st)"

inductive_cases sampler_stepE: "sampler_step cfg st a st'"
inductive_simps step_work_iff: "sampler_step cfg st (Work i) st'"
inductive_simps step_consume_iff: "sampler_step cfg st (Consume k) st'"

inductive sampler_run :: "'w sampling \<Rightarrow> 'w sampler_state \<Rightarrow> action list \<Rightarrow> 'w sampler_state \<Rightarrow> bool"
  for cfg :: "'w sampling" where
  run_none: "sampler_run cfg st [] st"
| run_more: "sampler_run cfg st as st' \<Longrightarrow> sampler_step cfg st' a st'' \<Longrightarrow> sampler_run cfg st (as @ [a]) st''"

inductive sampler_reach :: "'w sampling \<Rightarrow> 'w sampler_state \<Rightarrow> bool" for cfg :: "'w sampling" where
  reach_start: "sampler_reach cfg (sampler_start w)"
| reach_step: "sampler_reach cfg st \<Longrightarrow> sampler_step cfg st a st' \<Longrightarrow> sampler_reach cfg st'"

section \<open>What one step changes\<close>

lemma in_world_changes: "in_world m st = (r, st') \<Longrightarrow> \<exists>w. st' = st\<lparr>sp_world := w\<rparr> \<and> m (sp_world st) = (r, w)"
  by (auto simp: in_world_def czoom_def split: prod.splits)

lemma proceed_in_world: "proceed f g (in_world m st) = (w, st') \<Longrightarrow> \<exists>u. st' = st\<lparr>sp_world := u\<rparr>"
  using in_world_changes [of m st "fst (in_world m st)" "snd (in_world m st)"] by (auto simp: proceed_def)

lemma schedule_changes:
  "\<exists>u. snd (cbind (in_world m) (\<lambda>now. cbind (clift (f now)) (\<lambda>d. creturn (d, now))) st)
     = st\<lparr>sp_world := u\<rparr>"
  by (auto simp: cbind_def in_world_def czoom_def clift_def creturn_def split: prod.splits sum.splits)

lemma event_wait_state:
  "(case event_wait m b t of Inr True \<Rightarrow> (x, st) | Inr False \<Rightarrow> (y, st) | Inl e \<Rightarrow> (z e, st)) = (w, st') \<Longrightarrow> st' = st"
  by (auto split: sum.splits bool.splits)

text \<open>
  A step of the worker changes the world, publishes one item, or wakes the iterators; the threads
  and the stop event are the clients'.
\<close>

lemma worker_step_cases:
  assumes "worker_step cfg w st = (w', st')"
  obtains (quiet) u where "st' = st\<lparr>sp_world := u\<rparr>"
  | (published) d s sampled_at where "w = AtPublish d s sampled_at" "w' = AtCallback d s" "st' = publish cfg s sampled_at st"
  | (exiting) e where "w = AtExit e" "w' = AtReturn e" "st' = notify_all st"
proof (cases w)
  case (AtSchedule d)
  with assms have "st' = snd (cbind (in_world (monotonic_now cfg)) (\<lambda>now.
      cbind (clift (advance (sm_interval cfg) d now)) (\<lambda>deadline. creturn (deadline, now))) st)"
    by (auto simp: proceed_def)
  with schedule_changes [of "monotonic_now cfg" "advance (sm_interval cfg) d" st] show thesis
    by (metis quiet)
next
  case (AtWait d now)
  with assms event_wait_state have "st' = st\<lparr>sp_world := sp_world st\<rparr>" by fastforce
  then show thesis by (rule quiet)
qed (use assms in \<open>auto intro: that dest!: proceed_in_world split: if_splits
      simp del: publish_def notify_all_def\<close>; fastforce intro: quiet [of "sp_world st"])+

lemma notify_all_frame [simp]:
  "sp_world (notify_all st) = sp_world st" "sp_history (notify_all st) = sp_history st"
  "sp_stop (notify_all st) = sp_stop st" "sp_thread (notify_all st) = sp_thread st"
  "sp_sequence (notify_all st) = sp_sequence st" "sp_workers (notify_all st) = sp_workers st"
  "sp_published (notify_all st) = sp_published st"
  "sp_iters (notify_all st) = map wake (sp_iters st)"
  by (simp_all add: notify_all_def)

lemma publish_frame [simp]:
  "sp_stop (publish cfg s t st) = sp_stop st" "sp_thread (publish cfg s t st) = sp_thread st"
  "sp_workers (publish cfg s t st) = sp_workers st"
  "sp_sequence (publish cfg s t st) = sp_sequence st + 1"
  "sp_published (publish cfg s t st) = sp_published st @ [(sp_sequence st + 1, s, t)]"
  "sp_history (publish cfg s t st) = deque_append (sm_maxlen cfg) (sp_history st) (sp_sequence st + 1, s, t)"
  "sp_iters (publish cfg s t st) = map wake (sp_iters st)"
  by (simp_all add: publish_def Let_def)

lemma worker_step_frame:
  assumes "worker_step cfg w st = (w', st')"
  shows "sp_workers st' = sp_workers st" "sp_thread st' = sp_thread st" "sp_stop st' = sp_stop st"
  using assms by (cases rule: worker_step_cases; simp)+

lemma worker_turn_frame [simp]:
  "sp_thread (worker_turn cfg i st) = sp_thread st" "sp_stop (worker_turn cfg i st) = sp_stop st"
  "sp_workers (worker_turn cfg i st) = (sp_workers st)[i := fst (worker_step cfg (sp_workers st ! i) st)]"
  by (simp_all add: worker_turn_def worker_step_frame split: prod.splits)

lemma iterator_turn_frame [simp]:
  "sp_thread (iterator_turn k st) = sp_thread st" "sp_stop (iterator_turn k st) = sp_stop st"
  "sp_workers (iterator_turn k st) = sp_workers st" "sp_history (iterator_turn k st) = sp_history st"
  "sp_sequence (iterator_turn k st) = sp_sequence st" "sp_published (iterator_turn k st) = sp_published st"
  "sp_iters (iterator_turn k st) = (sp_iters st)[k := iterator_step st (sp_iters st ! k)]"
  by (simp_all add: iterator_turn_def)

lemma open_iterator_frame [simp]:
  "sp_thread (open_iterator st) = sp_thread st" "sp_stop (open_iterator st) = sp_stop st"
  "sp_workers (open_iterator st) = sp_workers st" "sp_history (open_iterator st) = sp_history st"
  "sp_sequence (open_iterator st) = sp_sequence st" "sp_published (open_iterator st) = sp_published st"
  by (simp_all add: open_iterator_def)

lemma start_state:
  "snd (start spawned st) =
     (if thread_is_alive st then st
      else st\<lparr>sp_stop := False, sp_thread := Some (length (sp_workers st)),
              sp_workers := sp_workers st @ [if spawned then AtBegin else Unstarted]\<rparr>)"
  by (simp add: start_def)

lemma stop_state:
  "snd (stop_request timeout st) =
     (case positive_seconds timeout of Inl _ \<Rightarrow> st | Inr _ \<Rightarrow> notify_all (st\<lparr>sp_stop := True\<rparr>))"
  by (simp add: stop_request_def cbind_def clift_def split: sum.splits)

lemma sampler_run_reach: "sampler_run cfg st as st' \<Longrightarrow> sampler_reach cfg st \<Longrightarrow> sampler_reach cfg st'"
  by (induction rule: sampler_run.induct) (auto intro: reach_step)

section \<open>Invariants\<close>

text \<open>Of all threads ever created only the one in \<open>_thread\<close>, the newest, can be alive.\<close>

definition one_worker :: "'w sampler_state \<Rightarrow> bool" where
  "one_worker st \<longleftrightarrow>
     sp_thread st = (if sp_workers st = [] then None else Some (length (sp_workers st) - 1))
     \<and> (\<forall>i < length (sp_workers st). is_alive (sp_workers st ! i) \<longrightarrow> sp_thread st = Some i)"

text \<open>The history is the newest part of what was published, which is numbered from 1 without gaps.\<close>

definition recent_history :: "nat \<Rightarrow> 'w sampler_state \<Rightarrow> bool" where
  "recent_history maxlen st \<longleftrightarrow>
     map fst (sp_published st) = [1..<Suc (sp_sequence st)]
     \<and> sp_history st = drop (length (sp_published st) - maxlen) (sp_published st)"

text \<open>
  What an iterator has received and what it is about to hand out was published, is in ascending
  order, and lies before and after its cursor.
\<close>

definition pending :: "iterator \<Rightarrow> entry list" where
  "pending it = (case it_phase it of Yielding es \<Rightarrow> es | _ \<Rightarrow> [])"

definition iterator_ok :: "entry list \<Rightarrow> iterator \<Rightarrow> bool" where
  "iterator_ok published it \<longleftrightarrow>
     sorted_wrt (<) (map fst (it_received it @ pending it))
     \<and> set (it_received it @ pending it) \<subseteq> set published
     \<and> list_all (\<lambda>e. fst e < it_next it) (it_received it)
     \<and> list_all (\<lambda>e. it_next it \<le> fst e) (pending it)"

definition sampler_inv :: "'w sampling \<Rightarrow> 'w sampler_state \<Rightarrow> bool" where
  "sampler_inv cfg st \<longleftrightarrow>
     one_worker st \<and> recent_history (sm_maxlen cfg) st \<and> list_all (iterator_ok (sp_published st)) (sp_iters st)"

lemma one_worker_alive: "one_worker st \<Longrightarrow> thread_is_alive st \<longleftrightarrow> list_ex is_alive (sp_workers st)"
  unfolding list_ex_length one_worker_def thread_is_alive_def
  by (cases "sp_workers st") (auto split: option.splits)

lemma worker_step_dead: "\<not> is_alive w \<Longrightarrow> worker_step cfg w st = (w, st)"
  by (cases w) auto

lemma one_worker_turn:
  assumes "one_worker st" "i < length (sp_workers st)" "is_alive (sp_workers st ! i)"
  shows "one_worker (worker_turn cfg i st)"
  using assms by (auto simp: one_worker_def nth_list_update split: if_splits)

lemma one_worker_start:
  assumes "one_worker st" shows "one_worker (snd (start spawned st))"
proof (cases "thread_is_alive st")
  case False
  then have "\<not> is_alive w" if "w \<in> set (sp_workers st)" for w
    using that one_worker_alive [OF assms] by (auto simp: list_ex_iff)
  then show ?thesis
    using False by (auto simp: one_worker_def start_state nth_append less_Suc_eq split: if_splits)
qed (use assms in \<open>simp add: start_state\<close>)

lemma deque_append_suffix:
  assumes "xs = drop (length ys - n) ys"
  shows "deque_append n xs y = drop (length (ys @ [y]) - n) (ys @ [y])"
proof (cases "length ys \<le> n")
  case True
  with assms show ?thesis by (simp add: deque_append_def)
next
  case False
  with assms have "length xs = n" by simp
  with False assms show ?thesis
    by (cases n) (auto simp: deque_append_def Suc_diff_le Suc_diff_Suc not_le)
qed

lemma recent_history_publish:
  "recent_history (sm_maxlen cfg) st \<Longrightarrow> recent_history (sm_maxlen cfg) (publish cfg s t st)"
  by (auto simp: recent_history_def deque_append_suffix simp del: length_append)

lemma recent_history_turn:
  assumes "recent_history (sm_maxlen cfg) st"
  shows "recent_history (sm_maxlen cfg) (worker_turn cfg i st)"
proof -
  obtain w st' where s: "worker_step cfg (sp_workers st ! i) st = (w, st')" by fastforce
  then have "recent_history (sm_maxlen cfg) st'"
    using assms by (cases rule: worker_step_cases) (auto simp: recent_history_publish, auto simp: recent_history_def)
  with s show ?thesis by (simp add: worker_turn_def recent_history_def)
qed

lemma iterator_ok_wake [simp]: "iterator_ok p (wake it) = iterator_ok p it"
  by (simp add: wake_def iterator_ok_def pending_def)

lemma iterator_ok_new: "iterator_ok p \<lparr>it_next = n, it_phase = AtTop, it_received = []\<rparr>"
  by (simp add: iterator_ok_def pending_def)

lemma iterator_ok_more: "iterator_ok p it \<Longrightarrow> set p \<subseteq> set p' \<Longrightarrow> iterator_ok p' it"
  unfolding iterator_ok_def by blast

lemma iterators_publish:
  "list_all (iterator_ok p) its \<Longrightarrow> set p \<subseteq> set p' \<Longrightarrow> list_all (iterator_ok p') (map wake its)"
  by (auto simp: list_all_iff intro: iterator_ok_more)

lemma iterators_turn:
  assumes "list_all (iterator_ok (sp_published st)) (sp_iters st)"
  shows "list_all (iterator_ok (sp_published (worker_turn cfg i st))) (sp_iters (worker_turn cfg i st))"
proof -
  obtain w st' where s: "worker_step cfg (sp_workers st ! i) st = (w, st')" by fastforce
  then have "list_all (iterator_ok (sp_published st')) (sp_iters st')"
    using assms by (cases rule: worker_step_cases) (auto intro!: iterators_publish simp del: list.pred_map)
  with s show ?thesis by (simp add: worker_turn_def)
qed

lemma published_sorted:
  assumes "recent_history n st"
  shows "sorted_wrt (<) (map fst (sp_published st))" "sorted_wrt (<) (map fst (sp_history st))"
    "set (sp_history st) \<subseteq> set (sp_published st)"
  using assms by (auto simp: recent_history_def drop_map [symmetric] sorted_wrt_drop sorted_wrt_upt
      simp del: upt_Suc dest: in_set_dropD)

lemma sorted_map_filter: "sorted_wrt (<) (map f xs) \<Longrightarrow> sorted_wrt (<) (map f (filter P xs))"
  by (induction xs) auto

lemma iterator_ok_examine:
  assumes h: "recent_history n st" and it: "iterator_ok (sp_published st) it" and idle: "pending it = []"
  shows "iterator_ok (sp_published st) (examine st it)"
proof -
  let ?items = "available (it_next it) st"
  have items: "sorted_wrt (<) (map fst ?items)" "set ?items \<subseteq> set (sp_published st)"
    "list_all (\<lambda>e. it_next it \<le> fst e) ?items"
    using published_sorted [OF h] by (auto simp: available_def sorted_map_filter list_all_iff)
  have received: "sorted_wrt (<) (map fst (it_received it))" "set (it_received it) \<subseteq> set (sp_published st)"
    "list_all (\<lambda>e. fst e < it_next it) (it_received it)"
    using it idle by (auto simp: iterator_ok_def)
  have "\<forall>x \<in> set (it_received it). \<forall>y \<in> set ?items. fst x < fst y"
    using items(3) received(3) by (auto simp: list_all_iff) force
  with items received show ?thesis
    by (simp add: iterator_ok_def examine_def pending_def Let_def sorted_wrt_append) force
qed

lemma iterator_ok_yield:
  assumes "iterator_ok p it" "it_phase it = Yielding (e # es)"
  shows "iterator_ok p (it\<lparr>it_next := fst e + 1, it_phase := Yielding es, it_received := it_received it @ [e]\<rparr>)"
proof -
  have s: "sorted_wrt (<) (map fst ((it_received it @ [e]) @ es))"
    and m: "set (it_received it @ [e] @ es) \<subseteq> set p"
    and b: "list_all (\<lambda>x. fst x < it_next it) (it_received it)" "it_next it \<le> fst e"
    using assms by (simp_all add: iterator_ok_def pending_def)
  from b have "list_all (\<lambda>x. fst x < fst e + 1) (it_received it @ [e])"
    by (auto simp: list_all_iff)
  moreover from s have "list_all (\<lambda>x. fst e + 1 \<le> fst x) es"
    by (simp add: sorted_wrt_append list_all_iff Suc_le_eq)
  ultimately show ?thesis using s m by (simp add: iterator_ok_def pending_def)
qed

lemma iterator_ok_step:
  assumes h: "recent_history n st" and it: "iterator_ok (sp_published st) it"
  shows "iterator_ok (sp_published st) (iterator_step st it)"
proof (cases "it_phase it")
  case (Yielding es)
  with it iterator_ok_yield [OF it] show ?thesis
    by (cases es) (simp_all add: iterator_step_def, simp add: iterator_ok_def pending_def)
qed (use iterator_ok_examine [OF h it] it in \<open>simp_all add: iterator_step_def pending_def\<close>)

lemma sampler_inv_step:
  assumes "sampler_step cfg st a st'" and inv: "sampler_inv cfg st"
  shows "sampler_inv cfg st'"
  using assms
proof (cases rule: sampler_step.cases)
  case (step_start spawned)
  with inv one_worker_start [of st spawned] show ?thesis
    by (auto simp: sampler_inv_def start_state recent_history_def)
next
  case (step_consume k)
  with inv show ?thesis
    by (auto simp: sampler_inv_def one_worker_def recent_history_def list_all_length nth_list_update
        intro!: iterator_ok_step [where n = "sm_maxlen cfg"])
next
  case (step_work i)
  with inv show ?thesis
    using one_worker_turn recent_history_turn iterators_turn by (auto simp: sampler_inv_def)
qed (auto simp: sampler_inv_def one_worker_def recent_history_def stop_state open_iterator_def
    iterator_ok_new list_all_iff split: sum.splits)

lemma sampler_inv_start: "sampler_inv cfg (sampler_start w)"
  by (simp add: sampler_inv_def one_worker_def recent_history_def sampler_start_def)

lemma sampler_reach_inv: "sampler_reach cfg st \<Longrightarrow> sampler_inv cfg st"
  by (induction rule: sampler_reach.induct) (auto intro: sampler_inv_start sampler_inv_step)

section \<open>What an iterator may miss\<close>

text \<open>
  A retained item behind the cursor has been received; a retained item before the end of what is
  about to be handed out is part of it; while an iterator is blocked, nothing retained is ahead of
  its cursor.
\<close>

definition iterator_complete :: "nat \<Rightarrow> entry list \<Rightarrow> iterator \<Rightarrow> bool" where
  "iterator_complete newest history it \<longleftrightarrow>
     it_next it \<le> Suc newest
     \<and> list_all (\<lambda>e. fst e < it_next it \<longrightarrow> e \<in> set (it_received it)) history
     \<and> list_all (\<lambda>e. it_next it \<le> fst e \<longrightarrow> (\<exists>p \<in> set (pending it). fst e < fst p) \<longrightarrow> e \<in> set (pending it)) history
     \<and> (it_phase it = Blocked \<longrightarrow> list_all (\<lambda>e. fst e < it_next it) history)"

lemma recent_history_sequences:
  assumes "recent_history n st"
  shows "e \<in> set (sp_published st) \<Longrightarrow> 1 \<le> fst e \<and> fst e \<le> sp_sequence st"
    "e \<in> set (sp_published st) \<Longrightarrow> e' \<in> set (sp_published st) \<Longrightarrow> fst e = fst e' \<Longrightarrow> e = e'"
proof -
  have p: "map fst (sp_published st) = [1..<Suc (sp_sequence st)]" using assms by (simp add: recent_history_def)
  then have "fst ` set (sp_published st) = {1..<Suc (sp_sequence st)}" by (metis list.set_map set_upt)
  then show "e \<in> set (sp_published st) \<Longrightarrow> 1 \<le> fst e \<and> fst e \<le> sp_sequence st"
    using imageI [of e "set (sp_published st)" fst] by auto
  have "distinct (map fst (sp_published st))" unfolding p by (rule distinct_upt)
  then show "e \<in> set (sp_published st) \<Longrightarrow> e' \<in> set (sp_published st) \<Longrightarrow> fst e = fst e' \<Longrightarrow> e = e'"
    by (metis distinct_map inj_onD)
qed

lemma iterator_complete_wake: "iterator_complete n h it \<Longrightarrow> iterator_complete n h (wake it)"
  by (simp add: wake_def iterator_complete_def pending_def list_all_iff split: phase.splits)

lemma iterator_complete_new:
  assumes "recent_history m st"
  shows "iterator_complete (sp_sequence st) (sp_history st) \<lparr>it_next = 1, it_phase = AtTop, it_received = []\<rparr>"
  using recent_history_sequences(1) [OF assms] published_sorted(3) [OF assms]
  by (fastforce simp: iterator_complete_def pending_def list_all_iff)

lemma iterator_complete_publish:
  assumes "recent_history m st" "iterator_ok (sp_published st) it"
    and "iterator_complete (sp_sequence st) (sp_history st) it"
  shows "iterator_complete (sp_sequence st + 1) (deque_append k (sp_history st) (sp_sequence st + 1, x)) (wake it)"
proof -
  have old: "e \<in> set (sp_history st) \<or> e = (sp_sequence st + 1, x)"
    if "e \<in> set (deque_append k (sp_history st) (sp_sequence st + 1, x))" for e
    using that by (auto simp: deque_append_def dest: in_set_dropD)
  have same: "pending (wake it) = pending it" "it_next (wake it) = it_next it"
    "it_received (wake it) = it_received it" "it_phase (wake it) \<noteq> Blocked"
    by (auto simp: wake_def pending_def split: phase.splits)
  have before: "fst p \<le> sp_sequence st" if "p \<in> set (pending it)" for p
  proof -
    have "p \<in> set (sp_published st)" using assms(2) that unfolding iterator_ok_def by auto
    from recent_history_sequences(1) [OF assms(1) this] show ?thesis by simp
  qed
  have bound: "it_next it \<le> Suc (sp_sequence st)" using assms(3) by (simp add: iterator_complete_def)
  show ?thesis
    unfolding iterator_complete_def same list_all_iff
  proof (intro conjI ballI impI)
    fix e assume e: "e \<in> set (deque_append k (sp_history st) (sp_sequence st + 1, x))"
    show "e \<in> set (it_received it)" if "fst e < it_next it"
      using old [OF e] assms(3) bound that by (auto simp: iterator_complete_def list_all_iff)
    show "e \<in> set (pending it)" if n: "it_next it \<le> fst e" and "\<exists>p \<in> set (pending it). fst e < fst p"
    proof -
      from that(2) obtain q where q: "q \<in> set (pending it)" "fst e < fst q" by blast
      with before [OF q(1)] old [OF e] have "e \<in> set (sp_history st)" by auto
      with assms(3) n q show ?thesis unfolding iterator_complete_def list_all_iff by blast
    qed
  qed (use bound same(4) in simp_all)
qed

lemma iterator_complete_examine:
  assumes "iterator_complete (sp_sequence st) (sp_history st) it" "pending it = []"
  shows "iterator_complete (sp_sequence st) (sp_history st) (examine st it)"
  using assms
  by (auto simp: iterator_complete_def examine_def Let_def pending_def available_def list_all_iff filter_empty_conv not_le)

lemma iterator_complete_yield:
  assumes h: "recent_history m st" and ok: "iterator_ok (sp_published st) it"
    and c: "iterator_complete (sp_sequence st) (sp_history st) it" and y: "it_phase it = Yielding (e # es)"
  shows "iterator_complete (sp_sequence st) (sp_history st)
    (it\<lparr>it_next := fst e + 1, it_phase := Yielding es, it_received := it_received it @ [e]\<rparr>)"
proof -
  have e: "e \<in> set (sp_published st)" "it_next it \<le> fst e" "\<forall>p \<in> set es. fst e < fst p"
    using ok y by (auto simp: iterator_ok_def pending_def sorted_wrt_append)
  have same: "x = e" if "x \<in> set (sp_history st)" "fst x = fst e" for x
    using recent_history_sequences(2) [OF h _ e(1)] published_sorted(3) [OF h] that by blast
  have known: "x \<in> set (it_received it)" if "x \<in> set (sp_history st)" "fst x < it_next it" for x
    using c that by (simp add: iterator_complete_def list_all_iff)
  have ahead: "x \<in> insert e (set es)" if "x \<in> set (sp_history st)" "it_next it \<le> fst x"
    "p \<in> insert e (set es)" "fst x < fst p" for x p
    using c y that by (auto simp: iterator_complete_def list_all_iff pending_def)
  have "x \<in> set (it_received it @ [e])" if x: "x \<in> set (sp_history st)" "fst x < fst e + 1" for x
    using known [OF x(1)] ahead [OF x(1), of e] same [OF x(1)] e x(2)
    by (cases "fst x < it_next it"; cases "fst x = fst e") force+
  moreover have "x \<in> set es" if x: "x \<in> set (sp_history st)" "fst e + 1 \<le> fst x" "p \<in> set es" "fst x < fst p" for x p
    using ahead [OF x(1) _ _ x(4)] e(2) x by auto
  ultimately show ?thesis
    using recent_history_sequences(1) [OF h e(1)] by (auto simp: iterator_complete_def pending_def list_all_iff)
qed

lemma iterator_complete_step:
  assumes h: "recent_history m st" and ok: "iterator_ok (sp_published st) it"
    and c: "iterator_complete (sp_sequence st) (sp_history st) it"
  shows "iterator_complete (sp_sequence st) (sp_history st) (iterator_step st it)"
proof (cases "it_phase it")
  case (Yielding es)
  with c iterator_complete_yield [OF h ok c] show ?thesis
    by (cases es) (simp_all add: iterator_step_def, simp add: iterator_complete_def pending_def)
qed (use iterator_complete_examine [OF c] c in \<open>simp_all add: iterator_step_def pending_def\<close>)

definition iterators_complete :: "'w sampler_state \<Rightarrow> bool" where
  "iterators_complete st \<longleftrightarrow> list_all (iterator_complete (sp_sequence st) (sp_history st)) (sp_iters st)"

lemma iterators_complete_turn:
  assumes inv: "sampler_inv cfg st" and "iterators_complete st"
  shows "iterators_complete (worker_turn cfg i st)"
proof -
  obtain w st' where s: "worker_step cfg (sp_workers st ! i) st = (w, st')" by fastforce
  then have "iterators_complete st'"
    using assms
  proof (cases rule: worker_step_cases)
    case (published d x sampled_at)
    with assms show ?thesis
      by (auto simp: iterators_complete_def sampler_inv_def list_all_iff intro!: iterator_complete_publish [simplified])
  qed (auto simp: iterators_complete_def list_all_iff iterator_complete_wake)
  with s show ?thesis by (simp add: worker_turn_def iterators_complete_def)
qed

lemma iterators_complete_inv_step:
  assumes "sampler_step cfg st a st'" and inv: "sampler_inv cfg st" and c: "iterators_complete st"
  shows "iterators_complete st'"
  using assms
proof (cases rule: sampler_step.cases)
  case (step_consume k)
  with inv c show ?thesis
    by (auto simp: iterators_complete_def sampler_inv_def list_all_length nth_list_update
        intro!: iterator_complete_step [where m = "sm_maxlen cfg"])
next
  case step_iterate
  with inv c iterator_complete_new show ?thesis
    by (auto simp: iterators_complete_def sampler_inv_def open_iterator_def)
next
  case (step_work i)
  with iterators_complete_turn [OF inv c] show ?thesis by simp
qed (use c in \<open>auto simp: iterators_complete_def start_state stop_state list_all_iff iterator_complete_wake
    split: sum.splits\<close>)

lemma sampler_reach_complete: "sampler_reach cfg st \<Longrightarrow> iterators_complete st"
proof (induction rule: sampler_reach.induct)
  case (reach_step st a st')
  then show ?case using iterators_complete_inv_step sampler_reach_inv by blast
qed (simp add: iterators_complete_def sampler_start_def)

section \<open>Stopping\<close>

text \<open>The most steps a worker still takes once the stop event is set.\<close>

fun stop_rank :: "worker \<Rightarrow> nat" where
  "stop_rank (AtCollect _) = 8"
| "stop_rank (AtStamp _ _) = 7"
| "stop_rank (AtPublish _ _ _) = 6"
| "stop_rank (AtCallback _ _) = 5"
| "stop_rank (AtSchedule _) = 4"
| "stop_rank AtBegin = 4"
| "stop_rank (AtCheck _) = 3"
| "stop_rank (AtWait _ _) = 3"
| "stop_rank (AtExit _) = 2"
| "stop_rank (AtReturn _) = 1"
| "stop_rank _ = 0"

lemma stop_rank_0: "stop_rank w = 0 \<longleftrightarrow> \<not> is_alive w"
  by (cases w) auto

lemma stop_rank_bound: "stop_rank w \<le> 8"
  by (cases w) auto

lemma proceed_rank:
  assumes "\<And>x. stop_rank (f x) < n" "\<And>e. stop_rank (g e) < n"
  shows "stop_rank (fst (proceed f g p)) < n"
  using assms by (auto simp: proceed_def split: sum.splits)

lemma stop_rank_step:
  assumes "sp_stop st" "is_alive w"
  shows "stop_rank (fst (worker_step cfg w st)) < stop_rank w"
  using assms by (cases w) (auto intro!: proceed_rank simp: leave_def event_wait_def)

text \<open>
  The state of a stop of thread i: it stays requested until the thread has finished, because
  \<open>start\<close> leaves a living worker alone.
\<close>

definition stopping :: "nat \<Rightarrow> 'w sampler_state \<Rightarrow> bool" where
  "stopping i st \<longleftrightarrow>
     i < length (sp_workers st) \<and> (is_alive (sp_workers st ! i) \<longrightarrow> sp_stop st \<and> sp_thread st = Some i)"

lemma stopping_step:
  assumes "sampler_step cfg st a st'" "stopping i st"
  shows "stopping i st'"
    and "stop_rank (sp_workers st' ! i) + (if a = Work i then 1 else 0) \<le> stop_rank (sp_workers st ! i)"
proof -
  have "stopping i st' \<and>
      stop_rank (sp_workers st' ! i) + (if a = Work i then 1 else 0) \<le> stop_rank (sp_workers st ! i)"
    using assms
  proof (cases rule: sampler_step.cases)
    case (step_start spawned)
    with assms(2) show ?thesis
      by (cases "is_alive (sp_workers st ! i)")
        (auto simp: stopping_def start_state thread_is_alive_def nth_append)
  next
    case (step_work j)
    show ?thesis
    proof (cases "i = j")
      case True
      with step_work assms(2) have "stop_rank (sp_workers st' ! i) < stop_rank (sp_workers st ! i)"
        by (simp add: stopping_def stop_rank_step)
      with True step_work assms(2) show ?thesis by (auto simp: stopping_def)
    qed (use step_work assms(2) in \<open>auto simp: stopping_def\<close>)
  qed (use assms(2) in \<open>auto simp: stopping_def stop_state split: sum.splits\<close>)
  then show "stopping i st'"
    "stop_rank (sp_workers st' ! i) + (if a = Work i then 1 else 0) \<le> stop_rank (sp_workers st ! i)"
    by auto
qed

lemma stopping_run:
  assumes "sampler_run cfg st as st'" "stopping i st"
  shows "stopping i st' \<and> count_list as (Work i) + stop_rank (sp_workers st' ! i) \<le> stop_rank (sp_workers st ! i)"
  using assms
proof (induction rule: sampler_run.induct)
  case (run_more st as st' a st'')
  with stopping_step [OF run_more.hyps(2)] show ?case by force
qed simp

text \<open>What a worker may still publish once it is told to stop.\<close>

fun in_hand :: "worker \<Rightarrow> nat" where
  "in_hand (AtCollect _) = 1"
| "in_hand (AtStamp _ _) = 1"
| "in_hand (AtPublish _ _ _) = 1"
| "in_hand _ = 0"

lemma proceed_in_hand:
  assumes "\<And>x. in_hand (f x) \<le> n" "\<And>e. in_hand (g e) = 0"
  shows "in_hand (fst (proceed f g p)) \<le> n"
  using assms by (auto simp: proceed_def split: sum.splits)

lemma proceed_idle:
  "(\<And>x. in_hand (f x) = 0) \<Longrightarrow> (\<And>e. in_hand (g e) = 0) \<Longrightarrow> in_hand (fst (proceed f g p)) = 0"
  using proceed_in_hand [of f 0 g p] by simp

lemma in_hand_stopped: "sp_stop st \<Longrightarrow> in_hand (fst (worker_step cfg w st)) \<le> in_hand w"
  by (cases w) (auto intro!: proceed_in_hand proceed_idle simp: leave_def event_wait_def)

lemma in_hand_turn:
  assumes "sp_stop st" "i < length (sp_workers st)"
  shows "sp_sequence (worker_turn cfg i st) + in_hand (sp_workers (worker_turn cfg i st) ! i)
    \<le> sp_sequence st + in_hand (sp_workers st ! i)"
proof -
  obtain w st' where s: "worker_step cfg (sp_workers st ! i) st = (w, st')" by fastforce
  then have "in_hand w \<le> in_hand (sp_workers st ! i)"
    using in_hand_stopped [OF assms(1), of cfg "sp_workers st ! i"] by simp
  with s have "sp_sequence st' + in_hand w \<le> sp_sequence st + in_hand (sp_workers st ! i)"
    by (cases rule: worker_step_cases) auto
  with s assms(2) show ?thesis by (simp add: worker_turn_def worker_step_frame)
qed

lemma workers_grow: "sampler_step cfg st a st' \<Longrightarrow> length (sp_workers st) \<le> length (sp_workers st')"
  by (cases rule: sampler_step.cases) (auto simp: start_state stop_state split: sum.splits)

lemma workers_grow_run: "sampler_run cfg st as st' \<Longrightarrow> length (sp_workers st) \<le> length (sp_workers st')"
  by (induction rule: sampler_run.induct) (auto dest: workers_grow)

lemma in_hand_step:
  assumes step: "sampler_step cfg st a st'" and "sampler_inv cfg st" "stopping i st"
    and same: "length (sp_workers st') = Suc i" "length (sp_workers st) = Suc i"
  shows "sp_sequence st' + in_hand (sp_workers st' ! i) \<le> sp_sequence st + in_hand (sp_workers st ! i)"
  using step
proof (cases rule: sampler_step.cases)
  case (step_start spawned)
  with same show ?thesis by (simp add: start_state split: if_splits)
next
  case (step_work j)
  with assms have "j = i" by (cases "sp_workers st") (auto simp: sampler_inv_def one_worker_def)
  with step_work assms(3) in_hand_turn [of st i cfg] show ?thesis
    by (auto simp: stopping_def)
qed (auto simp: stop_state open_iterator_def split: sum.splits)

lemma in_hand_run:
  assumes "sampler_run cfg st as st'" and "sampler_inv cfg st" "stopping i st"
    and "length (sp_workers st') = Suc i" "length (sp_workers st) = Suc i"
  shows "sampler_inv cfg st' \<and>
    sp_sequence st' + in_hand (sp_workers st' ! i) \<le> sp_sequence st + in_hand (sp_workers st ! i)"
  using assms
proof (induction rule: sampler_run.induct)
  case (run_more st as st' a st'')
  have len: "length (sp_workers st') = Suc i"
    using workers_grow [OF run_more.hyps(2)] workers_grow_run [OF run_more.hyps(1)] run_more.prems by simp
  have inv: "sampler_inv cfg st'" and
    le: "sp_sequence st' + in_hand (sp_workers st' ! i) \<le> sp_sequence st + in_hand (sp_workers st ! i)"
    using run_more.IH run_more.prems len by auto
  have "stopping i st'" using stopping_run [OF run_more.hyps(1)] run_more.prems by blast
  from in_hand_step [OF run_more.hyps(2) inv this] len run_more.prems(3) le show ?case
    using sampler_inv_step [OF run_more.hyps(2) inv] by simp
qed simp

lemma stopping_thread:
  assumes "sampler_reach cfg st" "sp_stop st" "sp_thread st = Some i"
  shows "stopping i st" "length (sp_workers st) = Suc i"
  using sampler_reach_inv [OF assms(1)] assms
  by (auto simp: sampler_inv_def one_worker_def stopping_def split: if_splits)

section \<open>What the worker carries and how it ends\<close>

text \<open>A usable configuration: what the constructor accepts, over a clock of the platform that is finite.\<close>

definition sampling_ok :: "'w sampling \<Rightarrow> bool" where
  "sampling_ok cfg \<longleftrightarrow>
     1 \<le> sm_maxlen cfg \<and> (\<exists>i. sm_interval cfg = Fin i \<and> 0 < i)
     \<and> (\<forall>w. \<exists>r. sm_monotonic cfg w = Fin r)"

definition interrupt_or_overflow :: "exn \<Rightarrow> bool" where
  "interrupt_or_overflow e \<longleftrightarrow> e \<in> {KeyboardInterrupt, SystemExit, OverflowError}"

lemma not_ordinary: "\<not> ordinary e \<Longrightarrow> interrupt_or_overflow e"
  by (auto simp: ordinary_def interrupt_or_overflow_def)

lemma num_isfinite_Inl: "num_isfinite n = Inl e \<Longrightarrow> e = OverflowError"
  by (cases n) (auto simp: float_of_int_def split: pyfloat.splits)

lemma num_isfinite_True: "num_isfinite n = Inr True \<Longrightarrow> \<exists>r. to_float n = Inr (Fin r)"
  by (cases n) (auto simp: emap_Inr_iff float_of_int_Inr split: pyfloat.splits)

lemma monotonic_now_outcome:
  assumes "sampling_ok cfg" "monotonic_now cfg w = (r, w')"
  shows "case r of Inr now \<Rightarrow> \<exists>x. now = Fin x | Inl e \<Rightarrow> interrupt_or_overflow e"
proof -
  have std: "\<exists>x. sm_monotonic cfg u = Fin x" for u using assms(1) by (auto simp: sampling_ok_def)
  obtain v u where c: "safe (sm_clock cfg) ONone w = (v, u)" by fastforce
  show ?thesis
  proof (cases v)
    case (Inl e)
    with c contained_safe [of "sm_clock cfg" ONone] have "\<not> ordinary e" by (auto simp: contained_def)
    with Inl c assms(2) show ?thesis by (auto simp: monotonic_now_def cbind_def not_ordinary)
  next
    case (Inr x)
    show ?thesis
    proof (cases "\<exists>n. x = ONum n")
      case True
      then obtain n where n: "x = ONum n" by blast
      show ?thesis
      proof (cases "num_isfinite n")
        case (Inl e)
        with Inr c n assms(2) num_isfinite_Inl [OF Inl] show ?thesis
          by (auto simp: monotonic_now_def cbind_def clift_def interrupt_or_overflow_def)
      next
        case (Inr f)
        with \<open>v = Inr x\<close> c n assms(2) std num_isfinite_True [of n] show ?thesis
          by (auto simp: monotonic_now_def cbind_def clift_def cgets_def split: if_splits)
      qed
    next
      case False
      with Inr c assms(2) std show ?thesis
        by (auto simp: monotonic_now_def cbind_def cgets_def split: obj.splits)
    qed
  qed
qed

lemma fadd_not_nan: "a \<noteq> NaN \<Longrightarrow> fadd a (Fin i) \<noteq> NaN"
  by (cases a) simp_all

lemma advance_outcome:
  assumes "0 < i" "d \<noteq> NaN"
  shows "case advance (Fin i) d (Fin n) of Inr d' \<Rightarrow> d' \<noteq> NaN | Inl e \<Rightarrow> e = OverflowError"
proof (cases "flt_le (fadd d (Fin i)) (Fin n)")
  case True
  then obtain m where m: "fadd d (Fin i) = Fin m \<or> fadd d (Fin i) = NegInf"
    by (cases "fadd d (Fin i)") auto
  show ?thesis
  proof (cases "fadd d (Fin i) = NegInf")
    case True
    with assms show ?thesis by (simp add: advance_def fsub_def inf_of_sign_def)
  next
    case False
    with m have f: "fadd d (Fin i) = Fin m" by blast
    obtain q where q: "fdiv (fsub (Fin n) (Fin m)) (Fin i) = Inr q" "q \<noteq> NaN"
      using assms(1) by (cases "fsub (Fin n) (Fin m)") (auto simp: fsub_def inf_of_sign_def)
    have last: "fadd (Fin m) (fmul (Fin g) (Fin i)) \<noteq> NaN" for g
      using rnd64_not_nan [of "g * i"] by (cases "rnd64 (g * i)") simp_all
    have fi: "float_of_int k = Inl OverflowError \<or> (\<exists>g. float_of_int k = Inr (Fin g))" for k
      by (auto simp: float_of_int_def split: pyfloat.splits)
    have "floor_float q = Inl OverflowError \<or> (\<exists>k. floor_float q = Inr k)"
      using q(2) by (cases q) auto
    then consider "floor_float q = Inl OverflowError"
      | k where "floor_float q = Inr k" "float_of_int (k + 1) = Inl OverflowError"
      | k g where "floor_float q = Inr k" "float_of_int (k + 1) = Inr (Fin g)"
      using fi by blast
    then show ?thesis
      using True f q(1) last by cases (simp_all add: advance_def)
  qed
next
  case False
  with assms(2) show ?thesis by (simp add: advance_def fadd_not_nan)
qed

text \<open>
  What holds of the local variables of a worker: a deadline is a number, a receipt time is finite,
  an exception it ends with is an interrupt or an overflow, and a snapshot it carries satisfies
  the promise of the collector.
\<close>

fun worker_ok :: "(snapshot \<Rightarrow> bool) \<Rightarrow> worker \<Rightarrow> bool" where
  "worker_ok P (AtCheck d) = (d \<noteq> NaN)"
| "worker_ok P (AtCollect d) = (d \<noteq> NaN)"
| "worker_ok P (AtStamp d s) = (d \<noteq> NaN \<and> P s)"
| "worker_ok P (AtPublish d s sampled_at) = (d \<noteq> NaN \<and> P s \<and> (\<exists>x. sampled_at = Fin x))"
| "worker_ok P (AtCallback d s) = (d \<noteq> NaN \<and> P s)"
| "worker_ok P (AtSchedule d) = (d \<noteq> NaN)"
| "worker_ok P (AtWait d now) = (d \<noteq> NaN \<and> (\<exists>x. now = Fin x))"
| "worker_ok P (AtExit e) = (\<forall>x. e = Some x \<longrightarrow> interrupt_or_overflow x)"
| "worker_ok P (AtReturn e) = (\<forall>x. e = Some x \<longrightarrow> interrupt_or_overflow x)"
| "worker_ok P (Finished e) = (\<forall>x. e = Some x \<longrightarrow> interrupt_or_overflow x)"
| "worker_ok P _ = True"

definition entry_ok :: "(snapshot \<Rightarrow> bool) \<Rightarrow> entry \<Rightarrow> bool" where
  "entry_ok P e \<longleftrightarrow> P (entry_snapshot e) \<and> (\<exists>x. entry_sampled_at e = Fin x)"

definition carries :: "(snapshot \<Rightarrow> bool) \<Rightarrow> 'w sampler_state \<Rightarrow> bool" where
  "carries P st \<longleftrightarrow> list_all (worker_ok P) (sp_workers st) \<and> list_all (entry_ok P) (sp_published st)"

lemma proceed_ok:
  assumes "\<And>x. fst p = Inr x \<Longrightarrow> worker_ok P (f x)" "\<And>e. fst p = Inl e \<Longrightarrow> worker_ok P (g e)"
  shows "worker_ok P (fst (proceed f g p))"
  using assms by (simp add: proceed_def split: sum.splits)

lemma fst_in_world: "fst (in_world m st) = fst (m (sp_world st))"
  by (simp add: in_world_def czoom_def split: prod.splits)

lemma contained_callback: "contained (run_callback cfg s)"
  by (auto simp: run_callback_def intro!: contained_bind contained_safe contained_pure split: option.split)

lemma contained_fst: "contained m \<Longrightarrow> fst (m s) = Inl e \<Longrightarrow> interrupt_or_overflow e"
  by (metis contained_def not_ordinary prod.collapse)

lemma now_fst:
  assumes "sampling_ok cfg"
  shows "fst (monotonic_now cfg w) = Inr d \<Longrightarrow> \<exists>x. d = Fin x"
    and "fst (monotonic_now cfg w) = Inl e \<Longrightarrow> interrupt_or_overflow e"
  using monotonic_now_outcome [OF assms prod.collapse [symmetric], of w] by auto

lemma schedule_fst:
  "fst (cbind (in_world m) (\<lambda>now. cbind (clift (f now)) (\<lambda>d. creturn (d, now))) st) =
     ebind (fst (m (sp_world st))) (\<lambda>now. emap (\<lambda>d. (d, now)) (f now))"
  by (auto simp: cbind_def in_world_def czoom_def clift_def creturn_def split: prod.splits sum.splits)

text \<open>
  What the sampler needs of the collector: a computation that lets only interrupts through and
  whose snapshots satisfy a promise.
\<close>

locale sample_source =
  fixes snap :: "('w, snapshot) comp"
    and promise :: "snapshot \<Rightarrow> bool"
  assumes promised: "snap w = (Inr s, w') \<Longrightarrow> promise s"
    and calm: "contained snap"
begin

lemma worker_step_ok:
  assumes cfg: "sampling_ok cfg" "sm_snapshot cfg = snap" and w: "worker_ok promise w"
  shows "worker_ok promise (fst (worker_step cfg w st))"
proof (cases w)
  case (AtSchedule d)
  obtain i where i: "sm_interval cfg = Fin i" "0 < i" using cfg(1) by (auto simp: sampling_ok_def)
  show ?thesis
    unfolding AtSchedule worker_step.simps
  proof (rule proceed_ok)
    fix r assume "fst (cbind (in_world (monotonic_now cfg))
      (\<lambda>now. cbind (clift (advance (sm_interval cfg) d now)) (\<lambda>deadline. creturn (deadline, now))) st) = Inr r"
    then obtain now deadline where r: "r = (deadline, now)" "fst (monotonic_now cfg (sp_world st)) = Inr now"
      "advance (sm_interval cfg) d now = Inr deadline"
      by (auto simp: schedule_fst ebind_Inr_iff emap_Inr_iff)
    obtain x where "now = Fin x" using now_fst(1) [OF cfg(1) r(2)] by blast
    with r advance_outcome [OF i(2), of d x] AtSchedule w i
    show "worker_ok promise ((\<lambda>(deadline, now). AtWait deadline now) r)" by simp
  next
    fix e assume "fst (cbind (in_world (monotonic_now cfg))
      (\<lambda>now. cbind (clift (advance (sm_interval cfg) d now)) (\<lambda>deadline. creturn (deadline, now))) st) = Inl e"
    then consider "fst (monotonic_now cfg (sp_world st)) = Inl e"
      | now where "fst (monotonic_now cfg (sp_world st)) = Inr now" "advance (sm_interval cfg) d now = Inl e"
      by (auto simp: schedule_fst ebind_Inl_iff emap_Inl)
    then have "interrupt_or_overflow e"
    proof cases
      case (2 now)
      then obtain x where "now = Fin x" using now_fst(1) [OF cfg(1)] by blast
      with 2 advance_outcome [OF i(2), of d x] AtSchedule w i show ?thesis
        by (simp add: interrupt_or_overflow_def)
    qed (rule now_fst(2) [OF cfg(1)])
    then show "worker_ok promise (leave e)" by (simp add: leave_def)
  qed
next
  case (AtCollect d)
  with w cfg show ?thesis
    using promised [of "sp_world st" _ "snd (snap (sp_world st))"] contained_fst [OF calm]
    by (auto intro!: proceed_ok simp: fst_in_world leave_def) (metis prod.collapse)
next
  case (AtCallback d s)
  with w show ?thesis
    using contained_fst [OF contained_callback] by (auto intro!: proceed_ok simp: fst_in_world leave_def)
next
  case (AtWait d now)
  with w show ?thesis by (auto simp: event_wait_def leave_def interrupt_or_overflow_def)
qed (use w cfg in \<open>auto intro!: proceed_ok simp: fst_in_world leave_def now_fst dest: now_fst\<close>)

lemma carries_turn:
  assumes "sampling_ok cfg" "sm_snapshot cfg = snap" "i < length (sp_workers st)" "carries promise st"
  shows "carries promise (worker_turn cfg i st)"
proof -
  obtain w st' where s: "worker_step cfg (sp_workers st ! i) st = (w, st')" by fastforce
  have ok: "worker_ok promise (sp_workers st ! i)"
    using assms(3,4) by (auto simp: carries_def list_all_length)
  with worker_step_ok [OF assms(1,2)] s have "worker_ok promise w" by (metis fst_conv)
  then have "list_all (worker_ok promise) ((sp_workers st')[i := w])"
    using assms(4) worker_step_frame(1) [OF s]
    by (auto simp: carries_def list_all_iff dest!: set_update_subset_insert [THEN subsetD])
  moreover have "list_all (entry_ok promise) (sp_published st')"
    using s assms(4) ok by (cases rule: worker_step_cases) (auto simp: carries_def entry_ok_def)
  ultimately show ?thesis using s by (simp add: worker_turn_def carries_def)
qed

lemma carries_step:
  assumes cfg: "sampling_ok cfg" "sm_snapshot cfg = snap"
    and step: "sampler_step cfg st a st'" and st: "carries promise st"
  shows "carries promise st'"
  using step
proof (cases rule: sampler_step.cases)
  case (step_work i)
  with carries_turn [OF cfg] st show ?thesis by blast
qed (use st in \<open>auto simp: carries_def start_state stop_state open_iterator_def split: sum.splits\<close>)

lemma carries_reach:
  assumes cfg: "sampling_ok cfg" "sm_snapshot cfg = snap" and "sampler_reach cfg st"
  shows "carries promise st"
  using assms(3)
proof (induction rule: sampler_reach.induct)
  case (reach_step st a st')
  from carries_step [OF cfg reach_step.hyps(2) reach_step.IH] show ?case .
qed (simp add: carries_def sampler_start_def)

lemma buffered_promise:
  assumes "sampling_ok cfg" "sm_snapshot cfg = snap" "sampler_reach cfg st"
  shows "list_all promise (buffered st)"
proof -
  have "set (sp_history st) \<subseteq> set (sp_published st)"
    using sampler_reach_inv [OF assms(3)] published_sorted(3) by (auto simp: sampler_inv_def)
  with carries_reach [OF assms] show ?thesis
    by (auto simp: carries_def buffered_def list_all_iff entry_ok_def)
qed

end

interpretation collected: sample_source "take_snapshot cl" snapshot_promise for cl :: "'s collector"
  by unfold_locales (auto dest: take_snapshot_Inr intro: contained_take_snapshot)

section \<open>The schedule on exact numbers\<close>

text \<open>
  The rounded quotient of two whole numbers below \<open>2 ^ 53\<close> has the exact floor: the rounding
  error is smaller than the distance to the next whole number.
\<close>

lemma floor_quotient:
  assumes a: "0 \<le> a" "a < 2 ^ 53" and b: "0 < b" "b < 2 ^ 53"
  shows "floor_float (rnd64 (of_int a / of_int b)) = Inr (a div b)"
proof (cases "a = 0")
  case False
  then have a1: "1 \<le> a" using a(1) by simp
  define q :: rat where "q = of_int a / of_int b"
  have fl: "\<lfloor>q\<rfloor> = a div b" by (simp add: q_def floor_divide_of_int_eq)
  have kq: "of_int (a div b) \<le> q" using fl by (metis of_int_floor_le)
  have qa: "0 \<le> q" "q \<le> of_int a" using a1 b(1) by (simp_all add: q_def divide_le_eq)
  have "of_int (a div b) \<le> (of_int a :: rat)" using kq qa(2) by linarith
  then have k0: "0 \<le> a div b" "a div b \<le> a"
    using a1 b(1) by (simp_all add: pos_imp_zdiv_nonneg_iff)
  have "flt_le (rnd64 q) (Fin (of_int a))"
    using rnd64_mono_nonneg [OF qa] rnd64_of_int [of a] a by simp
  then obtain r where r: "rnd64 q = Fin r"
    using rnd64_not_nan [of q] rnd64_not_neginf [OF qa(1)] by (cases "rnd64 q") simp_all
  have low: "of_int (a div b) \<le> r"
    using rnd64_mono_nonneg [of "of_int (a div b)" q] rnd64_of_int [of "a div b"] k0 a(2) kq r by simp
  have small: "of_int n < (2 ^ 53 :: rat)" if "n < 2 ^ 53" for n :: int
    using that by (metis of_int_less_iff of_int_numeral of_int_power)
  have inv: "1 / 2 ^ 53 \<le> 1 / (of_int b :: rat)"
    using small [OF b(2)] b(1) by (simp add: frac_le)
  have gap: "q + 1 / of_int b \<le> of_int (a div b) + 1"
  proof -
    have "a < (a div b + 1) * b"
      using div_mult_mod_eq [of a b] pos_mod_bound [OF b(1), of a] unfolding distrib_right by linarith
    then have "of_int (a + 1) \<le> (of_int ((a div b + 1) * b) :: rat)" by (simp only: of_int_le_iff)
    then show ?thesis using b(1) by (simp add: q_def field_simps)
  qed
  have "1 / of_int b \<le> q" using a1 b(1) by (simp add: q_def divide_right_mono)
  moreover have "pow2 (- 1022) \<le> 1 / 2 ^ 53"
    using pow2_le_iff [of "- 1022" "- 53"] by (simp add: pow2_def)
  ultimately have "\<bar>r - q\<bar> \<le> q / 2 ^ 53" using rnd64_error [OF r] inv qa(1) by simp
  also have "q / 2 ^ 53 < 1 / of_int b"
  proof -
    have "(of_int a :: rat) < 2 ^ 53" using a(2) by (rule small)
    then show ?thesis using b(1) by (simp add: q_def field_simps)
  qed
  finally have "r < of_int (a div b) + 1" using gap by linarith
  with low have "\<lfloor>r\<rfloor> = a div b" by (simp add: floor_unique)
  then show ?thesis using r by (simp add: q_def)
qed simp

text \<open>The deadlines of the schedule after the next sample that \<open>now\<close> has not reached.\<close>

definition due :: "int \<Rightarrow> int \<Rightarrow> int \<Rightarrow> int \<Rightarrow> bool" where
  "due interval deadline now k \<longleftrightarrow> now < k \<and> deadline < k \<and> interval dvd (k - deadline)"

lemma on_grid_le [simp]: "flt_le (on_grid e j) (on_grid e k) \<longleftrightarrow> j \<le> k"
  by (simp add: on_grid_def)

lemma advance_on_grid:
  assumes e: "grid_exp e" and i: "0 < i" and small: "\<bar>d\<bar> + \<bar>n\<bar> + 2 * i < 2 ^ 53"
  shows "advance (on_grid e i) (on_grid e d) (on_grid e n) =
    Inr (on_grid e (if d + i \<le> n then d + i + ((n - (d + i)) div i + 1) * i else d + i))"
proof (cases "d + i \<le> n")
  case False
  have "fadd (on_grid e d) (on_grid e i) = on_grid e (d + i)"
    using small i by (intro fadd_grid [OF e]) simp
  with False show ?thesis by (simp add: advance_def)
next
  case True
  define a where "a = n - (d + i)"
  define q where "q = a div i"
  have a: "0 \<le> a" "a + i < 2 ^ 53" using True small i by (simp_all add: a_def)
  have qi: "q * i \<le> a" "0 \<le> q"
    using div_mult_mod_eq [of a i] pos_mod_sign [OF i, of a] pos_imp_zdiv_nonneg_iff [OF i, of a] a(1)
    unfolding q_def by linarith+
  have qa: "q \<le> a" using qi i mult_left_mono [of 1 i q] by simp
  have q1: "(q + 1) * i \<le> a + i" using qi(1) by (simp add: distrib_right)
  have add: "fadd (on_grid e d) (on_grid e i) = on_grid e (d + i)"
    using small i by (intro fadd_grid [OF e]) simp
  have sub: "fsub (on_grid e n) (on_grid e (d + i)) = on_grid e a"
    unfolding a_def using small i a by (intro fsub_grid [OF e]) (simp add: a_def)
  have "fdiv (on_grid e a) (on_grid e i) = Inr (rnd64 (of_int a / of_int i))"
    using i by (simp add: on_grid_def)
  then have quot: "ebind (fdiv (on_grid e a) (on_grid e i)) floor_float = Inr q"
    using floor_quotient [of a i] a i by (simp add: q_def)
  have conv: "float_of_int (q + 1) = Inr (Fin (of_int (q + 1)))"
    using qi(2) qa a i by (intro float_of_int_small) simp
  have "rnd64 (of_int ((q + 1) * i) * pow2 e) = on_grid e ((q + 1) * i)"
    using qi(2) q1 a i by (intro rnd64_grid [OF e]) simp
  then have mul: "fmul (Fin (of_int (q + 1))) (on_grid e i) = on_grid e ((q + 1) * i)"
    by (simp add: on_grid_def mult.assoc)
  have last: "fadd (on_grid e (d + i)) (on_grid e ((q + 1) * i)) = on_grid e (d + i + (q + 1) * i)"
  proof (rule fadd_grid [OF e])
    have "0 \<le> (q + 1) * i" using qi(2) i by simp
    with q1 small True i show "\<bar>d + i + (q + 1) * i\<bar> < 2 ^ 53" unfolding a_def by linarith
  qed
  obtain f where f: "fdiv (on_grid e a) (on_grid e i) = Inr f" "floor_float f = Inr q"
    using quot by (auto simp: ebind_Inr_iff)
  show ?thesis
    unfolding a_def [symmetric] q_def [symmetric]
    using True by (simp add: advance_def add sub f conv mul last del: of_int_add)
qed

text \<open>
  C8: missed deadlines are skipped, none is invented. On times that are multiples of one binary
  fraction (as long as they need at most 53 bits) the new deadline is exactly the earliest deadline
  of the schedule that lies after both the old one and the present: no burst of late samples, no
  drift, and at most one interval to wait.
\<close>

theorem deadline_skips_missed:
  assumes "grid_exp e" "0 < i" "\<bar>d\<bar> + \<bar>n\<bar> + 2 * i < 2 ^ 53"
  shows "\<exists>k. advance (on_grid e i) (on_grid e d) (on_grid e n) = Inr (on_grid e k)
    \<and> due i d n k \<and> (\<forall>k'. due i d n k' \<longrightarrow> k \<le> k')"
proof -
  let ?k = "if d + i \<le> n then d + i + ((n - (d + i)) div i + 1) * i else d + i"
  let ?q = "(n - (d + i)) div i"
  have split: "?q * i + (n - (d + i)) mod i = n - (d + i)" by (rule div_mult_mod_eq)
  have mod: "0 \<le> (n - (d + i)) mod i" "(n - (d + i)) mod i < i" using assms(2) by simp_all
  have q: "d + i \<le> n \<Longrightarrow> 0 \<le> ?q" using assms(2) by (simp add: pos_imp_zdiv_nonneg_iff)
  have "n < d + i + (?q + 1) * i \<and> d < d + i + (?q + 1) * i" if "d + i \<le> n"
  proof -
    have "0 \<le> ?q * i" using q [OF that] assms(2) by simp
    then show ?thesis using split mod assms(2) unfolding distrib_right by linarith
  qed
  then have "due i d n ?k"
    using assms(2) by (auto simp: due_def dvd_add dvd_mult2)
  moreover have "?k \<le> k'" if k': "due i d n k'" for k'
  proof -
    obtain m where m: "k' - d = i * m" using k' by (auto simp: due_def)
    with k' have "0 < i * m" "n - d < i * m" by (simp_all add: due_def)
    then have "1 \<le> m" using assms(2) by (simp add: zero_less_mult_iff)
    then have "i \<le> i * m" using assms(2) by simp
    moreover have "(?q + 2) * i \<le> m * i" if "d + i \<le> n"
    proof -
      have "(?q + 1) * i < m * i"
        using \<open>n - d < i * m\<close> split mod unfolding distrib_right mult.commute [of i m] by linarith
      then have "?q + 1 < m" using assms(2) by (simp add: mult_less_cancel_right)
      then show ?thesis using assms(2) by (intro mult_right_mono) simp_all
    qed
    ultimately show ?thesis using m by (auto simp: distrib_right mult.commute [of i m])
  qed
  ultimately show ?thesis using advance_on_grid [OF assms] by blast
qed

theorem deadline_skips_missed_witness:
  "\<exists>k. advance (on_grid (- 1) 3) (on_grid (- 1) 10) (on_grid (- 1) 21) = Inr (on_grid (- 1) k)
    \<and> due 3 10 21 k \<and> (\<forall>k'. due 3 10 21 k' \<longrightarrow> k \<le> k')"
  by (rule deadline_skips_missed) (simp_all add: grid_exp_def)

section \<open>Settings\<close>

lemma positive_seconds_Inr:
  "positive_seconds v = Inr f \<longleftrightarrow>
     (\<exists>n. v = ONum n \<and> num_isfinite n = Inr True \<and> \<not> num_le n (PInt 0) \<and> to_float n = Inr f)"
  by (cases v) (auto simp: positive_seconds_def ebind_Inr_iff)

lemma positive_seconds_Inl: "positive_seconds v = Inl e \<Longrightarrow> e = ValidationError \<or> e = OverflowError"
  by (cases v) (auto simp: positive_seconds_def ebind_Inl_iff dest: num_isfinite_Inl num_isfinite_True
      split: if_splits)

lemma buffer_limit_Inr:
  "buffer_limit v = Inr n \<longleftrightarrow> (v = ONone \<and> n = 1) \<or> (v = ONum (PInt n) \<and> 0 < n)"
  by (auto simp: buffer_limit_def split: obj.splits pynum.splits if_splits)

lemma buffer_limit_Inl: "buffer_limit v = Inl e \<Longrightarrow> e = ValidationError"
  by (auto simp: buffer_limit_def split: obj.splits pynum.splits if_splits)

text \<open>The accepted settings.\<close>

definition settings_ok :: "obj \<Rightarrow> 'f callable_arg option \<Rightarrow> obj \<Rightarrow> 'g callable_arg \<Rightarrow> bool" where
  "settings_ok interval on_sample buffer clock \<longleftrightarrow>
     on_sample \<noteq> Some NotCallable \<and> clock \<noteq> NotCallable
     \<and> (case buffer of ONone \<Rightarrow> True | ONum (PInt n) \<Rightarrow> 0 < n \<and> n \<le> ssize_max | _ \<Rightarrow> False)
     \<and> (case interval of ONum n \<Rightarrow> num_isfinite n = Inr True \<and> \<not> num_le n (PInt 0) | _ \<Rightarrow> False)"

text \<open>
  Construction succeeds exactly for a callback that is absent or callable, a callable clock, a
  buffer size that is absent or a positive integer the interpreter can index, and a positive finite
  interval; it keeps them, with room for one snapshot when no size is given. Otherwise it raises a
  validation error, or an overflow error for an integer too large to convert.
\<close>

theorem sampler_init_spec:
  "case sampler_init cl interval on_sample buffer clock std limit of
     Inl e \<Rightarrow> \<not> settings_ok interval on_sample buffer clock \<and> (e = ValidationError \<or> e = OverflowError)
   | Inr cfg \<Rightarrow>
       settings_ok interval on_sample buffer clock
       \<and> sm_snapshot cfg = take_snapshot cl
       \<and> Some (sm_interval cfg) = (case positive_seconds interval of Inr f \<Rightarrow> Some f | Inl _ \<Rightarrow> None)
       \<and> map_option IsCallable (sm_callback cfg) = on_sample \<and> IsCallable (sm_clock cfg) = clock
       \<and> buffer \<in> (if sm_maxlen cfg = 1 then {ONone, ONum (PInt 1)} else {ONum (PInt (int (sm_maxlen cfg)))})
       \<and> 1 \<le> sm_maxlen cfg"
proof (cases "settings_ok interval on_sample buffer clock")
  case True
  then obtain f where f: "positive_seconds interval = Inr f"
    by (auto simp: settings_ok_def positive_seconds_Inr split: obj.splits dest: num_isfinite_True)
  obtain n where n: "buffer_limit buffer = Inr n" "n \<le> ssize_max" "1 \<le> n"
    using True by (cases "buffer = ONone")
      (auto simp: settings_ok_def buffer_limit_def ssize_max_def split: obj.splits pynum.splits)
  obtain callback where c: "on_sample = map_option IsCallable callback"
  proof (cases on_sample)
    case (Some g)
    with True obtain h where "g = IsCallable h" by (cases g) (auto simp: settings_ok_def)
    with Some that [of "Some h"] show thesis by simp
  qed (use that [of None] in simp)
  obtain clk where k: "clock = IsCallable clk"
    using True by (cases clock) (auto simp: settings_ok_def)
  have "sampler_init cl interval on_sample buffer clock std limit =
      Inr \<lparr>sm_snapshot = take_snapshot cl, sm_interval = f, sm_callback = callback, sm_clock = clk,
           sm_maxlen = nat n, sm_monotonic = std, sm_timeout_max = limit\<rparr>"
    using n f by (cases callback) (simp_all add: sampler_init_def c k)
  then show ?thesis
    using True n f c k by (auto simp: buffer_limit_Inr)
next
  case False
  show ?thesis
  proof (cases "sampler_init cl interval on_sample buffer clock std limit")
    case (Inl e)
    then have "e = ValidationError \<or> e = OverflowError"
      by (auto simp: sampler_init_def ebind_Inl_iff dest: positive_seconds_Inl buffer_limit_Inl
          split: option.splits callable_arg.splits if_splits)
    with Inl False show ?thesis by simp
  next
    case (Inr cfg)
    with False show ?thesis
      by (auto simp: sampler_init_def ebind_Inr_iff settings_ok_def positive_seconds_Inr buffer_limit_Inr ssize_max_def
          split: option.splits callable_arg.splits if_splits)
  qed
qed

lemma positive_value: "to_float n = Inr f \<Longrightarrow> \<not> num_le n (PInt 0) \<Longrightarrow> num_isfinite n = Inr True \<Longrightarrow> \<exists>i. f = Fin i \<and> 0 < i"
proof (cases n)
  case (PInt k)
  assume a: "to_float n = Inr f" "\<not> num_le n (PInt 0)"
  with PInt have k: "1 \<le> k" and r: "rnd64 (of_int k) = f" "\<exists>x. f = Fin x"
    by (auto simp: num_le_def float_of_int_Inr)
  have "flt_le (rnd64 1) (rnd64 (of_int k))" using k by (intro rnd64_mono_nonneg) simp_all
  with r rnd64_of_int [of 1] show ?thesis by auto
next
  case (PFlt g)
  assume "to_float n = Inr f" "\<not> num_le n (PInt 0)" "num_isfinite n = Inr True"
  with PFlt show ?thesis by (cases g) (auto simp: num_le_def)
qed

lemma sampler_init_ok:
  assumes "sampler_init cl interval on_sample buffer clock std limit = Inr cfg"
    and "\<And>w. \<exists>r. std w = Fin r"
  shows "sampling_ok cfg" "sm_snapshot cfg = take_snapshot cl"
  using assms
  by (auto simp: sampler_init_def ebind_Inr_iff sampling_ok_def positive_seconds_Inr buffer_limit_Inr
      split: if_splits dest!: positive_value)

section \<open>Properties of every interleaving\<close>

text \<open>
  C3: at most one worker. However starts, stops, failures to create a thread and worker steps
  interleave, only the thread the sampler points to, the newest, can be alive: a restart never
  leaves two workers sampling.
\<close>

theorem single_worker:
  assumes "sampler_reach cfg st"
  shows "length (filter is_alive (sp_workers st)) \<le> 1
    \<and> (thread_is_alive st \<longleftrightarrow> list_ex is_alive (sp_workers st))"
proof -
  have inv: "one_worker st" using sampler_reach_inv [OF assms] by (simp add: sampler_inv_def)
  have dead: "\<not> is_alive (sp_workers st ! i)" if i: "i < length (sp_workers st) - 1" for i
  proof
    assume "is_alive (sp_workers st ! i)"
    moreover have "i < length (sp_workers st)" using i by linarith
    ultimately have "sp_thread st = Some i" using inv unfolding one_worker_def by blast
    moreover have "sp_thread st = Some (length (sp_workers st) - 1)"
      using inv i by (cases "sp_workers st") (simp_all add: one_worker_def)
    ultimately show False using i by simp
  qed
  have "filter is_alive (butlast (sp_workers st)) = []"
    using dead by (auto simp: filter_empty_conv in_set_conv_nth nth_butlast)
  moreover have "filter is_alive ws = filter is_alive (butlast ws) @ (if is_alive (List.last ws) then [List.last ws] else [])"
    if "ws \<noteq> []" for ws
    using that by (induction ws rule: rev_induct) auto
  ultimately have "length (filter is_alive (sp_workers st)) \<le> 1"
    by (cases "sp_workers st = []") auto
  with one_worker_alive [OF inv] show ?thesis by simp
qed

text \<open>
  C4: readers see the newest snapshots. In every reachable state the history is the newest part of
  everything ever published, across restarts, numbered without gaps and no longer than the
  configured size; the latest snapshot is the last one published, and there is none only before
  the first. Its age is never negative, whatever the clocks do, and asking for it fails only
  for an interrupt or a clock value no float can hold.
\<close>

theorem readers_see_newest:
  assumes "sampler_reach cfg st" "sampling_ok cfg"
  shows "map fst (sp_published st) = [1..<Suc (sp_sequence st)]
    \<and> buffered st = map entry_snapshot (drop (sp_sequence st - sm_maxlen cfg) (sp_published st))
    \<and> latest st = (if sp_published st = [] then None else Some (entry_snapshot (List.last (sp_published st))))
    \<and> (case latest_age_seconds cfg st of
         (Inl e, _) \<Rightarrow> interrupt_or_overflow e
       | (Inr None, _) \<Rightarrow> sp_published st = []
       | (Inr (Some age), _) \<Rightarrow> sp_published st \<noteq> [] \<and> flt_le (Fin 0) age)"
proof -
  have h: "recent_history (sm_maxlen cfg) st" using sampler_reach_inv [OF assms(1)] by (simp add: sampler_inv_def)
  then have len: "length (sp_published st) = sp_sequence st" by (auto simp: recent_history_def dest: arg_cong [where f = length])
  have m: "1 \<le> sm_maxlen cfg" using assms(2) by (simp add: sampling_ok_def)
  have "sp_history st = [] \<longleftrightarrow> length (sp_published st) \<le> length (sp_published st) - sm_maxlen cfg"
    using h unfolding recent_history_def by simp
  then have empty: "sp_history st = [] \<longleftrightarrow> sp_published st = []"
    using m by (cases "sp_published st") auto
  have newest: "List.last (sp_history st) = List.last (sp_published st)" if "sp_published st \<noteq> []"
    using h m that by (simp add: recent_history_def last_drop)
  have nonneg: "flt_le (Fin 0) (at_least_zero x)" for x
    by (cases x) (auto simp: at_least_zero_def)
  have age: "case latest_age_seconds cfg st of
         (Inl e, _) \<Rightarrow> interrupt_or_overflow e
       | (Inr None, _) \<Rightarrow> sp_published st = []
       | (Inr (Some age), _) \<Rightarrow> sp_published st \<noteq> [] \<and> flt_le (Fin 0) age"
  proof (cases "fst (monotonic_now cfg (sp_world st))")
    case (Inl e)
    with now_fst(2) [OF assms(2), of "sp_world st" e] empty show ?thesis
      by (auto simp: latest_age_seconds_def cbind_def in_world_def czoom_def split: prod.splits)
  next
    case (Inr now)
    with empty nonneg show ?thesis
      by (auto simp: latest_age_seconds_def cbind_def in_world_def czoom_def creturn_def split: prod.splits)
  qed
  show ?thesis
    using h len empty newest age by (simp add: recent_history_def buffered_def latest_def)
qed

text \<open>
  C9: an iterator hands out published snapshots only, each at most once and in order, and misses
  only what the history has overwritten: every retained snapshot behind its cursor has been handed
  out. While it waits it has handed out everything retained, so no snapshot is left behind by a
  wait.
\<close>

theorem iterator_in_order:
  assumes "sampler_reach cfg st" "it \<in> set (sp_iters st)"
  shows "sorted_wrt (<) (map fst (it_received it @ pending it))
    \<and> set (it_received it @ pending it) \<subseteq> set (sp_published st)
    \<and> {e \<in> set (sp_history st). entry_sequence e < it_next it} \<subseteq> set (it_received it)
    \<and> (it_phase it = Blocked \<longrightarrow> set (sp_history st) \<subseteq> set (it_received it))"
proof -
  have "iterator_ok (sp_published st) it" "iterator_complete (sp_sequence st) (sp_history st) it"
    using sampler_reach_inv [OF assms(1)] sampler_reach_complete [OF assms(1)] assms(2)
    by (simp_all add: sampler_inv_def iterators_complete_def list_all_iff)
  then show ?thesis unfolding iterator_ok_def iterator_complete_def list_all_iff by blast
qed

text \<open>
  C5: a stop request is final for its worker. After \<open>stop\<close> has set the event the worker makes at
  most eight more steps before it has finished, however the clients interleave and even if one of
  them calls \<open>start\<close> before it has ended; until then its next step is always possible.
\<close>

theorem stop_terminates:
  assumes "sampler_reach cfg st" "sp_stop st" "sp_thread st = Some i" "sampler_run cfg st as st'"
  shows "count_list as (Work i) \<le> 8
    \<and> (if is_alive (sp_workers st' ! i) then count_list as (Work i) < 8 \<and> (\<exists>st''. sampler_step cfg st' (Work i) st'')
       else \<not> (\<exists>st''. sampler_step cfg st' (Work i) st''))"
proof -
  have "stopping i st'" "count_list as (Work i) + stop_rank (sp_workers st' ! i) \<le> 8"
    using stopping_run [OF assms(4) stopping_thread(1) [OF assms(1-3)]] stop_rank_bound [of "sp_workers st ! i"]
    by auto
  then show ?thesis
    using stop_rank_0 [of "sp_workers st' ! i"] by (auto simp: step_work_iff stopping_def)
qed

text \<open>
  C7: at most one sample follows a stop request: as long as no new worker is started, the
  number of published snapshots grows by one at most.
\<close>

theorem stop_quiesces:
  assumes "sampler_reach cfg st" "sp_stop st" "sp_thread st = Some i" "sampler_run cfg st as st'"
    and "length (sp_workers st') = length (sp_workers st)"
  shows "sp_sequence st' \<le> sp_sequence st + 1"
proof -
  note t = stopping_thread [OF assms(1-3)]
  have "sp_sequence st' + in_hand (sp_workers st' ! i) \<le> sp_sequence st + in_hand (sp_workers st ! i)"
    using in_hand_run [OF assms(4) sampler_reach_inv [OF assms(1)] t(1)] assms(5) t(2) by simp
  moreover have "in_hand (sp_workers st ! i) \<le> 1" by (cases "sp_workers st ! i") auto
  ultimately show ?thesis by simp
qed

text \<open>Endless interleavings.\<close>

definition sampler_execution ::
  "'w sampling \<Rightarrow> (nat \<Rightarrow> 'w sampler_state) \<Rightarrow> (nat \<Rightarrow> action) \<Rightarrow> bool" where
  "sampler_execution cfg states actions \<longleftrightarrow> (\<forall>n. sampler_step cfg (states n) (actions n) (states (Suc n)))"

text \<open>
  C6: a stopped worker ends. In every endless interleaving in which a worker that is alive is
  eventually scheduled again, the worker of a stop request is finished from some point on.
\<close>

theorem stop_eventually_finishes:
  assumes "sampler_execution cfg states actions" "sampler_reach cfg (states 0)"
    and "sp_stop (states 0)" "sp_thread (states 0) = Some i"
    and "\<And>n. is_alive (sp_workers (states n) ! i) \<Longrightarrow> \<exists>m \<ge> n. actions m = Work i"
  shows "\<exists>n. \<forall>m \<ge> n. \<not> is_alive (sp_workers (states m) ! i)"
proof -
  define rank where "rank n = stop_rank (sp_workers (states n) ! i)" for n
  have step: "sampler_step cfg (states n) (actions n) (states (Suc n))" for n
    using assms(1) by (simp add: sampler_execution_def)
  have stop: "stopping i (states n)" for n
    by (induction n) (auto intro: stopping_thread(1) [OF assms(2-4)] stopping_step(1) [OF step])
  have down: "rank (Suc n) + (if actions n = Work i then 1 else 0) \<le> rank n" for n
    unfolding rank_def by (rule stopping_step(2) [OF step stop])
  have mono: "n \<le> m \<Longrightarrow> rank m \<le> rank n" for n m
    by (rule lift_Suc_antimono_le [of rank]) (use down in \<open>auto intro: order_trans [OF le_add1]\<close>)
  have "\<exists>m. rank m = 0" if "rank n = r" for n r
    using that
  proof (induction r arbitrary: n rule: less_induct)
    case (less r)
    show ?case
    proof (cases "rank n = 0")
      case False
      then obtain m where m: "n \<le> m" "actions m = Work i"
        using assms(5) [of n] stop_rank_0 by (auto simp: rank_def)
      have "rank (Suc m) < rank m" using down [of m] m(2) by simp
      with mono [OF m(1)] less.prems less.IH [of "rank (Suc m)" "Suc m"] show ?thesis by simp
    qed blast
  qed
  then obtain n where "rank n = 0" by blast
  with mono [of n] have "rank m = 0" if "n \<le> m" for m using that by fastforce
  then show ?thesis using stop_rank_0 by (auto simp: rank_def)
qed


section \<open>Concrete runs\<close>

text \<open>One action performed on a state, and the states of a whole sequence of actions.\<close>

fun play :: "'w sampling \<Rightarrow> 'w sampler_state \<Rightarrow> action \<Rightarrow> 'w sampler_state" where
  "play cfg st World = st"
| "play cfg st (Start spawned) = snd (start spawned st)"
| "play cfg st (Stop timeout) = snd (stop_request timeout st)"
| "play cfg st Iterate = open_iterator st"
| "play cfg st (Consume k) = iterator_turn k st"
| "play cfg st (Work i) = worker_turn cfg i st"

fun can_play :: "'w sampler_state \<Rightarrow> action \<Rightarrow> bool" where
  "can_play st (Consume k) =
     (k < length (sp_iters st) \<and> it_phase (sp_iters st ! k) \<notin> {Blocked, Ended})"
| "can_play st (Work i) = (i < length (sp_workers st) \<and> is_alive (sp_workers st ! i))"
| "can_play st a = True"

fun can_run :: "'w sampling \<Rightarrow> 'w sampler_state \<Rightarrow> action list \<Rightarrow> bool" where
  "can_run cfg st [] = True"
| "can_run cfg st (a # as) = (can_play st a \<and> can_run cfg (play cfg st a) as)"

lemma play_step: "can_play st a \<Longrightarrow> sampler_step cfg st a (play cfg st a)"
  using step_world [of cfg st "sp_world st"] by (cases a) (auto intro: sampler_step.intros)

lemma run_cons:
  assumes "sampler_run cfg r as t" "sampler_step cfg st a r"
  shows "sampler_run cfg st (a # as) t"
  using assms
proof (induction rule: sampler_run.induct)
  case (run_none r)
  from sampler_run.run_more [OF sampler_run.run_none run_none] show ?case by simp
next
  case (run_more r as s b t)
  from sampler_run.run_more [OF run_more.IH [OF run_more.prems] run_more.hyps(2)] show ?case by simp
qed

lemma can_run_run: "can_run cfg st as \<Longrightarrow> sampler_run cfg st as (foldl (play cfg) st as)"
  by (induction as arbitrary: st) (auto intro: run_none run_cons play_step)

lemma can_run_reach: "can_run cfg (sampler_start w) as \<Longrightarrow> sampler_reach cfg (foldl (play cfg) (sampler_start w) as)"
  by (rule sampler_run_reach [OF can_run_run reach_start])

text \<open>A sampler of the quiet machine that keeps two snapshots, on a clock that stands still.\<close>

definition still_clock :: "('w, obj) comp" where
  "still_clock = creturn (ONum (PInt 0))"

definition quiet_sampling :: "unit collector_state sampling" where
  "quiet_sampling =
     \<lparr>sm_snapshot = take_snapshot quiet_collector, sm_interval = Fin 1, sm_callback = None,
      sm_clock = still_clock, sm_maxlen = 2, sm_monotonic = (\<lambda>_. Fin 0),
      sm_timeout_max = Fin 9223372036\<rparr>"

abbreviation quiet_begin :: "unit collector_state sampler_state" where
  "quiet_begin \<equiv> sampler_start (collector_start ())"

lemma quiet_init:
  "sampler_init quiet_collector (ONum (PInt 1)) None (ONum (PInt 2)) (IsCallable still_clock) (\<lambda>_. Fin 0)
     (Fin 9223372036) = Inr quiet_sampling"
  by (simp add: sampler_init_def buffer_limit_def positive_seconds_def num_le_def
      ssize_max_def quiet_sampling_def) (simp add: float_of_int_small [of 1, simplified])

lemma quiet_ok: "sampling_ok quiet_sampling" "sm_snapshot quiet_sampling = take_snapshot quiet_collector"
  by (simp_all add: sampling_ok_def quiet_sampling_def)

lemma quiet_now: "monotonic_now quiet_sampling w = (Inr (Fin 0), w)"
  by (simp add: monotonic_now_def quiet_sampling_def still_clock_def cbind_def safe_eq creturn_def
      safe_result_def clift_def float_of_int_small)

lemma quiet_take:
  "take_snapshot quiet_collector (collector_start ()) =
     (Inr quiet_snapshot, \<lparr>co_world = (), co_reasons = ts_reasons quiet_snapshot\<rparr>)"
  by (simp add: take_snapshot_def collector_start_def on_machine_def czoom_def safely_def with_fresh_reasons_def
      quiet_collected cbind_apply cmap_def safe_eq safe_result_def comp_runs snapshot_unavailable_reasons_def)
    (simp add: quiet_snapshot_def dict_update_def dict_set_def)

lemma quiet_advance: "advance (Fin 1) (Fin 0) (Fin 0) = Inr (Fin 1)"
  using rnd64_of_int [of 1] by (simp add: advance_def)

lemma quiet_wait: "at_least_zero (fsub (Fin 1) (Fin 0)) = Fin 1"
  using rnd64_of_int [of 1] by (simp add: at_least_zero_def fsub_def)

lemma quiet_in_world: "in_world (monotonic_now quiet_sampling) st = (Inr (Fin 0), st)"
  by (simp add: in_world_def czoom_def quiet_now)

lemma quiet_steps:
  "worker_step quiet_sampling AtBegin st = (AtCheck (Fin 0), st)"
  "sp_world st = collector_start () \<Longrightarrow> worker_step quiet_sampling (AtCollect d) st =
     (AtStamp d quiet_snapshot, st\<lparr>sp_world := \<lparr>co_world = (), co_reasons = ts_reasons quiet_snapshot\<rparr>\<rparr>)"
  "worker_step quiet_sampling (AtStamp d s) st = (AtPublish d s (Fin 0), st)"
  "worker_step quiet_sampling (AtCallback d s) st = (AtSchedule d, st)"
  "worker_step quiet_sampling (AtSchedule (Fin 0)) st = (AtWait (Fin 1) (Fin 0), st)"
  "worker_step quiet_sampling (AtWait (Fin 1) (Fin 0)) st =
     (if sp_stop st then AtExit None else AtCheck (Fin 1), st)"
  "worker_step quiet_sampling (AtCheck d) st = (if sp_stop st then AtExit None else AtCollect d, st)"
  "worker_step quiet_sampling (AtPublish d s t) st = (AtCallback d s, publish quiet_sampling s t st)"
  "worker_step quiet_sampling (AtExit e) st = (AtReturn e, notify_all st)"
  "worker_step quiet_sampling (AtReturn e) st = (Finished e, st)"
  "sm_maxlen quiet_sampling = 2"
  using quiet_take quiet_advance
  by (simp_all add: proceed_def quiet_in_world in_world_def czoom_def run_callback_def quiet_sampling_def
      creturn_def cbind_def clift_def event_wait_def quiet_wait)
    (simp_all add: quiet_in_world [unfolded quiet_sampling_def in_world_def czoom_def])

lemmas run_simps =
  can_run.simps play.simps can_play.simps start_def thread_is_alive_def open_iterator_def worker_turn_def
  iterator_turn_def iterator_step_def examine_def available_def publish_def deque_append_def notify_all_def
  wake_def stop_request_def cbind_apply comp_runs

definition first_sample :: "action list" where
  "first_sample = [Start True, Iterate, Work 0, Work 0, Work 0, Work 0, Work 0]"

definition sampled :: "unit collector_state sampler_state" where
  "sampled =
     \<lparr>sp_world = \<lparr>co_world = (), co_reasons = ts_reasons quiet_snapshot\<rparr>,
      sp_history = [(1, quiet_snapshot, Fin 0)], sp_stop = False, sp_thread = Some 0, sp_sequence = 1,
      sp_workers = [AtCallback (Fin 0) quiet_snapshot],
      sp_iters = [\<lparr>it_next = 1, it_phase = AtTop, it_received = []\<rparr>],
      sp_published = [(1, quiet_snapshot, Fin 0)]\<rparr>"

lemma first_sample_run:
  "can_run quiet_sampling quiet_begin first_sample \<and> foldl (play quiet_sampling) quiet_begin first_sample = sampled"
  by (simp add: first_sample_def sampler_start_def run_simps quiet_steps Let_def sampled_def del: worker_step.simps)

lemma sampled_reach: "sampler_reach quiet_sampling sampled"
  using can_run_reach [of quiet_sampling "collector_start ()" first_sample] first_sample_run by simp

definition five_seconds :: obj where
  "five_seconds = ONum (PFlt (Fin 5))"

lemma positive_five: "positive_seconds five_seconds = Inr (Fin 5)"
  by (simp add: positive_seconds_def five_seconds_def num_le_def)

definition stopped :: "unit collector_state sampler_state" where
  "stopped = play quiet_sampling sampled (Stop five_seconds)"

lemma stopped_reach: "sampler_reach quiet_sampling stopped"
  unfolding stopped_def by (rule reach_step [OF sampled_reach play_step]) simp

lemma stopped_eq: "stopped = sampled\<lparr>sp_stop := True\<rparr>"
  by (simp add: stopped_def run_simps positive_five) (simp add: sampled_def wake_def)

abbreviation finishing :: "action list" where
  "finishing \<equiv> [Work 0, Work 0, Work 0, Work 0, Work 0]"

definition finished :: "unit collector_state sampler_state" where
  "finished = sampled\<lparr>sp_stop := True, sp_workers := [Finished None]\<rparr>"

lemma finishing_run:
  "can_run quiet_sampling stopped finishing \<and> foldl (play quiet_sampling) stopped finishing = finished"
  by (simp add: stopped_eq run_simps quiet_steps Let_def sampled_def finished_def del: worker_step.simps)

theorem single_worker_witness:
  "length (filter is_alive (sp_workers sampled)) \<le> 1
    \<and> (thread_is_alive sampled \<longleftrightarrow> list_ex is_alive (sp_workers sampled))"
  by (rule single_worker [OF sampled_reach])

theorem readers_see_newest_witness:
  "latest sampled = Some quiet_snapshot \<and> buffered sampled = [quiet_snapshot]"
  using readers_see_newest [OF sampled_reach quiet_ok(1)] by (simp add: quiet_steps) (simp add: sampled_def)

theorem iterator_in_order_witness:
  "set (pending (iterator_step sampled (sp_iters sampled ! 0))) = {(1, quiet_snapshot, Fin 0)}"
proof -
  let ?st = "play quiet_sampling sampled (Consume 0)"
  have "sampler_reach quiet_sampling ?st"
    by (rule reach_step [OF sampled_reach play_step]) (simp add: sampled_def)
  moreover have "sp_iters ?st ! 0 \<in> set (sp_iters ?st)" by (simp add: sampled_def)
  ultimately have "set (it_received (sp_iters ?st ! 0) @ pending (sp_iters ?st ! 0)) \<subseteq> set (sp_published ?st)"
    using iterator_in_order by blast
  then show ?thesis
    by (simp add: sampled_def iterator_step_def examine_def available_def pending_def)
qed

lemma stopped_facts: "sp_stop stopped" "sp_thread stopped = Some 0" "length (sp_workers stopped) = 1"
    "sp_sequence stopped = 1"
  by (simp_all add: stopped_eq sampled_def)

lemma finished_facts: "sp_workers finished = [Finished None]" "sp_sequence finished = 1"
  by (simp_all add: finished_def sampled_def)

lemma stopped_run: "sampler_run quiet_sampling stopped finishing finished"
  using can_run_run [OF finishing_run [THEN conjunct1]] unfolding finishing_run [THEN conjunct2] .

theorem stop_terminates_witness:
  "count_list finishing (Work 0) \<le> 8 \<and> \<not> (\<exists>st. sampler_step quiet_sampling finished (Work 0) st)"
  using stop_terminates [OF stopped_reach stopped_facts(1,2) stopped_run] by (simp add: finished_facts)

theorem stop_quiesces_witness:
  "sp_sequence finished \<le> sp_sequence stopped + 1"
  by (rule stop_quiesces [OF stopped_reach stopped_facts(1,2) stopped_run])
    (simp add: stopped_facts finished_facts)

text \<open>The run of a stop, continued by steps of the world alone.\<close>

definition ending_action :: "nat \<Rightarrow> action" where
  "ending_action n = (if n < 5 then Work 0 else World)"

definition ending :: "nat \<Rightarrow> unit collector_state sampler_state" where
  "ending n = foldl (play quiet_sampling) stopped (map ending_action [0..<n])"

lemma can_run_append:
  "can_run cfg st (as @ bs) \<longleftrightarrow> can_run cfg st as \<and> can_run cfg (foldl (play cfg) st as) bs"
  by (induction as arbitrary: st) auto

lemma ending_5: "map ending_action [0..<5] = finishing"
  by (simp add: ending_action_def upt_rec)

lemma ending_late: "5 \<le> n \<Longrightarrow> ending n = finished"
proof (induction n rule: nat_induct_at_least)
  case base
  then show ?case using finishing_run by (simp add: ending_def ending_5)
next
  case (Suc n)
  then show ?case by (simp add: ending_def) (simp add: ending_action_def)
qed

lemma ending_early:
  assumes "n < 5" shows "can_play (ending n) (ending_action n)"
proof -
  have "[0..<5] = [0..<n] @ n # [Suc n..<5]"
    using upt_add_eq_append [of 0 n "5 - n"] upt_conv_Cons [OF assms] assms by simp
  then have "finishing = map ending_action [0..<n] @ ending_action n # map ending_action [Suc n..<5]"
    by (metis ending_5 list.simps(9) map_append)
  with finishing_run show ?thesis by (metis can_run.simps(2) can_run_append ending_def)
qed

lemma ending_execution: "sampler_execution quiet_sampling ending ending_action"
  unfolding sampler_execution_def
proof
  fix n
  have "can_play (ending n) (ending_action n)"
    using ending_early by (cases "n < 5") (simp_all add: ending_action_def)
  from play_step [OF this] show "sampler_step quiet_sampling (ending n) (ending_action n) (ending (Suc n))"
    by (simp add: ending_def)
qed

theorem stop_eventually_finishes_witness:
  "\<exists>n. \<forall>m \<ge> n. \<not> is_alive (sp_workers (ending m) ! 0)"
proof (rule stop_eventually_finishes [OF ending_execution])
  show "sampler_reach quiet_sampling (ending 0)" "sp_stop (ending 0)" "sp_thread (ending 0) = Some 0"
    using stopped_reach stopped_facts by (simp_all add: ending_def)
  fix n assume alive: "is_alive (sp_workers (ending n) ! 0)"
  then have "n < 5" using ending_late [of n] by (cases "n < 5") (simp_all add: finished_facts)
  then show "\<exists>m \<ge> n. ending_action m = Work 0" by (auto simp: ending_action_def)
qed


section \<open>A wait that nobody ends\<close>

text \<open>
  \<open>_run\<close> wakes the iterators while its thread is still alive, and nothing does once the thread
  has ended. An iterator that is woken by the last notification finds the thread alive, waits again,
  and can take no further step although the sampler has stopped.
\<close>

definition stranding :: "action list" where
  "stranding =
     first_sample @ [Work 0, Work 0, Consume 0, Consume 0, Consume 0, Consume 0,
       Stop five_seconds, Consume 0, Work 0, Work 0, Consume 0, Work 0]"

lemma iterator_stranded:
  "\<exists>st. sampler_run quiet_sampling quiet_begin stranding st
     \<and> \<not> thread_is_alive st \<and> it_phase (sp_iters st ! 0) = Blocked
     \<and> (\<forall>st'. \<not> sampler_step quiet_sampling st (Consume 0) st')"
proof -
  let ?st = "foldl (play quiet_sampling) quiet_begin stranding"
  have run: "can_run quiet_sampling quiet_begin stranding
    \<and> \<not> thread_is_alive ?st \<and> it_phase (sp_iters ?st ! 0) = Blocked"
    using first_sample_run
    by (simp add: stranding_def can_run_append)
      (simp add: sampled_def run_simps quiet_steps positive_five Let_def del: worker_step.simps)
  then have "sampler_run quiet_sampling quiet_begin stranding ?st" by (intro can_run_run) simp
  with run show ?thesis by (auto simp: step_consume_iff)
qed

section \<open>Values that end the worker\<close>

text \<open>
  Three values that are not refused, or not caught, where they are read: an interval no float can
  hold, a clock value no float can hold, and an interval the platform cannot wait for.
\<close>

lemma huge_interval_escapes:
  "float_of_int k = Inl OverflowError \<Longrightarrow> positive_seconds (ONum (PInt k)) = Inl OverflowError"
  by (simp add: positive_seconds_def)

lemma huge_clock_escapes:
  assumes "sm_clock cfg w = (Inr (ONum (PInt k)), w')" "float_of_int k = Inl OverflowError"
  shows "monotonic_now cfg w = (Inl OverflowError, w')"
  using assms by (simp add: monotonic_now_def safe_def safe_call_def comp_defs)

lemma long_wait_ends_worker:
  "flt_less m t \<Longrightarrow> event_wait m False t = Inl OverflowError"
  by (simp add: event_wait_def)

end
