(* ===== verification/Backends.thy ===== *)
theory Backends
  imports Nvidia_Smi Nvml
begin

text \<open>
  The two NVIDIA backends side by side: one description of the installed cards, what the driver
  prints of them for \<open>nvidia-smi\<close> and what it answers through NVML, and the proof that both
  readers make the same samples of them (docs/packages/sweatmeter/spec.md,
  tests/contract/test_gpu_reader_conformance.py).
\<close>

section \<open>The cards\<close>

text \<open>
  A reading in the driver's own unit: percent, mebibytes of memory, degrees Celsius, milliwatts or
  megahertz; \<open>None\<close> where the device has no such sensor.
\<close>

record gpu_card =
  cd_uuid :: string
  cd_level :: "gpu_field \<Rightarrow> nat option"

definition memory_field :: "gpu_field \<Rightarrow> bool" where
  "memory_field f \<longleftrightarrow> f \<in> {VramUsed, VramTotal}"

definition power_field :: "gpu_field \<Rightarrow> bool" where
  "power_field f \<longleftrightarrow> f \<in> {Power, PowerLimit}"

text \<open>The amount in the unit of a sample.\<close>

definition amount :: "gpu_field \<Rightarrow> nat \<Rightarrow> rat" where
  "amount f n =
     (if memory_field f then of_nat (n * 1048576) else if power_field f then of_nat n / 1000 else of_nat n)"

text \<open>
  Sizes a double holds exactly, percentages of at most 100, power in the hundredths of a watt the tool
  prints, pairs of readings that come from one call, and no memory sensor, which NVML does not read.
\<close>

definition card_ok :: "gpu_card \<Rightarrow> bool" where
  "card_ok c \<longleftrightarrow>
     list_all (\<lambda>f. case cd_level c f of
         None \<Rightarrow> True
       | Some n \<Rightarrow> n < 2 ^ 33 \<and> (field_maximum f \<noteq> None \<longrightarrow> n \<le> 100) \<and> (power_field f \<longrightarrow> n mod 10 = 0))
       gpu_field_list
     \<and> (cd_level c VramUsed = None \<longleftrightarrow> cd_level c VramTotal = None)
     \<and> (cd_level c Utilization = None \<longleftrightarrow> cd_level c MemoryUtilization = None)
     \<and> cd_level c MemoryTemperature = None
     \<and> plain_word (cd_uuid c) \<and> plain_line (cd_uuid c) \<and> int (length (cd_uuid c)) \<le> field_limit
     \<and> lower (cd_uuid c) \<notin> set unavailable_markers"

lemma card_level:
  assumes "card_ok c" "cd_level c f = Some n"
  shows "n < 2 ^ 33" "field_maximum f \<noteq> None \<Longrightarrow> n \<le> 100" "power_field f \<Longrightarrow> n mod 10 = 0"
    "f \<noteq> MemoryTemperature"
proof -
  have "\<forall>f. case cd_level c f of None \<Rightarrow> True
      | Some n \<Rightarrow> n < 2 ^ 33 \<and> (field_maximum f \<noteq> None \<longrightarrow> n \<le> 100) \<and> (power_field f \<longrightarrow> n mod 10 = 0)"
    using assms(1) gpu_field_list_all by (simp add: card_ok_def list_all_iff)
  from this [rule_format, of f] assms(2)
  show "n < 2 ^ 33" "field_maximum f \<noteq> None \<Longrightarrow> n \<le> 100" "power_field f \<Longrightarrow> n mod 10 = 0" by simp_all
  show "f \<noteq> MemoryTemperature" using assms by (auto simp: card_ok_def)
qed

section \<open>Decimal text\<close>

text \<open>A number with an optional fraction is read as the nearest double.\<close>

lemma digit_not_letter: "is_digit d \<Longrightarrow> lower_char d \<noteq> CHR ''i'' \<and> lower_char d \<noteq> CHR ''n''"
  by (auto simp: is_digit_def lower_char_def split: if_splits)

lemma float_of_digits:
  assumes "list_all is_digit ds" "ds \<noteq> []"
  shows "float_of_text ds = Inr (rnd64 (of_int (digits_val ds)))"
proof -
  obtain d ds' where d: "ds = d # ds'" "is_digit d" using assms by (cases ds) auto
  have tw: "takeWhile is_digit ds = ds" "dropWhile is_digit ds = []"
    using assms(1) by (simp_all add: list_all_iff dropWhile_eq_Nil_conv takeWhile_eq_all_conv)
  have dec: "decimal_of_text ds = Some (of_int (digits_val ds))"
    unfolding decimal_of_text_def Let_def tw using assms(2) by (simp add: pow10_def)
  show ?thesis
    using dec digits_no_underscore [OF assms(1)] split_sign_digits [OF assms(1)] digit_not_letter [OF d(2)] d
      not_digit_special
    by (auto simp: float_of_text_def lower_def)
qed

lemma underscores_ok_append:
  "list_all is_digit ds \<Longrightarrow> ds \<noteq> [] \<Longrightarrow> underscores_ok p (ds @ CHR ''.'' # fs) \<longleftrightarrow> underscores_ok (Some (CHR ''.'')) fs"
proof (induction ds arbitrary: p)
  case (Cons d ds)
  then have d: "is_digit d" "d \<noteq> CHR ''_''" using not_digit_special by auto
  show ?case
  proof (cases ds)
    case Nil
    with d show ?thesis by auto
  next
    case (Cons x xs)
    with d Cons.IH [of "Some d"] Cons.prems show ?thesis by simp
  qed
qed simp

lemma float_of_decimal:
  assumes "list_all is_digit ds" "ds \<noteq> []" "list_all is_digit fs" "fs \<noteq> []"
  shows "float_of_text (ds @ CHR ''.'' # fs) =
    Inr (rnd64 (of_int (digits_val (ds @ fs)) / 10 ^ length fs))"
proof -
  obtain d ds' where d: "ds = d # ds'" "is_digit d" using assms by (cases ds) auto
  have dot: "\<not> is_digit (CHR ''.'')" by (simp add: is_digit_def)
  have parts: "takeWhile is_digit (ds @ CHR ''.'' # fs) = ds" "dropWhile is_digit (ds @ CHR ''.'' # fs) = CHR ''.'' # fs"
    "takeWhile is_digit fs = fs" "dropWhile is_digit fs = []"
    using assms(1,3) dot
    by (simp_all add: list_all_iff takeWhile_append dropWhile_append dropWhile_eq_Nil_conv takeWhile_eq_all_conv)
  have dec: "decimal_of_text (ds @ CHR ''.'' # fs) = Some (of_int (digits_val (ds @ fs)) / 10 ^ length fs)"
    unfolding decimal_of_text_def Let_def parts using assms(2) by (simp add: parts pow10_def)
  have "without_underscores (ds @ CHR ''.'' # fs) = ds @ CHR ''.'' # fs"
    using digits_no_underscore(1) [OF assms(1)] digits_no_underscore(1) [OF assms(3)]
    by (simp add: without_underscores_def)
  moreover have "underscores_ok None (ds @ CHR ''.'' # fs)"
    using underscores_ok_append [OF assms(1,2)] digits_no_underscore(2) [OF assms(3)] assms(4) by simp
  moreover have "split_sign (ds @ CHR ''.'' # fs) = (1, ds @ CHR ''.'' # fs)"
    using split_sign_digits [OF assms(1)] d by (auto split: if_splits)
  ultimately show ?thesis
    unfolding float_of_text_def using dec digit_not_letter [OF d(2)] d(1) not_digit_special d(2)
    by (auto simp: lower_def)
qed

section \<open>What the command prints\<close>

definition two_digits :: "nat \<Rightarrow> string" where
  "two_digits k = [char_of (48 + k div 10), char_of (48 + k mod 10)]"

definition shown :: "gpu_field \<Rightarrow> nat \<Rightarrow> string" where
  "shown f n =
     (if power_field f then show_nat (n div 1000) @ CHR ''.'' # two_digits (n mod 1000 div 10) else show_nat n)"

definition card_text :: "nat \<times> gpu_card \<Rightarrow> string \<Rightarrow> string" where
  "card_text p column =
     (if column = ''index'' then show_nat (fst p)
      else if column = ''uuid'' then cd_uuid (snd p)
      else case find (\<lambda>f. sample_column f = column) gpu_field_list of
             None \<Rightarrow> []
           | Some f \<Rightarrow> (case cd_level (snd p) f of None \<Rightarrow> ''[N/A]'' | Some n \<Rightarrow> shown f n))"

lemma card_text_column:
  "card_text (i, c) ''index'' = show_nat i" "card_text (i, c) ''uuid'' = cd_uuid c"
  "card_text (i, c) (sample_column f) = (case cd_level c f of None \<Rightarrow> ''[N/A]'' | Some n \<Rightarrow> shown f n)"
proof -
  have "find (\<lambda>g. sample_column g = sample_column f) gpu_field_list = Some f"
    "sample_column f \<noteq> ''index''" "sample_column f \<noteq> ''uuid''"
    by (cases f; simp add: gpu_field_list_def)+
  then show "card_text (i, c) (sample_column f) = (case cd_level c f of None \<Rightarrow> ''[N/A]'' | Some n \<Rightarrow> shown f n)"
    by (simp add: card_text_def)
qed (simp_all add: card_text_def)

lemma two_digits:
  assumes "k < 100" shows "list_all is_digit (two_digits k)" "length (two_digits k) = 2"
    "digits_val (ds @ two_digits k) = 100 * digits_val ds + int k"
proof -
  have "k div 10 < 10" "k mod 10 < 10" using assms by simp_all
  note a = digit_char [OF this(1)] and b = digit_char [OF this(2)]
  show "list_all is_digit (two_digits k)" "length (two_digits k) = 2" using a b by (simp_all add: two_digits_def)
  have "digits_val (ds @ two_digits k) = 10 * (10 * digits_val ds + int (k div 10)) + int (k mod 10)"
    using a b digits_val_snoc [of "ds @ [char_of (48 + k div 10)]"] digits_val_snoc [of ds]
    by (simp add: two_digits_def)
  then show "digits_val (ds @ two_digits k) = 100 * digits_val ds + int k" by simp presburger
qed

lemma shown_float:
  assumes "power_field f \<longrightarrow> n mod 10 = 0"
  shows "float_of_text (shown f n) = Inr (rnd64 (if power_field f then of_nat n / 1000 else of_nat n))"
proof (cases "power_field f")
  case False
  with show_nat_digits [of n] float_of_digits [of "show_nat n"] show ?thesis by (simp add: shown_def)
next
  case True
  let ?k = "n mod 1000 div 10"
  have k: "?k < 100" by simp
  obtain m where m: "n = 10 * m" using assms True by (auto simp: mod_eq_0_iff_dvd elim: dvdE)
  have parts: "n div 1000 = m div 100" "?k = m mod 100"
    using div_mult_mult1 [of 10 m 100] mod_mult_mult1 [of 10 m 100] by (simp_all add: m)
  have "100 * int (n div 1000) + int ?k = int m"
    unfolding parts by (metis of_nat_add of_nat_mult of_nat_numeral mult_div_mod_eq)
  then have v: "(of_int (100 * int (n div 1000) + int ?k) :: rat) / 10 ^ 2 = of_nat n / 1000"
    by (simp only:) (simp add: m)
  have "float_of_text (shown f n) = Inr (rnd64 (of_int (100 * int (n div 1000) + int ?k) / 10 ^ 2))"
    using True float_of_decimal [of "show_nat (n div 1000)" "two_digits ?k"] show_nat_digits [of "n div 1000"]
      two_digits [OF k] by (auto simp: shown_def two_digits_def simp del: of_int_add of_int_mult)
  then show ?thesis using True unfolding v by simp
qed

lemma shown_plain: "plain_word (shown f n)" "shown f n = d # ds \<Longrightarrow> is_digit d" "shown f n \<noteq> []"
proof -
  have sp: "\<not> is_space d" if "is_digit d" for d using that by (auto simp: is_digit_def is_space_def)
  have s: "plain_word (show_nat k)" for k
    using show_nat_digits [of k] sp by (auto simp: plain_word_def list_all_iff)
  have t: "list_all is_digit (two_digits (n mod 1000 div 10))" by (rule two_digits) simp
  show "plain_word (shown f n)"
    using s sp t by (auto simp: shown_def plain_word_def list_all_iff) (simp_all add: is_space_def)
  show "shown f n = d # ds \<Longrightarrow> is_digit d"
    using show_nat_hd [of n] show_nat_hd [of "n div 1000"] by (auto simp: shown_def split: if_splits)
  show "shown f n \<noteq> []" by (simp add: shown_def)
qed

lemma normalize_shown: "normalize_cell (shown f n) = Cell (shown f n)"
proof -
  obtain d ds where d: "shown f n = d # ds" "is_digit d"
    using shown_plain(2,3) [of f n] by (cases "shown f n") auto
  have "lower (shown f n) \<notin> set unavailable_markers"
    using d digit_not_letter [OF d(2)]
    by (auto simp: unavailable_markers_def lower_def lower_char_def is_digit_def split: if_splits)
  then show ?thesis using strip_idem_plain [OF shown_plain(1)] by (simp add: normalize_cell_def Let_def)
qed

section \<open>The reading both must give\<close>

definition reads :: "gpu_field \<Rightarrow> nat option \<Rightarrow> measurement \<Rightarrow> bool" where
  "reads f level m \<longleftrightarrow>
     (case (level, m) of
        (None, Unsupported) \<Rightarrow> True
      | (Some n, Num v) \<Rightarrow> num_val v = rnd64 (amount f n)
      | _ \<Rightarrow> False)"

lemma rnd64_small:
  assumes "0 \<le> x" "x \<le> of_nat n" "n < 2 ^ 53"
  obtains r where "rnd64 x = Fin r" "0 \<le> r"
proof -
  have "flt_le (rnd64 x) (Fin (of_nat n))" "flt_le (Fin 0) (rnd64 x)"
    using rnd64_mono_nonneg [OF assms(1,2)] rnd64_mono_nonneg [of 0 x] rnd64_of_int [of "int n"] assms by simp_all
  with that show thesis by (cases "rnd64 x") simp_all
qed

lemma rnd64_nat: "n < 2 ^ 53 \<Longrightarrow> rnd64 (of_nat n) = Fin (of_nat n)"
  using rnd64_of_int [of "int n"] by simp

lemma smi_reads:
  assumes "card_ok c" shows "reads f (cd_level c f) (printed_value (card_text (i, c)) f)"
proof (cases "cd_level c f")
  case None
  have "normalize_cell ''[N/A]'' = CellUnsupported" by code_simp
  with None show ?thesis by (simp add: reads_def printed_value_def card_text_column cell_number_def)
next
  case (Some n)
  note ok = card_level [OF assms Some]
  have n: "n < 2 ^ 53" using ok(1) by simp
  have cell: "cell_number (Some (normalize_cell (card_text (i, c) (sample_column f)))) hi mib =
      (let number = rnd64 (if power_field f then of_nat n / 1000 else of_nat n) in
       if num_isfinite (PFlt number) \<noteq> Inr True \<or> flt_less number (Fin 0)
          \<or> (case hi of None \<Rightarrow> False | Some h \<Rightarrow> flt_less h number)
       then Inl ''out_of_range''
       else if \<not> mib then Inr (PFlt number)
       else (case int_of_float (fmul number (Fin 1048576)) of Inl _ \<Rightarrow> Inl ''out_of_range'' | Inr n \<Rightarrow> Inr (PInt n)))"
    for hi mib
    using ok(3) by (simp add: card_text_column Some normalize_shown cell_number_def shown_float Let_def)
  consider "memory_field f" | "power_field f" | "\<not> memory_field f" "\<not> power_field f" by blast
  then show ?thesis
  proof cases
    case 1
    then have f: "f \<in> {VramUsed, VramTotal}" "\<not> power_field f" "field_maximum f = None"
      by (auto simp: memory_field_def power_field_def field_maximum_def)
    have bytes: "rnd64 (of_nat n * 1048576) = Fin (of_nat n * 1048576)"
      using rnd64_nat [of "n * 1048576"] ok(1) by simp
    from f 1 show ?thesis
      by (simp add: reads_def printed_value_def cell Let_def Some rnd64_nat [OF n] bytes amount_def)
  next
    case 2
    then have f: "f \<notin> {VramUsed, VramTotal}" "\<not> memory_field f" "field_maximum f = None"
      by (auto simp: memory_field_def power_field_def field_maximum_def)
    obtain r where "rnd64 (of_nat n / 1000) = Fin r" "0 \<le> r"
      by (rule rnd64_small [of "of_nat n / 1000" n]) (use n in simp_all)
    with f 2 show ?thesis by (simp add: reads_def printed_value_def cell Let_def Some amount_def)
  next
    case 3
    then have f: "f \<notin> {VramUsed, VramTotal}" by (auto simp: memory_field_def)
    have "field_maximum f = None \<or> field_maximum f = Some (Fin 100)" by (simp add: field_maximum_def)
    with f 3 ok(2) show ?thesis
      by (auto simp: reads_def printed_value_def cell Let_def Some rnd64_nat [OF n] amount_def)
  qed
qed

section \<open>What NVML answers\<close>

definition not_supported :: exn where
  "not_supported = NamedError ''NVMLError_NotSupported''"

definition driver_reply :: "'a option \<Rightarrow> ('w, 'a) comp" where
  "driver_reply reply = (case reply of None \<Rightarrow> craise not_supported | Some x \<Rightarrow> creturn x)"

text \<open>A reading in the unit of NVML, which counts memory in bytes.\<close>

definition nvml_unit :: "gpu_field \<Rightarrow> nat \<Rightarrow> obj" where
  "nvml_unit f n = ONum (PInt (int (if memory_field f then n * 1048576 else n)))"

definition level_reply :: "gpu_card \<Rightarrow> gpu_field \<Rightarrow> obj option" where
  "level_reply c f = map_option (nvml_unit f) (cd_level c f)"

definition pair_reply :: "gpu_card \<Rightarrow> gpu_field \<Rightarrow> gpu_field \<Rightarrow> (obj \<times> obj) option" where
  "pair_reply c f g =
     (case (level_reply c f, level_reply c g) of (Some x, Some y) \<Rightarrow> Some (x, y) | _ \<Rightarrow> None)"

text \<open>
  A binding to a driver with these cards, as far as sampling reads it. How throttling is answered is
  open, as long as only ordinary exceptions are raised.
\<close>

definition calm :: "('s, 'a) comp \<Rightarrow> bool" where
  "calm m \<longleftrightarrow> (\<forall>s e s'. m s = (Inl e, s') \<longrightarrow> ordinary e)"

definition calm_answer :: "('h \<Rightarrow> ('w, 'a) comp) attribute \<Rightarrow> bool" where
  "calm_answer attr \<longleftrightarrow> (\<exists>f. attr = Callable f \<and> (\<forall>h. calm (f h)))"

definition describes :: "('w, gpu_card) nvml_binding \<Rightarrow> gpu_card list \<Rightarrow> bool" where
  "describes b cards \<longleftrightarrow>
     nb_Init b = Callable (creturn ())
     \<and> nb_DeviceGetCount b = Callable (creturn (ONum (PInt (int (length cards)))))
     \<and> nb_DeviceGetHandleByIndex b =
         Callable (\<lambda>i. driver_reply (if 0 \<le> i \<and> nat i < length cards then Some (Some (cards ! nat i)) else None))
     \<and> nb_DeviceGetUUID b = Callable (\<lambda>c. creturn (OStr (cd_uuid c)))
     \<and> nb_DeviceGetMemoryInfo b = Callable (\<lambda>c. driver_reply (pair_reply c VramUsed VramTotal))
     \<and> nb_DeviceGetUtilizationRates b = Callable (\<lambda>c. driver_reply (pair_reply c Utilization MemoryUtilization))
     \<and> nb_DeviceGetTemperature b = Callable (\<lambda>c _. driver_reply (level_reply c Temperature))
     \<and> nb_DeviceGetPowerUsage b = Callable (\<lambda>c. driver_reply (level_reply c Power))
     \<and> nb_DeviceGetEnforcedPowerLimit b = Callable (\<lambda>c. driver_reply (level_reply c PowerLimit))
     \<and> nb_DeviceGetFanSpeed b = Callable (\<lambda>c. driver_reply (level_reply c Fan))
     \<and> nb_DeviceGetClockInfo b = Callable (\<lambda>c domain.
         driver_reply (level_reply c (if domain = ONum (PInt 1) then CoreClock else MemoryClock)))
     \<and> nb_TEMPERATURE_GPU b = Some (ONum (PInt 0)) \<and> nb_CLOCK_SM b = Some (ONum (PInt 1))
     \<and> nb_CLOCK_MEM b = Some (ONum (PInt 2))
     \<and> calm_answer (nb_DeviceGetSupportedClocksThrottleReasons b)
     \<and> calm_answer (nb_DeviceGetCurrentClocksThrottleReasons b)"

text \<open>The reading the NVML reader makes of a level.\<close>

definition nvml_reading :: "gpu_field \<Rightarrow> nat option \<Rightarrow> measurement" where
  "nvml_reading f level =
     (case level of
        None \<Rightarrow> Unsupported
      | Some n \<Rightarrow> Num (if memory_field f then PInt (int (n * 1048576))
                      else if power_field f then PFlt (rnd64 (of_nat n / 1000)) else PInt (int n)))"

lemma nvml_reads:
  assumes "card_ok c" shows "reads f (cd_level c f) (nvml_reading f (cd_level c f))"
proof (cases "cd_level c f")
  case (Some n)
  note ok = card_level [OF assms Some]
  show ?thesis
    using rnd64_nat [of "n * 1048576"] rnd64_nat [of n] ok(1)
    by (simp add: reads_def nvml_reading_def Some amount_def)
qed (simp add: reads_def nvml_reading_def)

lemma number_in_range:
  assumes "k < 2 ^ 53"
  shows "plain_number (ONum (PInt (int k))) = Inr (Num (PInt (int k)))"
    "celsius_number (ONum (PInt (int k))) = Inr (Num (PInt (int k)))"
    "k \<le> 100 \<Longrightarrow> percent_number (ONum (PInt (int k))) = Inr (Num (PInt (int k)))"
    "milli_number (ONum (PInt (int k))) = Inr (Num (PFlt (rnd64 (of_nat k / 1000))))"
proof -
  have fin: "num_isfinite (PInt (int k)) = Inr True" using float_of_int_small [of "int k"] assms by simp
  have cold: "\<not> num_less (PInt (int k)) (PFlt absolute_zero)"
    using flt_le_trans [OF absolute_zero_neg, of "Fin (of_nat k)"] by (simp add: num_less_def flt_less_def)
  show "plain_number (ONum (PInt (int k))) = Inr (Num (PInt (int k)))"
    "celsius_number (ONum (PInt (int k))) = Inr (Num (PInt (int k)))"
    using fin cold by (simp_all add: plain_number_def celsius_number_def nvml_number_def num_less_def)
  show "k \<le> 100 \<Longrightarrow> percent_number (ONum (PInt (int k))) = Inr (Num (PInt (int k)))"
    using fin by (simp add: percent_number_def nvml_number_def num_less_def)
  obtain r where r: "rnd64 (of_nat k / 1000) = Fin r" "0 \<le> r"
    by (rule rnd64_small [of "of_nat k / 1000" k]) (use assms in simp_all)
  have "num_div (PInt (int k)) (PFlt (Fin 1000)) = Inr (PFlt (Fin r))"
    using float_of_int_small [of "int k"] assms r by (simp add: float_op_def)
  then show "milli_number (ONum (PInt (int k))) = Inr (Num (PFlt (rnd64 (of_nat k / 1000))))"
    using fin r by (simp add: milli_number_def nvml_number_def num_less_def)
qed

lemma number_none:
  "plain_number ONone = Inr Unsupported" "celsius_number ONone = Inr Unsupported"
  "percent_number ONone = Inr Unsupported" "milli_number ONone = Inr Unsupported"
  by (simp_all add: plain_number_def celsius_number_def percent_number_def milli_number_def nvml_number_def)

text \<open>The conversion of each field gives the reading of its level.\<close>

lemma level_number:
  assumes "card_ok c"
  shows "memory_field f \<Longrightarrow> plain_number (value_or_none (level_reply c f)) = Inr (nvml_reading f (cd_level c f))"
    "power_field f \<Longrightarrow> milli_number (value_or_none (level_reply c f)) = Inr (nvml_reading f (cd_level c f))"
    "field_maximum f \<noteq> None \<Longrightarrow> percent_number (value_or_none (level_reply c f)) = Inr (nvml_reading f (cd_level c f))"
    "f \<in> {CoreClock, MemoryClock} \<Longrightarrow> plain_number (value_or_none (level_reply c f)) = Inr (nvml_reading f (cd_level c f))"
    "f = Temperature \<Longrightarrow> celsius_number (value_or_none (level_reply c f)) = Inr (nvml_reading f (cd_level c f))"
proof -
  have "(memory_field f \<longrightarrow> plain_number (value_or_none (level_reply c f)) = Inr (nvml_reading f (cd_level c f)))
    \<and> (power_field f \<longrightarrow> milli_number (value_or_none (level_reply c f)) = Inr (nvml_reading f (cd_level c f)))
    \<and> (field_maximum f \<noteq> None \<longrightarrow> percent_number (value_or_none (level_reply c f)) = Inr (nvml_reading f (cd_level c f)))
    \<and> (f \<in> {CoreClock, MemoryClock} \<longrightarrow> plain_number (value_or_none (level_reply c f)) = Inr (nvml_reading f (cd_level c f)))
    \<and> (f = Temperature \<longrightarrow> celsius_number (value_or_none (level_reply c f)) = Inr (nvml_reading f (cd_level c f)))"
  proof (cases "cd_level c f")
    case None
    then have "value_or_none (level_reply c f) = ONone" by (simp add: level_reply_def value_or_none_def)
    then show ?thesis unfolding None by (auto simp: nvml_reading_def number_none)
  next
    case (Some n)
    note ok = card_level [OF assms Some]
    have k: "n < 2 ^ 53" "n * 1048576 < 2 ^ 53" using ok(1) by simp_all
    note num = number_in_range [OF k(1)] number_in_range(1) [OF k(2)]
    have v: "value_or_none (level_reply c f) = nvml_unit f n" by (simp add: level_reply_def Some value_or_none_def)
    show ?thesis unfolding v Some
      using num ok(2)
      by (auto simp: nvml_unit_def nvml_reading_def memory_field_def power_field_def field_maximum_def
          split: if_splits)
  qed
  then show "memory_field f \<Longrightarrow> plain_number (value_or_none (level_reply c f)) = Inr (nvml_reading f (cd_level c f))"
    "power_field f \<Longrightarrow> milli_number (value_or_none (level_reply c f)) = Inr (nvml_reading f (cd_level c f))"
    "field_maximum f \<noteq> None \<Longrightarrow> percent_number (value_or_none (level_reply c f)) = Inr (nvml_reading f (cd_level c f))"
    "f \<in> {CoreClock, MemoryClock} \<Longrightarrow> plain_number (value_or_none (level_reply c f)) = Inr (nvml_reading f (cd_level c f))"
    "f = Temperature \<Longrightarrow> celsius_number (value_or_none (level_reply c f)) = Inr (nvml_reading f (cd_level c f))"
    by blast+
qed

section \<open>A run of the NVML reader\<close>

text \<open>Every run returns a value with a property, from whatever state.\<close>

definition gives :: "('s, 'a) comp \<Rightarrow> ('a \<Rightarrow> bool) \<Rightarrow> bool" where
  "gives m P \<longleftrightarrow> (\<forall>s. \<exists>x s'. m s = (Inr x, s') \<and> P x)"

lemma gives_bind: "gives m P \<Longrightarrow> (\<And>x. P x \<Longrightarrow> gives (f x) Q) \<Longrightarrow> gives (cbind m f) Q"
  unfolding gives_def cbind_apply by (metis (mono_tags, lifting) case_prod_conv sum.case(2))

lemma gives_step: "gives m (\<lambda>x. x = v) \<Longrightarrow> gives (f v) Q \<Longrightarrow> gives (cbind m f) Q"
  by (erule gives_bind) simp

lemma gives_pure: "P x \<Longrightarrow> gives (creturn x) P" "r = Inr x \<Longrightarrow> P x \<Longrightarrow> gives (clift r) P"
  by (simp_all add: gives_def creturn_def clift_def)

lemma gives_modify: "gives (cmodify f) (\<lambda>_. True)"
  by (simp add: gives_def cmodify_def)

lemma gives_default: "gives (nvml_setdefault k r) (\<lambda>_. True)" "gives (unsupported_default m k) (\<lambda>_. True)"
  by (simp_all add: nvml_setdefault_def unsupported_default_def gives_modify gives_pure)

lemma gives_defaults: "gives (default_fields g index fs) (\<lambda>_. True)"
  by (induction fs) (auto intro: gives_pure gives_bind gives_default)

lemma gives_attempt: "gives (nvml_attempt (driver_reply reply) key) (\<lambda>x. x = reply)"
  by (cases reply) (simp_all add: gives_def driver_reply_def nvml_attempt_def on_world_def safe_call_def comp_defs
      nvml_set_def not_supported_def ordinary_def)

lemma gives_value: "gives (nvml_value (driver_reply reply) key) (\<lambda>x. x = value_or_none reply)"
  unfolding nvml_value_def by (rule gives_step [OF gives_attempt]) (simp add: gives_pure)

lemma gives_calm:
  assumes "calm m" shows "gives (nvml_attempt m key) (\<lambda>_. True)"
  unfolding gives_def
proof
  fix s :: "('a, 'c) nvml_state"
  obtain r w where "m (ns_world s) = (r, w)" by fastforce
  then show "\<exists>x s'. nvml_attempt m key s = (Inr x, s') \<and> True"
    using assms by (cases r) (auto simp: calm_def nvml_attempt_def on_world_def safe_call_def comp_defs nvml_set_def)
qed

lemma pair_values:
  assumes "cd_level c f = None \<longleftrightarrow> cd_level c g = None"
  shows "(case pair_reply c f g of None \<Rightarrow> (ONone, ONone) | Some p \<Rightarrow> p) =
    (value_or_none (level_reply c f), value_or_none (level_reply c g))"
  using assms by (cases "cd_level c f"; cases "cd_level c g")
    (simp_all add: pair_reply_def level_reply_def value_or_none_def)

lemma gives_memory:
  assumes "card_ok c" "describes b cards"
  shows "gives (device_memory b c index)
    (\<lambda>x. x = (nvml_reading VramUsed (cd_level c VramUsed), nvml_reading VramTotal (cd_level c VramTotal)))"
proof -
  have call: "attribute_call (nb_DeviceGetMemoryInfo b) (\<lambda>f. f c) = driver_reply (pair_reply c VramUsed VramTotal)"
    using assms(2) by (simp add: describes_def)
  have same: "cd_level c VramUsed = None \<longleftrightarrow> cd_level c VramTotal = None"
    using assms(1) by (simp add: card_ok_def)
  note num = level_number(1) [OF assms(1), of VramUsed] level_number(1) [OF assms(1), of VramTotal]
  show ?thesis
    unfolding device_memory_def call
    apply (rule gives_step [OF gives_attempt])
    unfolding Let_def pair_values [OF same] prod.case
    by (intro gives_step [OF gives_pure(2) [OF num(1) refl]] gives_step [OF gives_pure(2) [OF num(2) refl]]
        gives_bind [OF gives_default(2)] gives_pure refl) (simp_all add: memory_field_def)
qed

lemma gives_throttle:
  assumes "describes b cards" shows "gives (nvml_throttle_reasons b c index) (\<lambda>_. True)"
proof -
  obtain f g where f: "nb_DeviceGetSupportedClocksThrottleReasons b = Callable f" "\<And>h. calm (f h)"
    and g: "nb_DeviceGetCurrentClocksThrottleReasons b = Callable g" "\<And>h. calm (g h)"
    using assms by (auto simp: describes_def calm_answer_def)
  have val: "gives (nvml_device_value (Callable k) c key) (\<lambda>_. True)" if "\<And>h. calm (k h)" for k key
    unfolding nvml_device_value_def nvml_value_def attribute_call.simps
    by (intro gives_bind [OF gives_calm] gives_pure TrueI that)
  show ?thesis
    unfolding nvml_throttle_reasons_def Let_def f(1) g(1)
    by (intro gives_bind [OF val [OF f(2)]] gives_bind [OF val [OF g(2)]])
      (auto intro!: gives_bind [OF gives_default(1)] gives_pure split: obj.split pynum.split)
qed

text \<open>One device: the index, the identifier and every reading of its card.\<close>

definition card_sample :: "nat \<Rightarrow> gpu_card \<Rightarrow> gpu_sample \<Rightarrow> bool" where
  "card_sample i c g \<longleftrightarrow>
     gs_index g = int i \<and> gs_uuid g = Some (cd_uuid c)
     \<and> list_all (\<lambda>f. reads f (cd_level c f) (gpu_get f g)) gpu_field_list"

lemma gives_reply:
  "gives (nvml_device_value (Callable (\<lambda>c. driver_reply (level_reply c f))) c key) (\<lambda>x. x = value_or_none (level_reply c f))"
  "gives (nvml_selected_value (Callable (\<lambda>c d. driver_reply (level_reply c (k d)))) c (Some d) key)
     (\<lambda>x. x = value_or_none (level_reply c (k d)))"
  by (simp_all add: nvml_device_value_def nvml_selected_value_def gives_value)

lemma gives_uuid: "gives (nvml_device_value (Callable (\<lambda>c. creturn (OStr (u c)))) c key) (\<lambda>x. x = OStr (u c))"
  using gives_value [of "Some (OStr (u c))" key]
  by (simp add: nvml_device_value_def driver_reply_def value_or_none_def)

lemma uuid_text:
  assumes "card_ok c" shows "nvml_text (OStr (cd_uuid c)) = Inr (Some (cd_uuid c))"
proof -
  have w: "plain_word (cd_uuid c)" using assms by (simp add: card_ok_def)
  then show ?thesis using strip_idem_plain [OF w] by (simp add: nvml_text_def plain_word_def)
qed

lemma gives_sample_device:
  assumes c: "card_ok c" and b: "describes b cards"
  shows "gives (sample_device b c (int i)) (card_sample i c)"
proof -
  have calls: "nb_DeviceGetUUID b = Callable (\<lambda>c. creturn (OStr (cd_uuid c)))"
    "attribute_call (nb_DeviceGetUtilizationRates b) (\<lambda>f. f c) = driver_reply (pair_reply c Utilization MemoryUtilization)"
    "nb_DeviceGetTemperature b = Callable (\<lambda>c _. driver_reply (level_reply c Temperature))"
    "nb_DeviceGetPowerUsage b = Callable (\<lambda>c. driver_reply (level_reply c Power))"
    "nb_DeviceGetEnforcedPowerLimit b = Callable (\<lambda>c. driver_reply (level_reply c PowerLimit))"
    "nb_DeviceGetFanSpeed b = Callable (\<lambda>c. driver_reply (level_reply c Fan))"
    "nb_DeviceGetClockInfo b = Callable (\<lambda>c domain.
         driver_reply (level_reply c (if domain = ONum (PInt 1) then CoreClock else MemoryClock)))"
    "nb_TEMPERATURE_GPU b = Some (ONum (PInt 0))" "nb_CLOCK_SM b = Some (ONum (PInt 1))"
    "nb_CLOCK_MEM b = Some (ONum (PInt 2))"
    using b by (simp_all add: describes_def)
  have same: "cd_level c Utilization = None \<longleftrightarrow> cd_level c MemoryUtilization = None"
    and none: "cd_level c MemoryTemperature = None"
    using c by (simp_all add: card_ok_def)
  have num: "percent_number (value_or_none (level_reply c f)) = Inr (nvml_reading f (cd_level c f))"
    if "f \<in> {Utilization, MemoryUtilization, Fan}" for f
    using level_number(3) [OF c, of f] that by (simp add: field_maximum_def)
  have watts: "milli_number (value_or_none (level_reply c f)) = Inr (nvml_reading f (cd_level c f))"
    if "f \<in> {Power, PowerLimit}" for f
    using level_number(2) [OF c, of f] that by (simp add: power_field_def)
  note clock = level_number(4) [OF c] and celsius = level_number(5) [OF c refl]
  note percent = gives_step [OF gives_pure(2) [OF num refl]]
    and milli = gives_step [OF gives_pure(2) [OF watts refl]]
    and plain = gives_step [OF gives_pure(2) [OF clock refl]]
    and warm = gives_step [OF gives_pure(2) [OF celsius refl]]
  have whole: "card_sample i c g" if "gs_index g = int i" "gs_uuid g = Some (cd_uuid c)"
    "\<And>f. gpu_get f g = nvml_reading f (cd_level c f)" for g
    using that nvml_reads [OF c] by (simp add: card_sample_def list_all_iff)
  show ?thesis
    unfolding sample_device_def calls
    apply (rule gives_step [OF gives_memory [OF c b]])
    unfolding prod.case
    apply (rule gives_step [OF gives_attempt])
    unfolding Let_def pair_values [OF same] prod.case
    apply (rule gives_bind [OF gives_throttle [OF b]])
    subgoal for throttle
      apply (cases throttle)
      apply (simp only: prod.case)
      apply (rule gives_step [OF gives_uuid])
      apply (rule gives_step [OF gives_pure(2) [OF uuid_text [OF c] refl]])
      apply (rule percent, simp)
      apply (rule percent, simp)
      apply (rule gives_step [OF gives_reply(2)])
      apply (rule warm)
      apply (rule gives_step [OF gives_reply(1)], rule milli, simp)
      apply (rule gives_step [OF gives_reply(1)], rule milli, simp)
      apply (rule gives_step [OF gives_reply(1)], rule percent, simp)
      apply (rule gives_step [OF gives_reply(2)])
      apply (simp only: if_True simp_thms)
      apply (rule plain, simp)
      apply (rule gives_step [OF gives_reply(2)])
      apply (simp only: obj.inject pynum.inject one_eq_numeral_iff num.distinct if_False)
      apply (rule plain, simp)
      apply (rule gives_bind [OF gives_default(1)], rule gives_bind [OF gives_defaults], rule gives_pure)
      apply (rule whole)
        apply simp_all
      subgoal for a b f by (cases f) (simp_all add: nvml_reading_def none)
      done
    done
qed

lemma gives_handle:
  assumes "describes b cards" "i < length cards"
  shows "gives (device_handle b (int i)) (\<lambda>x. x = Some (cards ! i))"
proof -
  have call: "attribute_call (nb_DeviceGetHandleByIndex b) (\<lambda>f. f (int i)) = driver_reply (Some (Some (cards ! i)))"
    using assms by (simp add: describes_def)
  show ?thesis unfolding device_handle_def call
    by (rule gives_step [OF gives_attempt]) (simp add: gives_pure)
qed

lemma gives_each:
  assumes b: "describes b cards" and ok: "list_all card_ok cards" and "\<forall>i \<in> set ixs. i < length cards"
  shows "gives (each_device b (sample_device b) (map int ixs)) (list_all2 (\<lambda>i g. card_sample i (cards ! i) g) ixs)"
  using assms(3)
proof (induction ixs)
  case (Cons i ixs)
  then have i: "i < length cards" "card_ok (cards ! i)" using ok by (simp_all add: list_all_length)
  have "gives (cbind (each_device b (sample_device b) (map int ixs)) (\<lambda>xs. creturn (g # xs)))
      (list_all2 (\<lambda>i g. card_sample i (cards ! i) g) (i # ixs))" if "card_sample i (cards ! i) g" for g
    by (rule gives_bind [OF Cons.IH]) (use Cons.prems that in \<open>simp_all add: gives_pure\<close>)
  then show ?case
    by (simp only: list.map each_device.simps)
      (rule gives_step [OF gives_handle [OF b i(1)]], simp only: option.case, rule gives_bind [OF gives_sample_device [OF i(2) b]])
qed (simp add: gives_pure)

lemma upto_nat: "[0..int n - 1] = map int [0..<n]"
  by (rule nth_equalityI) (simp_all add: nth_upto)

lemma nvml_card_samples:
  assumes b: "describes b cards" "ns_binding t = Some b" and ok: "list_all card_ok cards"
  shows "\<exists>hs t'. nvml_sample env t = (Inr hs, t') \<and> list_all2 (\<lambda>i g. card_sample i (cards ! i) g) [0..<length cards] hs"
proof -
  let ?t = "t\<lparr>ns_reasons := []\<rparr>"
  have clear: "nvml_clear t = (Inr (), ?t)" by (simp add: nvml_clear_def cmodify_def)
  obtain t1 where ready: "nvml_ready env ?t = (Inr (Some b), t1)"
    using b by (cases "ns_initialized t")
      (auto simp: nvml_ready_def nvml_initialize_def describes_def cbind_apply cgets_def creturn_def
        on_world_def safe_call_def czoom_def cmodify_def)
  have count: "gives (device_count b) (\<lambda>x. x = int (length cards))"
  proof -
    have attr: "nb_DeviceGetCount b = Callable (driver_reply (Some (ONum (PInt (int (length cards))))))"
      using b(1) by (simp add: describes_def driver_reply_def)
    show ?thesis unfolding device_count_def attr nvml_attempt_attribute_def attribute.case
      by (rule gives_step [OF gives_attempt]) (simp add: value_or_none_def gives_pure Let_def)
  qed
  have all: "gives (cbind (device_count b) (\<lambda>count. cbind (each_device b (sample_device b) [0..count - 1]) or_no_gpus))
      (list_all2 (\<lambda>i g. card_sample i (cards ! i) g) [0..<length cards])"
  proof (rule gives_step [OF count])
    have keep: "gives (or_no_gpus hs) P" if "P hs" for hs :: "gpu_sample list" and P
      unfolding or_no_gpus_def by (rule gives_bind [where P = "\<lambda>_. True"]) (simp_all add: gives_default gives_pure that)
    show "gives (cbind (each_device b (sample_device b) [0..int (length cards) - 1]) or_no_gpus)
      (list_all2 (\<lambda>i g. card_sample i (cards ! i) g) [0..<length cards])"
      unfolding upto_nat by (rule gives_bind [OF gives_each [OF b(1) ok]], simp, rule keep)
  qed
  then show ?thesis
    by (simp add: gives_def nvml_sample_def cbind_apply clear ready)
qed

section \<open>A run of the command reader\<close>

lemma show_nat_plain: "plain_word (show_nat n)" "plain_line (show_nat n)" "n < 10 ^ 10 \<Longrightarrow> length (show_nat n) \<le> 10"
  using show_int_plain [of "int n"] show_nat_digits [of n] show_nat_length [of n 9]
  by (auto simp: show_int_def plain_line_def list_all_iff is_linebreak_def is_digit_def)

lemma shown_length: "n < 2 ^ 33 \<Longrightarrow> length (shown f n) \<le> 13" "plain_line (shown f n)"
proof -
  show "n < 2 ^ 33 \<Longrightarrow> length (shown f n) \<le> 13"
    using show_nat_plain(3) [where n = n] show_nat_plain(3) [where n = "n div 1000"]
    by (auto simp: shown_def two_digits_def)
  have "list_all is_digit (two_digits (n mod 1000 div 10))" by (rule two_digits) simp
  then show "plain_line (shown f n)"
    using show_nat_plain(2) by (auto simp: shown_def plain_line_def list_all_iff is_linebreak_def is_digit_def)
qed

lemma card_printable:
  assumes "card_ok c" "i < 10 ^ 10"
  shows "printable_row (map (card_text (i, c)) sample_fields)"
proof -
  have col: "int (length (card_text (i, c) (sample_column f))) \<le> field_limit \<and> plain_line (card_text (i, c) (sample_column f))" for f
  proof (cases "cd_level c f")
    case None
    then show ?thesis by (simp add: card_text_column field_limit_def plain_line_def is_linebreak_def)
  next
    case (Some n)
    with shown_length [where n = n and f = f] card_level(1) [OF assms(1) Some] show ?thesis
      by (simp add: card_text_column field_limit_def)
  qed
  obtain fs where fields: "sample_fields = ''index'' # ''uuid'' # map sample_column fs"
    using that [of "[Utilization, MemoryUtilization, VramUsed, VramTotal, Temperature, MemoryTemperature, Power,
      PowerLimit, Fan, CoreClock, MemoryClock]"] by (simp add: sample_fields_def)
  have "\<not> list_all is_space (show_nat i)"
    using show_nat_plain(1) [of i] by (cases "show_nat i") (auto simp: plain_word_def)
  moreover have "list_all (\<lambda>t. int (length t) \<le> field_limit \<and> plain_line t) (map (card_text (i, c)) (map sample_column fs))"
    using col by (simp add: list_all_iff)
  ultimately show ?thesis
    using show_nat_plain(2) [of i] show_nat_plain(3) [of i] assms
    by (simp add: printable_row_def fields card_text_column(1,2) card_ok_def field_limit_def)
qed

lemma card_row:
  assumes c: "card_ok c" and i: "i < 10 ^ 10"
    and row: "\<forall>col. dict_get r col =
      (if col \<in> set sample_fields then Some (normalize_cell (card_text (i, c) col)) else None)"
  shows "row_index r = int i" "sample_of_row r g \<Longrightarrow> gs_index g = int i \<Longrightarrow> card_sample i c g"
proof -
  have "i < 10 ^ max_str_digits"
  proof (rule less_le_trans [OF i])
    have "10 \<le> max_str_digits" by (simp add: max_str_digits_def)
    then show "(10 :: nat) ^ 10 \<le> 10 ^ max_str_digits" by (rule power_increasing) simp
  qed
  note index = int_of_text_show_nat [OF this]
  have "show_nat i = shown Temperature i" by (simp add: shown_def power_field_def)
  then have cell: "normalize_cell (card_text (i, c) ''index'') = Cell (show_nat i)"
    using normalize_shown [of Temperature i] by (simp add: card_text_column)
  then show "row_index r = int i"
    using row by (simp add: row_index_def sample_fields_def index)
  have "normalize_cell (cd_uuid c) = Cell (cd_uuid c)"
    using c strip_idem_plain [of "cd_uuid c"] by (simp add: normalize_cell_def card_ok_def Let_def)
  then have uuid: "text_value r ''uuid'' = Some (cd_uuid c)"
    using row by (simp add: text_value_def sample_fields_def card_text_column)
  assume "sample_of_row r g" "gs_index g = int i"
  then show "card_sample i c g"
    using uuid printed_row(2) [OF row] smi_reads [OF c]
    by (simp add: card_sample_def sample_of_row_def list_all_iff)
qed

definition card_table :: "gpu_card list \<Rightarrow> string" where
  "card_table cards = gpu_table (map card_text (zip [0..<length cards] cards))"

lemma sorted_upto_nat:
  assumes "sorted_wrt (<) xs" "set xs = int ` {0..<n}" shows "xs = map int [0..<n]"
proof -
  have "sorted_wrt (<) (map int [0..<n])" by (simp add: sorted_wrt_map)
  then show ?thesis
    using assms strict_sorted_equal [of "map int [0..<n]" xs] by simp
qed

lemma smi_card_samples:
  assumes "sc_resolver cfg (sc_executable cfg) (ss_world s) = (Inr (Some exe), w)" "exe \<noteq> []"
    and "sc_runner cfg (exe # query_arguments sample_fields) (smi_options cfg) w =
           (Inr \<lparr>returncode = 0, stdout = Some (card_table cards)\<rparr>, w')"
    and "utf8_length (card_table cards) \<le> sc_max_output_bytes cfg"
    and ok: "list_all card_ok cards" and size: "length cards \<le> 10 ^ 10"
    and run: "smi_sample cfg s = (Inr gs, s')"
  shows "list_all2 (\<lambda>i g. card_sample i (cards ! i) g) [0..<length cards] gs"
proof -
  let ?n = "length cards" and ?texts = "map card_text (zip [0..<length cards] cards)"
  have printable: "list_all (\<lambda>v. printable_row (map v sample_fields)) ?texts"
    using ok size by (auto simp: list_all_length intro!: card_printable)
  obtain core where rows: "list_all2 (\<lambda>r v. \<forall>c. dict_get r c =
      (if c \<in> set sample_fields then Some (normalize_cell (v c)) else None)) core ?texts"
    and sorted: "sorted_wrt (<) (map gs_index gs)"
    and ids: "gs_index ` set gs = {i. 0 \<le> i \<and> i \<in> row_index ` set core}"
    and from_row: "\<And>g. g \<in> set gs \<Longrightarrow> \<exists>r \<in> set core. row_index r = gs_index g \<and> 0 \<le> gs_index g \<and> sample_of_row r g"
    by (rule smi_sample_table [OF assms(1,2) assms(3,4) [unfolded card_table_def] printable run]) blast
  have len: "length core = ?n" using list_all2_lengthD [OF rows] by simp
  have row: "\<forall>col. dict_get (core ! i) col =
      (if col \<in> set sample_fields then Some (normalize_cell (card_text (i, cards ! i) col)) else None)"
    and good: "card_ok (cards ! i)" "i < 10 ^ 10" if "i < ?n" for i
    using list_all2_nthD [OF rows, of i] that len ok size by (simp_all add: list_all_length)
  note index = card_row(1) [OF good row] and sample = card_row(2) [OF good row]
  have "row_index ` set core = int ` {0..<?n}"
    using index by (auto simp: set_conv_nth len image_iff) (metis atLeastLessThan_iff zero_le)
  then have indices: "map gs_index gs = map int [0..<?n]"
    using sorted ids by (intro sorted_upto_nat) auto
  then have n: "length gs = ?n" using map_eq_imp_length_eq by fastforce
  moreover have "card_sample i (cards ! i) (gs ! i)" if i: "i < ?n" for i
  proof -
    have gi: "gs_index (gs ! i) = int i" using arg_cong [OF indices, of "\<lambda>xs. xs ! i"] i n by simp
    have "gs ! i \<in> set gs" using i n by simp
    from from_row [OF this] obtain r where r: "r \<in> set core" "row_index r = int i" "sample_of_row r (gs ! i)"
      using gi by auto
    from r(1) obtain k where k: "k < ?n" "core ! k = r" using len by (metis in_set_conv_nth)
    then have "r = core ! i" using index [OF k(1) k(1) k(1)] r(2) by simp
    then show ?thesis using sample [OF i i i] gi r(3) by blast
  qed
  ultimately show ?thesis by (simp add: list_all2_conv_all_nth)
qed

section \<open>The backends agree\<close>

definition same_reading :: "measurement \<Rightarrow> measurement \<Rightarrow> bool" where
  "same_reading m m' \<longleftrightarrow>
     (case (m, m') of
        (Unsupported, Unsupported) \<Rightarrow> True
      | (Num x, Num y) \<Rightarrow> num_val x = num_val y
      | _ \<Rightarrow> False)"

definition same_device :: "gpu_sample \<Rightarrow> gpu_sample \<Rightarrow> bool" where
  "same_device g h \<longleftrightarrow>
     gs_index g = gs_index h \<and> gs_uuid g = gs_uuid h
     \<and> list_all (\<lambda>f. same_reading (gpu_get f g) (gpu_get f h)) gpu_field_list"

lemma reads_same: "reads f level m \<Longrightarrow> reads f level m' \<Longrightarrow> same_reading m m'"
  by (simp add: reads_def same_reading_def split: option.splits measurement.splits)

lemma card_sample_same: "card_sample i c g \<Longrightarrow> card_sample i c h \<Longrightarrow> same_device g h"
  by (auto simp: card_sample_def same_device_def list_all_iff intro: reads_same)


text \<open>Two cards: a full one, and one without fan, power and utilisation sensors.\<close>

definition demo_card :: gpu_card where
  "demo_card = \<lparr>cd_uuid = ''GPU-a'', cd_level = (\<lambda>f. case f of
     Utilization \<Rightarrow> Some 2 | MemoryUtilization \<Rightarrow> Some 10 | VramUsed \<Rightarrow> Some 655 | VramTotal \<Rightarrow> Some 16311
   | Temperature \<Rightarrow> Some 38 | MemoryTemperature \<Rightarrow> None | Power \<Rightarrow> Some 19310 | PowerLimit \<Rightarrow> Some 300000
   | Fan \<Rightarrow> Some 30 | CoreClock \<Rightarrow> Some 180 | MemoryClock \<Rightarrow> Some 405)\<rparr>"

definition bare_card :: gpu_card where
  "bare_card = \<lparr>cd_uuid = ''GPU-b'', cd_level = (\<lambda>f. case f of
     VramUsed \<Rightarrow> Some 1 | VramTotal \<Rightarrow> Some 8192 | Temperature \<Rightarrow> Some 25 | _ \<Rightarrow> None)\<rparr>"

definition demo_cards :: "gpu_card list" where
  "demo_cards = [demo_card, bare_card]"

definition card_binding :: "gpu_card list \<Rightarrow> (unit, gpu_card) nvml_binding" where
  "card_binding cards =
     \<lparr>nb_Init = Callable (creturn ()), nb_Shutdown = Callable (creturn ()),
      nb_SystemGetDriverVersion = Callable (creturn (OStr ''550.1'')),
      nb_SystemGetCudaDriverVersion = Callable (creturn (ONum (PInt 12040))),
      nb_DeviceGetCount = Callable (creturn (ONum (PInt (int (length cards))))),
      nb_DeviceGetHandleByIndex =
        Callable (\<lambda>i. driver_reply (if 0 \<le> i \<and> nat i < length cards then Some (Some (cards ! nat i)) else None)),
      nb_DeviceGetName = Callable (\<lambda>c. creturn (OStr ''GPU'')),
      nb_DeviceGetUUID = Callable (\<lambda>c. creturn (OStr (cd_uuid c))),
      nb_DeviceGetMemoryInfo = Callable (\<lambda>c. driver_reply (pair_reply c VramUsed VramTotal)),
      nb_DeviceGetUtilizationRates = Callable (\<lambda>c. driver_reply (pair_reply c Utilization MemoryUtilization)),
      nb_DeviceGetTemperature = Callable (\<lambda>c _. driver_reply (level_reply c Temperature)),
      nb_DeviceGetPowerUsage = Callable (\<lambda>c. driver_reply (level_reply c Power)),
      nb_DeviceGetEnforcedPowerLimit = Callable (\<lambda>c. driver_reply (level_reply c PowerLimit)),
      nb_DeviceGetFanSpeed = Callable (\<lambda>c. driver_reply (level_reply c Fan)),
      nb_DeviceGetClockInfo = Callable (\<lambda>c domain.
         driver_reply (level_reply c (if domain = ONum (PInt 1) then CoreClock else MemoryClock))),
      nb_DeviceGetCudaComputeCapability = Callable (\<lambda>c. craise not_supported),
      nb_DeviceGetCurrentClocksThrottleReasons = Callable (\<lambda>c. creturn (ONum (PInt 5))),
      nb_DeviceGetSupportedClocksThrottleReasons = Callable (\<lambda>c. craise not_supported),
      nb_TEMPERATURE_GPU = Some (ONum (PInt 0)), nb_CLOCK_SM = Some (ONum (PInt 1)),
      nb_CLOCK_MEM = Some (ONum (PInt 2))\<rparr>"

lemma card_binding_describes: "describes (card_binding cards) cards"
  by (auto simp: describes_def card_binding_def calm_answer_def calm_def creturn_def craise_def not_supported_def
      ordinary_def)

definition card_smi :: "gpu_card list \<Rightarrow> unit smi_config" where
  "card_smi cards =
     (demo_smi [])\<lparr>sc_runner := (\<lambda>a _ w.
        (if tl a = query_arguments sample_fields
         then Inr \<lparr>returncode = 0, stdout = Some (card_table cards)\<rparr> else Inl TimeoutExpired, w))\<rparr>"

definition card_env :: "(unit, gpu_card) nvml_env" where
  "card_env = \<lparr>ne_import_module = craise not_supported, ne_find_spec = creturn True, ne_gpu_profile = Inr\<rparr>"

lemma demo_cards_ok: "list_all card_ok demo_cards"
proof -
  have words: "plain_word ''GPU-a'' \<and> plain_line ''GPU-a'' \<and> lower ''GPU-a'' \<notin> set unavailable_markers"
    "plain_word ''GPU-b'' \<and> plain_line ''GPU-b'' \<and> lower ''GPU-b'' \<notin> set unavailable_markers"
    by code_simp+
  show ?thesis
    using words by (simp add: demo_cards_def demo_card_def bare_card_def card_ok_def gpu_field_list_def field_maximum_def
        power_field_def field_limit_def)
qed

lemma digit_characters:
  "char_of (48 :: nat) = CHR ''0''" "char_of (49 :: nat) = CHR ''1''" "char_of (50 :: nat) = CHR ''2''"
  "char_of (51 :: nat) = CHR ''3''" "char_of (52 :: nat) = CHR ''4''" "char_of (53 :: nat) = CHR ''5''"
  "char_of (54 :: nat) = CHR ''6''" "char_of (55 :: nat) = CHR ''7''" "char_of (56 :: nat) = CHR ''8''"
  "char_of (57 :: nat) = CHR ''9''"
  by code_simp+

lemma demo_cards_table:
  "card_table demo_cards = unlines (map written_record
     [[''0'', ''GPU-a'', ''2'', ''10'', ''655'', ''16311'', ''38'', ''[N/A]'', ''19.31'', ''300.00'', ''30'', ''180'', ''405''],
      [''1'', ''GPU-b'', ''[N/A]'', ''[N/A]'', ''1'', ''8192'', ''25'', ''[N/A]'', ''[N/A]'', ''[N/A]'', ''[N/A]'', ''[N/A]'',
       ''[N/A]'']])"
  by (simp add: card_table_def gpu_table_def demo_cards_def demo_card_def bare_card_def sample_fields_def card_text_def
      gpu_field_list_def shown_def power_field_def two_digits_def show_nat.simps [of "numeral _"] show_nat.simps [of 0]
      show_nat.simps [of "Suc 0"] digit_characters)


section \<open>Where the backends differ\<close>

text \<open>
  A temperature below zero is out of range for the command reader and a reading for the NVML reader,
  and two active throttle reasons can come in different orders.
\<close>

lemma negative_temperature_differs:
  "cell_number (Some (normalize_cell ''-5'')) (field_maximum Temperature) False = Inl ''out_of_range''
   \<and> celsius_number (ONum (PInt (- 5))) = Inr (Num (PInt (- 5)))"
  by code_simp

lemma throttle_order_differs:
  "active_bits 255 72 = [''hw_slowdown'', ''hw_thermal_slowdown'']
   \<and> active_bits 255 80 = [''sync_boost'', ''hw_thermal_slowdown'']
   \<and> filter (\<lambda>reason. reason \<in> {''sync_boost'', ''hw_thermal_slowdown''}) (map fst throttle_fields) =
       [''hw_thermal_slowdown'', ''sync_boost'']"
  by code_simp

end
