(* ===== verification/Spec2Isabelle.thy ===== *)
theory Spec2Isabelle
  imports Sampler Backends
begin

text \<open>
  A verification library for SweatMeter, the telemetry package under src/src/sweatmeter.

  \<^bold>\<open>The program.\<close> SweatMeter reads the state of a machine: the processor, the memory, the disks, and the
  NVIDIA devices. Readers (readers/) get values from /proc and /sys, from the command nvidia-smi or from
  the binding pynvml, and keep a reason for every value they could not get. A collector (collector.py)
  combines a host reader and a GPU reader into a snapshot or a machine profile and never fails. A sampler
  (sampler.py) runs the collector on a thread at fixed deadlines, keeps the latest snapshots, and hands them
  to callbacks and iterators. A window (window.py) computes figures and a throttling verdict from recorded
  snapshots. The factories of platform.py choose the readers, and testing.py has scripted and failing ones.
  Failures are confined by the boundary functions of safe.py.

  \<^bold>\<open>The theories.\<close> Each follows its source file function by function and keeps its names (a leading
  underscore is dropped and a clashing name gets a prefix or a suffix).

  \<^item> SM_Prelude: exceptions as a datatype, results \<open>exn + 'a\<close>, dictionaries as association lists
    (in insertion order, as Python keeps them), and computations \<open>'s \<Rightarrow> (exn + 'a) \<times> 's\<close> with their
    bind. The locale mapping_store states what a dictionary promises and is interpreted on these.
  \<^item> Py_Float: doubles as finite rationals, two infinities and NaN, with rounding to nearest even; numbers
    that are an int or a float; comparison, arithmetic, the built-in sum (compensated, as in CPython 3.12), max, floor, int.
  \<^item> Py_Text: the str and bytes operations the parsers use, int() and float() of text.
  \<^item> Telemetry_Types: types.py, the parts of baseaicore its fields have, and safe.py. Values the code checks
    by isinstance are of type \<open>obj\<close>.
  \<^item> Gpu_Contract: what every GPU reader promises (the locale gpu_reader): samples with strictly ascending
    non-negative indices, values in the range of their field, honest throttle reasons, and a reason for
    whatever is missing.
  \<^item> Readers: readers/protocols.py as records of operations, and the stubs of darwin.py and windows.py.
  \<^item> Linux_Parse and Linux_Host: readers/linux.py, first the pure parsers, then LinuxHostReader with its
    cached sensor, CPU baseline and disk baseline over an environment of files and a clock.
  \<^item> Nvidia_Csv and Nvidia_Smi: readers/nvidia.py, first the CSV layer (the dialect of Python's csv reader as a
    state machine), then NvidiaSmiReader over a resolver and a runner of commands.
  \<^item> Nvml: readers/nvml.py over a binding of which any attribute can be missing or not callable.
  \<^item> Backends: no code of its own, but a description of installed cards, the table the tool prints of them
    and the answers the binding gives, and the agreement of the two readers.
  \<^item> Platform and Testing: platform.py and testing.py.
  \<^item> Collector: collector.py. A collection works on the world of the readers and a local dictionary of
    reasons, a public operation on the world and the stored reasons.
  \<^item> Window: window.py. Timestamps are instants in microseconds (class linorder), figures are measurements.
  \<^item> Sampler: sampler.py as a transition system: the worker threads, the clients' calls and the iterators
    are the actors, each block under the lock is one step, and the steps interleave freely.
  \<^item> Spec2Isabelle: the whole pipeline.

  \<^bold>\<open>What is proved.\<close>

  \<^item> The pipeline (this theory): whatever is buffered by any accepted sampler makes a window, of complete or
    marked snapshots, with figures in range.
  \<^item> Sampler: at most one worker lives; the history is the newest gap-free part of what was published; no
    failure of a reader or a callback ends the worker; after a stop request it finishes within eight of its
    own steps, hence eventually in every fair run, and publishes at most one snapshot more; a deadline
    skips exactly the missed intervals; iterators hand out snapshots once, in order, and miss only what was overwritten. The locale
    sample_source has what the worker needs of its source and is interpreted on the collector. One lemma
    (iterator_stranded) shows an interleaving in which an iterator waits for ever.
  \<^item> Window: chronological order, agreement of figures and evidence counts, exactness of energy on exact
    readings, independence of devices, and what a verdict says of the readings.
  \<^item> Collector: totality of both public operations, equality of the normalization loop with a reference
    definition, transparency for readers that keep the contract, isolation of a failing operation.
  \<^item> Readers: both NVIDIA readers and the scripted one are interpretations of gpu_reader; tables printed by
    the tool are read back; both NVIDIA readers agree to the last bit on the same cards; the exceptions that
    escape are named; the command reader starts only its two queries; the NVML library is initialized and
    shut down in alternation. The Linux parsers read back what the kernel prints, and the reader's
    baselines and rates are right over any sequence of calls.

  \<^bold>\<open>Bounds.\<close> Integers and text are unbounded, as in Python, except where CPython has a limit: int() of more
  than 4300 digits (\<open>max_str_digits\<close>) raises, a history longer than \<open>ssize_max\<close> is refused, a CSV field
  has a longest length (\<open>field_limit\<close>), a datetime ends with the year 9999, and a double rounds and overflows.
  There is no fuel: every loop is structural, has a measure, or is a step of the transition system.
  The eight steps of the stop bound are the longest path from any point of the worker's loop to its end.
  The agreement of the backends assumes cards whose readings are below 2 to the 33 (so a memory size in
  bytes is an exact double), power in hundredths of a watt, as the tool prints it, and at most 10 to
  the 10 cards.

  \<^bold>\<open>Parameters.\<close> Code outside the repository is an argument: the file system, clocks and system calls, the
  runner and resolver of commands, the NVML binding, the import system, the constructors, utc_now and the
  fingerprint of baseaicore, the callback of the sampler. What is assumed of them stands in the theorems.

  \<^bold>\<open>Not modelled.\<close> Log records (they change nothing the code reads); the locks as such (a block under a lock
  is one step or one computation); the re-exports of the package surface (__init__.py, __about__.py,
  readers/__init__.py); time zones whose offset changes over the year, where Python subtracts timestamps of
  the same zone by wall clock (an offset here belongs to the timestamp); tests and documents. Throttle
  reasons are not part of the agreement of the backends: their order differs (throttle_order_differs), and
  so do temperatures below zero (negative_temperature_differs).
\<close>

section \<open>From the machine to a figure\<close>

lemma device_in_row: "device_in k s = Some g \<Longrightarrow> gpu_rows_ok (ts_gpus s) \<Longrightarrow> gpu_row_ok g"
  by (auto simp: device_in_def gpu_rows_ok_def list_all_iff dest: find_Some_in)

lemma failed_rows: "s = failed_snapshot t \<Longrightarrow> ts_gpus s = []"
  by (simp add: failed_snapshot_def)

lemma promised_rows: "snapshot_promise s \<Longrightarrow> gpu_rows_ok (ts_gpus s)"
  unfolding snapshot_promise_def by (auto simp: snapshot_complete_def gpu_rows_ok_def dest!: failed_rows)

lemma row_measurement: "gpu_row_ok g \<Longrightarrow> measurement_ok (field_minimum f) (field_maximum f) (gpu_get f g)"
  using gpu_field_list_all by (auto simp: gpu_row_ok_def list_all_iff)

lemma supported_numberD: "supported_number m = Some v \<Longrightarrow> m = Num v"
  by (cases m) auto

lemma measurements_in_range:
  assumes w: "list_all snapshot_promise (tw_samples w)" and vs: "measurements w v f = Inr vs"
  shows "list_all (number_ok (field_minimum f) (field_maximum f)) vs"
proof -
  from vs obtain index where vs: "vs = List.map_filter (\<lambda>g. supported_number (gpu_get f g))
      (List.map_filter (device_in index) (tw_samples w))"
    by (auto simp: measurements_def gpu_samples_def emap_Inr_iff)
  have "number_ok (field_minimum f) (field_maximum f) x" if x: "x \<in> set vs" for x
  proof -
    from x obtain s g where s: "s \<in> set (tw_samples w)" "device_in index s = Some g"
      and g: "supported_number (gpu_get f g) = Some x"
      by (auto simp: vs List.map_filter_def)
    have "gpu_row_ok g"
      using device_in_row [OF s(2) promised_rows] w s(1) by (simp add: list_all_iff)
    from row_measurement [OF this, of f] supported_numberD [OF g] show ?thesis by simp
  qed
  then show ?thesis by (simp add: list_all_iff)
qed

lemma largest_in_range: "list_all (number_ok lo hi) vs \<Longrightarrow> measurement_ok lo hi (largest vs)"
  using num_max_list_in by (cases vs) (auto simp: list_all_iff, metis insertE)

text \<open>
  C1: the whole pipeline. For every sampler the constructor accepts, over any readers, clocks and
  callback and after any interleaving of starts, stops and consumers, the buffered snapshots
  always make a window: it holds exactly those snapshots, each one complete or the marked empty
  snapshot of a failed collection, and its peak memory and temperature of any device are unsupported
  or in the physical range of their field, with a negative index the only error.
\<close>

theorem telemetry_end_to_end:
  assumes "sampler_init cl interval on_sample buffer clock std limit = Inr cfg"
    and "\<And>w. \<exists>r. std w = Fin r"
    and "sampler_reach cfg st"
  shows "\<exists>w. TelemetryWindow (map Some (buffered st)) = Inr w
    \<and> mset (tw_samples w) = mset (buffered st)
    \<and> list_all snapshot_promise (tw_samples w)
    \<and> (case peak_vram_bytes w (ONum (PInt k)) of
         Inr m \<Rightarrow> measurement_ok (field_minimum VramUsed) (field_maximum VramUsed) m | Inl e \<Rightarrow> k < 0)
    \<and> (case max_temperature_c w (ONum (PInt k)) of
         Inr m \<Rightarrow> measurement_ok (field_minimum Temperature) (field_maximum Temperature) m | Inl e \<Rightarrow> k < 0)"
proof -
  let ?w = "\<lparr>tw_samples = sort_key taken_at (buffered st)\<rparr>"
  have "list_all snapshot_promise (buffered st)"
    by (rule collected.buffered_promise [OF sampler_init_ok [OF assms(1,2)] assms(3)])
  then have ok: "list_all snapshot_promise (tw_samples ?w)" by (simp add: list_all_iff)
  have made: "TelemetryWindow (map Some (buffered st)) = Inr ?w"
    by (simp add: TelemetryWindow_def all_snapshots_cases comp_def)
  have fig: "case emap largest (measurements ?w (ONum (PInt k)) f) of
      Inr m \<Rightarrow> measurement_ok (field_minimum f) (field_maximum f) m | Inl e \<Rightarrow> k < 0" for f
  proof (cases "measurements ?w (ONum (PInt k)) f")
    case (Inl e)
    then show ?thesis
      by (auto simp: measurements_def gpu_samples_def validate_gpu_index_def natural_number_def emap_Inl
          split: if_splits)
  next
    case (Inr vs)
    then show ?thesis using largest_in_range [OF measurements_in_range [OF ok Inr]] by simp
  qed
  from made ok fig [of VramUsed] fig [of Temperature] show ?thesis
    by (intro exI [of _ ?w]) (simp add: peak_vram_bytes_def max_temperature_c_def)
qed

theorem telemetry_end_to_end_witness:
  "\<exists>w. TelemetryWindow (map Some [quiet_snapshot]) = Inr w \<and> tw_samples w = [quiet_snapshot]
    \<and> snapshot_promise quiet_snapshot"
proof -
  have "\<exists>r. (\<lambda>_ :: unit collector_state. Fin 0) w = Fin r" for w by simp
  from telemetry_end_to_end [OF quiet_init this sampled_reach]
  show ?thesis by (force simp: buffered_def sampled_def)
qed

end
